theory Spec2Isabelle
  imports Main "HOL-Library.AList" "HOL-Library.Char_ord" "HOL-Library.List_Lexorder"
    "HOL-Library.Product_Lexorder" "HOL-Library.Multiset" "HOL-Library.Word"
begin

unbundle bit_operations_syntax

text \<open>
  The normalization-and-diff engine of driftwatch: the expansion of RBAC rules into permissions,
  the RBAC snapshot and its differ, the NetworkPolicy digest and its differ, and the two Pod
  Security Admission differs. The definitions follow the Go sources function by function; the
  properties proved of them follow the definitions.
\<close>

section \<open>Go maps and sort.Slice\<close>

text \<open>
  A Go map is a finite partial function whose \<^verbatim>\<open>range\<close> loop visits the entries in an order
  the runtime picks. A map value is modelled as an association list with distinct keys: the list
  order is the order in which one run visits the entries. \<^verbatim>\<open>m[k]\<close> with the comma-ok form is
  \<open>map_of m k\<close>; \<^verbatim>\<open>m[k] = v\<close> is \<open>AList.update k v m\<close> (an existing key keeps its place, a new
  key is added); \<^verbatim>\<open>for k, v := range m\<close> is a left fold over the list. Two lists that are
  permutations of each other stand for the same map value visited in two orders.
\<close>

type_synonym ('k, 'v) gomap = "('k \<times> 'v) list"

text \<open>
  \<^verbatim>\<open>sort.Slice(xs, less)\<close> returns a permutation of \<open>xs\<close> ordered by \<open>less\<close>; it is not
  stable. It is modelled by insertion sort.
\<close>

fun insertSorted :: "('a \<Rightarrow> 'a \<Rightarrow> bool) \<Rightarrow> 'a \<Rightarrow> 'a list \<Rightarrow> 'a list" where
  "insertSorted lt x [] = [x]"
| "insertSorted lt x (y # ys) =
     (if lt x y then x # y # ys else y # insertSorted lt x ys)"

definition sortSlice :: "('a \<Rightarrow> 'a \<Rightarrow> bool) \<Rightarrow> 'a list \<Rightarrow> 'a list" where
  "sortSlice lt xs = foldr (insertSorted lt) xs []"

section \<open>Pod Security Admission: model/psa\_types.go\<close>

type_synonym PSALevel = string

definition PSALevelPrivileged :: PSALevel where
  "PSALevelPrivileged = ''privileged''"

definition PSALevelBaseline :: PSALevel where
  "PSALevelBaseline = ''baseline''"

definition PSALevelRestricted :: PSALevel where
  "PSALevelRestricted = ''restricted''"

record NamespacePSA =
  psa_Namespace :: string
  Enforce :: PSALevel
  Audit :: PSALevel
  Warn :: PSALevel

record PSADriftEntry =
  de_Namespace :: string
  Baseline :: PSALevel
  Live :: PSALevel
  DriftType :: string

section \<open>The bucketed PSA differ\<close>

record PSADrift =
  psa_Extra :: "PSADriftEntry list"
  psa_Missing :: "PSADriftEntry list"

definition psaRank :: "PSALevel \<Rightarrow> int" where
  "psaRank level =
     (if level = PSALevelPrivileged then 1
      else if level = PSALevelBaseline then 2
      else if level = PSALevelRestricted then 3
      else 0)"

definition classifyPSADirection :: "PSALevel \<Rightarrow> PSALevel \<Rightarrow> string \<times> string" where
  "classifyPSADirection base live =
     (let b = psaRank base; l = psaRank live
      in if l < b then (''extra'', ''weaker'')
         else if l > b then (''missing'', ''stronger'')
         else (''extra'', ''different''))"

text \<open>The two loops that fill \<^verbatim>\<open>bMap\<close> and \<^verbatim>\<open>lMap\<close>: a later entry overwrites an earlier one
  of the same namespace.\<close>

definition psaIndex :: "NamespacePSA list \<Rightarrow> (string, NamespacePSA) gomap" where
  "psaIndex xs = foldl (\<lambda>m b. AList.update (psa_Namespace b) b m) [] xs"

text \<open>One pass of the baseline-driven loop; the pair is \<^verbatim>\<open>(extra, missing)\<close>.\<close>

definition psaBaselineStep ::
  "(string, NamespacePSA) gomap \<Rightarrow> PSADriftEntry list \<times> PSADriftEntry list \<Rightarrow>
   string \<times> NamespacePSA \<Rightarrow> PSADriftEntry list \<times> PSADriftEntry list" where
  "psaBaselineStep lMap acc kv =
     (case acc of (extra, missing) \<Rightarrow>
      case kv of (ns, b) \<Rightarrow>
        (case map_of lMap ns of
           None \<Rightarrow>
             (extra,
              missing @ [\<lparr>de_Namespace = ns, Baseline = Enforce b, Live = [],
                          DriftType = ''missing''\<rparr>])
         | Some l \<Rightarrow>
             if Enforce b \<noteq> Enforce l then
               (case classifyPSADirection (Enforce b) (Enforce l) of (dir, label) \<Rightarrow>
                  let e = \<lparr>de_Namespace = ns, Baseline = Enforce b, Live = Enforce l,
                           DriftType = label\<rparr>
                  in if dir = ''extra'' then (extra @ [e], missing)
                     else if dir = ''missing'' then (extra, missing @ [e])
                     else (extra @ [e], missing))
             else (extra, missing)))"

text \<open>One pass of the loop over the namespaces of live.\<close>

definition psaLiveStep ::
  "(string, NamespacePSA) gomap \<Rightarrow> PSADriftEntry list \<Rightarrow> string \<times> NamespacePSA \<Rightarrow>
   PSADriftEntry list" where
  "psaLiveStep bMap extra kv =
     (case kv of (ns, l) \<Rightarrow>
        (case map_of bMap ns of
           None \<Rightarrow> extra @ [\<lparr>de_Namespace = ns, Baseline = [], Live = Enforce l,
                              DriftType = ''extra''\<rparr>]
         | Some b \<Rightarrow> extra))"

definition lessNamespace :: "PSADriftEntry \<Rightarrow> PSADriftEntry \<Rightarrow> bool" where
  "lessNamespace x y = (de_Namespace x < de_Namespace y)"

text \<open>\<^verbatim>\<open>DiffPSA\<close> from the point where both index maps exist; \<open>bMap\<close> and \<open>lMap\<close> are visited
  in the order of their lists.\<close>

definition DiffPSA_maps ::
  "(string, NamespacePSA) gomap \<Rightarrow> (string, NamespacePSA) gomap \<Rightarrow> PSADrift" where
  "DiffPSA_maps bMap lMap =
     (case foldl (psaBaselineStep lMap) ([], []) bMap of (extra, missing) \<Rightarrow>
        let extra' = foldl (psaLiveStep bMap) extra lMap
        in \<lparr>psa_Extra = sortSlice lessNamespace extra',
            psa_Missing = sortSlice lessNamespace missing\<rparr>)"

definition DiffPSA :: "NamespacePSA list \<Rightarrow> NamespacePSA list \<Rightarrow> PSADrift" where
  "DiffPSA baseline live = DiffPSA_maps (psaIndex baseline) (psaIndex live)"

section \<open>The flat PSA differ: diff/psa\_diff.go\<close>

text \<open>\<^verbatim>\<open>order[level]\<close> on the three-entry map literal: 0 for a level that is not a key.\<close>

definition psaOrder :: "(PSALevel, int) gomap" where
  "psaOrder = [(PSALevelPrivileged, 1), (PSALevelBaseline, 2), (PSALevelRestricted, 3)]"

definition classifyPSADrift :: "PSALevel \<Rightarrow> PSALevel \<Rightarrow> string" where
  "classifyPSADrift base live =
     (let b = (case map_of psaOrder base of None \<Rightarrow> 0 | Some r \<Rightarrow> r);
          l = (case map_of psaOrder live of None \<Rightarrow> 0 | Some r \<Rightarrow> r)
      in if b = 0 \<or> l = 0 then ''different''
         else if l < b then ''weaker''
         else if l > b then ''stronger''
         else ''different'')"

definition psaFlatBaselineStep ::
  "(string, NamespacePSA) gomap \<Rightarrow> PSADriftEntry list \<Rightarrow> string \<times> NamespacePSA \<Rightarrow>
   PSADriftEntry list" where
  "psaFlatBaselineStep lMap entries kv =
     (case kv of (ns, b) \<Rightarrow>
        (case map_of lMap ns of
           None \<Rightarrow> entries @ [\<lparr>de_Namespace = ns, Baseline = Enforce b, Live = [],
                                DriftType = ''missing''\<rparr>]
         | Some l \<Rightarrow>
             if Enforce b \<noteq> Enforce l then
               entries @ [\<lparr>de_Namespace = ns, Baseline = Enforce b, Live = Enforce l,
                            DriftType = classifyPSADrift (Enforce b) (Enforce l)\<rparr>]
             else entries))"

definition DiffPSA_flat_maps ::
  "(string, NamespacePSA) gomap \<Rightarrow> (string, NamespacePSA) gomap \<Rightarrow> PSADriftEntry list" where
  "DiffPSA_flat_maps bMap lMap =
     (let entries = foldl (psaFlatBaselineStep lMap) [] bMap;
          entries' = foldl (psaLiveStep bMap) entries lMap
      in sortSlice lessNamespace entries')"

definition DiffPSA_flat :: "NamespacePSA list \<Rightarrow> NamespacePSA list \<Rightarrow> PSADriftEntry list" where
  "DiffPSA_flat baseline live = DiffPSA_flat_maps (psaIndex baseline) (psaIndex live)"

section \<open>RBAC model: SubjectKey, Permission, RBACSnapshot\<close>

record SubjectKey =
  sk_Kind :: string
  sk_Name :: string
  sk_Namespace :: string

record Permission =
  ScopeNamespace :: string
  APIGroup :: string
  Resource :: string
  ResourceName :: string
  Verb :: string
  NonResourceURL :: string

text \<open>\<^verbatim>\<open>map[Permission]struct{}\<close>: a Go map whose values carry nothing.\<close>

type_synonym PermSet = "(Permission, unit) gomap"

record RBACSnapshot =
  Subjects :: "(SubjectKey, PermSet) gomap"

text \<open>\<^verbatim>\<open>AddPermissions\<close>: an empty list returns at once; otherwise the subject's set is looked
  up (created when absent) and every permission is stored in it. The inner map is reached through
  the outer one, so the filled set is what the outer map holds for the subject afterwards.\<close>

definition AddPermissions :: "SubjectKey \<Rightarrow> Permission list \<Rightarrow> RBACSnapshot \<Rightarrow> RBACSnapshot" where
  "AddPermissions subj perms s =
     (if length perms = 0 then s
      else
        let permSet = (case map_of (Subjects s) subj of Some ps \<Rightarrow> ps | None \<Rightarrow> [])
        in s\<lparr>Subjects :=
               AList.update subj (foldl (\<lambda>m p. AList.update p () m) permSet perms)
                 (Subjects s)\<rparr>)"

text \<open>The fields of \<^verbatim>\<open>rbacv1.Subject\<close> and \<^verbatim>\<open>rbacv1.PolicyRule\<close> that the code reads.\<close>

record Subject =
  subj_Kind :: string
  subj_Name :: string
  subj_Namespace :: string

record PolicyRule =
  Verbs :: "string list"
  APIGroups :: "string list"
  Resources :: "string list"
  ResourceNames :: "string list"
  NonResourceURLs :: "string list"

definition SubjectKeyFromRBACSubject :: "Subject \<Rightarrow> string \<Rightarrow> SubjectKey" where
  "SubjectKeyFromRBACSubject subj defaultNamespace =
     (let ns = (if subj_Namespace subj = [] \<and> subj_Kind subj = ''ServiceAccount''
                then defaultNamespace else subj_Namespace subj)
      in \<lparr>sk_Kind = subj_Kind subj, sk_Name = subj_Name subj, sk_Namespace = ns\<rparr>)"

section \<open>The RBAC rule expander\<close>

text \<open>The body of the loop over the rules: \<open>out\<close> is the slice built so far, every
  \<^verbatim>\<open>append\<close> adds one permission at its end. Fields left out of a struct literal are the
  empty string.\<close>

definition expandRule :: "string \<Rightarrow> bool \<Rightarrow> Permission list \<Rightarrow> PolicyRule \<Rightarrow> Permission list" where
  "expandRule bindingNamespace clusterScope out rule =
     (if length (NonResourceURLs rule) > 0 then
        (let scope = ''*''
         in foldl (\<lambda>out verb.
              foldl (\<lambda>out url.
                out @ [\<lparr>ScopeNamespace = scope, APIGroup = [], Resource = [],
                         ResourceName = [], Verb = verb, NonResourceURL = url\<rparr>])
                out (NonResourceURLs rule))
              out (Verbs rule))
      else
        (let apiGroups = (if length (APIGroups rule) = 0 then [[]] else APIGroups rule);
             resources = (if length (Resources rule) = 0 then [[]] else Resources rule);
             resourceNames =
               (if length (ResourceNames rule) = 0 then [''*''] else ResourceNames rule);
             scope = (if \<not> clusterScope then bindingNamespace else ''*'')
         in foldl (\<lambda>out verb.
              foldl (\<lambda>out grp.
                foldl (\<lambda>out res.
                  foldl (\<lambda>out rn.
                    out @ [\<lparr>ScopeNamespace = scope, APIGroup = grp, Resource = res,
                             ResourceName = rn, Verb = verb, NonResourceURL = []\<rparr>])
                    out resourceNames)
                  out resources)
                out apiGroups)
              out (Verbs rule)))"

definition ExpandPolicyRulesToPermissions ::
  "PolicyRule list \<Rightarrow> string \<Rightarrow> bool \<Rightarrow> Permission list" where
  "ExpandPolicyRulesToPermissions rules bindingNamespace clusterScope =
     foldl (expandRule bindingNamespace clusterScope) [] rules"

text \<open>The expansion as the specification words it: per rule, the product of the four
  dimensions after defaulting, or verb by URL for a rule with non-resource URLs.\<close>

definition specExpandRule :: "string \<Rightarrow> bool \<Rightarrow> PolicyRule \<Rightarrow> Permission list" where
  "specExpandRule bindingNamespace clusterScope rule =
     (if NonResourceURLs rule \<noteq> [] then
        [\<lparr>ScopeNamespace = ''*'', APIGroup = [], Resource = [], ResourceName = [],
          Verb = verb, NonResourceURL = url\<rparr>.
           verb \<leftarrow> Verbs rule, url \<leftarrow> NonResourceURLs rule]
      else
        [\<lparr>ScopeNamespace = (if clusterScope then ''*'' else bindingNamespace),
          APIGroup = grp, Resource = res, ResourceName = rn, Verb = verb,
          NonResourceURL = []\<rparr>.
           verb \<leftarrow> Verbs rule,
           grp \<leftarrow> (if APIGroups rule = [] then [[]] else APIGroups rule),
           res \<leftarrow> (if Resources rule = [] then [[]] else Resources rule),
           rn \<leftarrow> (if ResourceNames rule = [] then [''*''] else ResourceNames rule)])"

section \<open>The RBAC snapshot builder: collectors/rbac\_collector.go\<close>

record Role =
  role_Namespace :: string
  role_Name :: string
  role_Rules :: "PolicyRule list"

record ClusterRole =
  cr_Name :: string
  cr_Rules :: "PolicyRule list"

record RoleBinding =
  rb_Namespace :: string
  rb_RoleRef_Kind :: string
  rb_RoleRef_Name :: string
  rb_Subjects :: "Subject list"

record ClusterRoleBinding =
  crb_RoleRef_Name :: string
  crb_Subjects :: "Subject list"

text \<open>\<^verbatim>\<open>m[key]\<close> on a map of slices: the nil slice when the key is absent.\<close>

definition rulesAt :: "(string, PolicyRule list) gomap \<Rightarrow> string \<Rightarrow> PolicyRule list" where
  "rulesAt m key = (case map_of m key of None \<Rightarrow> [] | Some rs \<Rightarrow> rs)"

definition rolesByKey :: "Role list \<Rightarrow> (string, PolicyRule list) gomap" where
  "rolesByKey roles =
     foldl (\<lambda>m r. let key = role_Namespace r @ ''/'' @ role_Name r
                   in AList.update key (rulesAt m key @ role_Rules r) m) [] roles"

definition clusterRolesByName :: "ClusterRole list \<Rightarrow> (string, PolicyRule list) gomap" where
  "clusterRolesByName clusterRoles =
     foldl (\<lambda>m cr. AList.update (cr_Name cr) (rulesAt m (cr_Name cr) @ cr_Rules cr) m)
       [] clusterRoles"

text \<open>The \<^verbatim>\<open>switch\<close> on the kind of the role reference: the rules it resolves to, or \<open>None\<close>
  where the loop goes on to the next binding.\<close>

definition resolveRoleRef ::
  "(string, PolicyRule list) gomap \<Rightarrow> (string, PolicyRule list) gomap \<Rightarrow> RoleBinding \<Rightarrow>
   PolicyRule list option" where
  "resolveRoleRef byKey byName rb =
     (if rb_RoleRef_Kind rb = ''Role''
      then Some (rulesAt byKey (rb_Namespace rb @ ''/'' @ rb_RoleRef_Name rb))
      else if rb_RoleRef_Kind rb = ''ClusterRole''
      then Some (rulesAt byName (rb_RoleRef_Name rb))
      else None)"

text \<open>The body of the loop over the namespaced RoleBindings; \<^verbatim>\<open>continue\<close> leaves the snapshot
  as it is.\<close>

definition roleBindingStep ::
  "(string, PolicyRule list) gomap \<Rightarrow> (string, PolicyRule list) gomap \<Rightarrow> RBACSnapshot \<Rightarrow>
   RoleBinding \<Rightarrow> RBACSnapshot" where
  "roleBindingStep byKey byName snapshot rb =
     (case resolveRoleRef byKey byName rb of
        None \<Rightarrow> snapshot
      | Some rules \<Rightarrow>
          if length rules = 0 then snapshot
          else
            let perms = ExpandPolicyRulesToPermissions rules (rb_Namespace rb) False
            in if length perms = 0 then snapshot
               else foldl (\<lambda>s subj.
                      AddPermissions (SubjectKeyFromRBACSubject subj (rb_Namespace rb)) perms s)
                      snapshot (rb_Subjects rb))"

definition clusterRoleBindingStep ::
  "(string, PolicyRule list) gomap \<Rightarrow> RBACSnapshot \<Rightarrow> ClusterRoleBinding \<Rightarrow> RBACSnapshot" where
  "clusterRoleBindingStep byName snapshot crb =
     (let rules = rulesAt byName (crb_RoleRef_Name crb)
      in if length rules = 0 then snapshot
         else
           let perms = ExpandPolicyRulesToPermissions rules [] True
           in if length perms = 0 then snapshot
              else foldl (\<lambda>s subj. AddPermissions (SubjectKeyFromRBACSubject subj []) perms s)
                     snapshot (crb_Subjects crb))"

definition buildRBACSnapshot ::
  "Role list \<Rightarrow> ClusterRole list \<Rightarrow> RoleBinding list \<Rightarrow> ClusterRoleBinding list \<Rightarrow>
   RBACSnapshot" where
  "buildRBACSnapshot roles clusterRoles roleBindings clusterRoleBindings =
     (let byKey = rolesByKey roles;
          byName = clusterRolesByName clusterRoles;
          snapshot = foldl (roleBindingStep byKey byName) \<lparr>Subjects = []\<rparr> roleBindings
      in foldl (clusterRoleBindingStep byName) snapshot clusterRoleBindings)"

section \<open>The RBAC differ: diff/rbac\_diff.go\<close>

record RBACDrift =
  rbac_Extra :: "(SubjectKey, Permission list) gomap"
  rbac_Missing :: "(SubjectKey, Permission list) gomap"

text \<open>\<^verbatim>\<open>snap.Subjects[subj]\<close>: the nil map, of length 0, when the subject is absent.\<close>

definition permsOf :: "RBACSnapshot \<Rightarrow> SubjectKey \<Rightarrow> PermSet" where
  "permsOf snap subj = (case map_of (Subjects snap) subj of None \<Rightarrow> [] | Some ps \<Rightarrow> ps)"

text \<open>The loop \<^verbatim>\<open>for p := range xs { if _, ok := other[p]; !ok { acc = append(acc, p) } }\<close>.\<close>

definition notIn :: "PermSet \<Rightarrow> PermSet \<Rightarrow> Permission list" where
  "notIn xs other =
     foldl (\<lambda>acc p. if map_of other p = None then acc @ [p] else acc) [] (map fst xs)"

text \<open>The union of the subjects, built by storing every key of baseline and then of live.\<close>

definition allSubjects :: "RBACSnapshot \<Rightarrow> RBACSnapshot \<Rightarrow> (SubjectKey, unit) gomap" where
  "allSubjects baseline live =
     foldl (\<lambda>m s. AList.update s () m)
       (foldl (\<lambda>m s. AList.update s () m) [] (map fst (Subjects baseline)))
       (map fst (Subjects live))"

text \<open>The body of the loop over \<^verbatim>\<open>allSubjects\<close>.\<close>

definition diffSubject :: "RBACSnapshot \<Rightarrow> RBACSnapshot \<Rightarrow> RBACDrift \<Rightarrow> SubjectKey \<Rightarrow> RBACDrift" where
  "diffSubject baseline live result subj =
     (let basePerms = permsOf baseline subj;
          livePerms = permsOf live subj;
          result1 =
            (if length livePerms > 0 then
               (let extras = notIn livePerms basePerms
                in if length extras > 0
                   then result\<lparr>rbac_Extra := AList.update subj extras (rbac_Extra result)\<rparr>
                   else result)
             else result)
      in if length basePerms > 0 then
           (let missing = notIn basePerms livePerms
            in if length missing > 0
               then result1\<lparr>rbac_Missing := AList.update subj missing (rbac_Missing result1)\<rparr>
               else result1)
         else result1)"

text \<open>\<^verbatim>\<open>DiffRBAC\<close> with the order in which the union of subjects is visited given as a list.\<close>

definition DiffRBAC_order :: "SubjectKey list \<Rightarrow> RBACSnapshot \<Rightarrow> RBACSnapshot \<Rightarrow> RBACDrift" where
  "DiffRBAC_order subjects baseline live =
     foldl (diffSubject baseline live) \<lparr>rbac_Extra = [], rbac_Missing = []\<rparr> subjects"

definition DiffRBAC :: "RBACSnapshot \<Rightarrow> RBACSnapshot \<Rightarrow> RBACDrift" where
  "DiffRBAC baseline live =
     DiffRBAC_order (map fst (allSubjects baseline live)) baseline live"

section \<open>NetworkPolicy digest\<close>

record NetPolDigest =
  d_Namespace :: string
  d_Name :: string
  SpecHash :: string
  PolicyTypes :: "string list"
  IngressCount :: int
  EgressCount :: int

text \<open>The parts of \<^verbatim>\<open>networkingv1.NetworkPolicy\<close> the code reads, and two metadata fields it
  does not. \<open>'a\<close> stands for the selector and rule structures of the Kubernetes API, which the
  code only hands to the serializer or counts.\<close>

record 'a NetworkPolicySpec =
  spec_PodSelector :: 'a
  spec_Ingress :: "'a list"
  spec_Egress :: "'a list"
  spec_PolicyTypes :: "string list"

record 'a NetworkPolicy =
  np_Namespace :: string
  np_Name :: string
  np_ResourceVersion :: string
  np_Labels :: "(string \<times> string) list"
  np_Spec :: "'a NetworkPolicySpec"

text \<open>\<^verbatim>\<open>hex.EncodeToString\<close>: two lower-case hexadecimal digits per byte.\<close>

definition hextable :: string where
  "hextable = ''0123456789abcdef''"

definition EncodeToString :: "8 word list \<Rightarrow> string" where
  "EncodeToString src =
     concat (map (\<lambda>v. [hextable ! unat (drop_bit 4 v), hextable ! unat (v AND 0x0f)]) src)"

text \<open>\<^verbatim>\<open>fmt.Errorf("marshal NetworkPolicy spec: %w", err)\<close> wraps the serializer's error.\<close>

datatype 'e error = MarshalSpecError 'e

text \<open>\<^verbatim>\<open>json.Marshal\<close> and \<^verbatim>\<open>sha256.Sum256\<close> belong to Go's standard library; they are the
  parameters \<open>marshal\<close> (which may fail) and \<open>sum256\<close>.\<close>

definition NewNetPolDigest ::
  "('a NetworkPolicySpec \<Rightarrow> 'e + 8 word list) \<Rightarrow> (8 word list \<Rightarrow> 8 word list) \<Rightarrow>
   'a NetworkPolicy \<Rightarrow> 'e error + NetPolDigest" where
  "NewNetPolDigest marshal sum256 np =
     (case marshal (np_Spec np) of
        Inl err \<Rightarrow> Inl (MarshalSpecError err)
      | Inr specBytes \<Rightarrow>
          let hash = sum256 specBytes
          in Inr \<lparr>d_Namespace = np_Namespace np,
                  d_Name = np_Name np,
                  SpecHash = EncodeToString hash,
                  PolicyTypes = spec_PolicyTypes (np_Spec np),
                  IngressCount = int (length (spec_Ingress (np_Spec np))),
                  EgressCount = int (length (spec_Egress (np_Spec np)))\<rparr>)"

record NetPolRef =
  ref_Namespace :: string
  ref_Name :: string

record NetPolChange =
  ch_Namespace :: string
  ch_Name :: string
  ch_Baseline :: NetPolDigest
  ch_Live :: NetPolDigest

record NetPolSnapshot =
  Items :: "(string, NetPolDigest) gomap"

text \<open>The loop of \<^verbatim>\<open>buildNetPolSnapshot\<close>: the first digest that fails ends it with that error.\<close>

fun buildNetPolItems ::
  "('a NetworkPolicySpec \<Rightarrow> 'e + 8 word list) \<Rightarrow> (8 word list \<Rightarrow> 8 word list) \<Rightarrow>
   'a NetworkPolicy list \<Rightarrow> (string, NetPolDigest) gomap \<Rightarrow>
   'e error + (string, NetPolDigest) gomap" where
  "buildNetPolItems marshal sum256 [] items = Inr items"
| "buildNetPolItems marshal sum256 (np # rest) items =
     (case NewNetPolDigest marshal sum256 np of
        Inl err \<Rightarrow> Inl err
      | Inr digest \<Rightarrow>
          buildNetPolItems marshal sum256 rest
            (AList.update (np_Namespace np @ ''/'' @ np_Name np) digest items))"

definition buildNetPolSnapshot ::
  "('a NetworkPolicySpec \<Rightarrow> 'e + 8 word list) \<Rightarrow> (8 word list \<Rightarrow> 8 word list) \<Rightarrow>
   'a NetworkPolicy list \<Rightarrow> 'e error + NetPolSnapshot" where
  "buildNetPolSnapshot marshal sum256 netpols =
     (case buildNetPolItems marshal sum256 netpols [] of
        Inl err \<Rightarrow> Inl err
      | Inr items \<Rightarrow> Inr \<lparr>Items = items\<rparr>)"

section \<open>The NetworkPolicy differ: diff/netpol\_diff.go\<close>

record NetPolDrift =
  np_Missing :: "NetPolRef list"
  np_Extra :: "NetPolRef list"
  np_Changed :: "NetPolChange list"

definition netpolKeys :: "NetPolSnapshot \<Rightarrow> NetPolSnapshot \<Rightarrow> (string, unit) gomap" where
  "netpolKeys baseline live =
     foldl (\<lambda>m k. AList.update k () m)
       (foldl (\<lambda>m k. AList.update k () m) [] (map fst (Items baseline)))
       (map fst (Items live))"

text \<open>The \<^verbatim>\<open>switch\<close> in the loop over the keys. A key of the union is in one of the two maps, so
  the last case is not reached from \<^verbatim>\<open>DiffNetworkPolicies\<close>; no case of the switch matches it.\<close>

definition netpolStep ::
  "NetPolSnapshot \<Rightarrow> NetPolSnapshot \<Rightarrow> NetPolDrift \<Rightarrow> string \<Rightarrow> NetPolDrift" where
  "netpolStep baseline live result key =
     (case (map_of (Items baseline) key, map_of (Items live) key) of
        (Some base, None) \<Rightarrow>
          result\<lparr>np_Missing := np_Missing result @
            [\<lparr>ref_Namespace = d_Namespace base, ref_Name = d_Name base\<rparr>]\<rparr>
      | (None, Some liveItem) \<Rightarrow>
          result\<lparr>np_Extra := np_Extra result @
            [\<lparr>ref_Namespace = d_Namespace liveItem, ref_Name = d_Name liveItem\<rparr>]\<rparr>
      | (Some base, Some liveItem) \<Rightarrow>
          if SpecHash base \<noteq> SpecHash liveItem then
            result\<lparr>np_Changed := np_Changed result @
              [\<lparr>ch_Namespace = d_Namespace base, ch_Name = d_Name base,
                ch_Baseline = base, ch_Live = liveItem\<rparr>]\<rparr>
          else result
      | (None, None) \<Rightarrow> result)"

definition lessRef :: "NetPolRef \<Rightarrow> NetPolRef \<Rightarrow> bool" where
  "lessRef x y =
     (if ref_Namespace x = ref_Namespace y then ref_Name x < ref_Name y
      else ref_Namespace x < ref_Namespace y)"

definition lessChange :: "NetPolChange \<Rightarrow> NetPolChange \<Rightarrow> bool" where
  "lessChange x y =
     (if ch_Namespace x = ch_Namespace y then ch_Name x < ch_Name y
      else ch_Namespace x < ch_Namespace y)"

text \<open>\<^verbatim>\<open>DiffNetworkPolicies\<close> with the order in which the union of keys is visited given as a
  list.\<close>

definition DiffNetworkPolicies_order ::
  "string list \<Rightarrow> NetPolSnapshot \<Rightarrow> NetPolSnapshot \<Rightarrow> NetPolDrift" where
  "DiffNetworkPolicies_order keys baseline live =
     (let result = foldl (netpolStep baseline live)
                     \<lparr>np_Missing = [], np_Extra = [], np_Changed = []\<rparr> keys
      in \<lparr>np_Missing = sortSlice lessRef (np_Missing result),
          np_Extra = sortSlice lessRef (np_Extra result),
          np_Changed = sortSlice lessChange (np_Changed result)\<rparr>)"

definition DiffNetworkPolicies :: "NetPolSnapshot \<Rightarrow> NetPolSnapshot \<Rightarrow> NetPolDrift" where
  "DiffNetworkPolicies baseline live =
     DiffNetworkPolicies_order (map fst (netpolKeys baseline live)) baseline live"

section \<open>The PSA classification as the specification words it\<close>

text \<open>The bucket of a drift entry, and the enforce level a collection records for a namespace:
  \<open>None\<close> when the namespace has no entry (the last entry, should there be several, as the
  index map keeps it).\<close>

datatype bucket = BucketExtra | BucketMissing

definition enforceIn :: "NamespacePSA list \<Rightarrow> string \<Rightarrow> PSALevel option" where
  "enforceIn xs ns = map_option Enforce (List.find (\<lambda>x. psa_Namespace x = ns) (rev xs))"

definition specClassifyPSA :: "PSALevel option \<Rightarrow> PSALevel option \<Rightarrow> (bucket \<times> string) option" where
  "specClassifyPSA base live =
     (case (base, live) of
        (Some b, Some l) \<Rightarrow>
          if b = l then None
          else if psaRank l < psaRank b then Some (BucketExtra, ''weaker'')
          else if psaRank l > psaRank b then Some (BucketMissing, ''stronger'')
          else Some (BucketExtra, ''different'')
      | (Some b, None) \<Rightarrow> Some (BucketMissing, ''missing'')
      | (None, Some l) \<Rightarrow> Some (BucketExtra, ''extra'')
      | (None, None) \<Rightarrow> None)"

definition levelOrEmpty :: "PSALevel option \<Rightarrow> PSALevel" where
  "levelOrEmpty lv = (case lv of None \<Rightarrow> [] | Some l \<Rightarrow> l)"

definition specPSAEntries :: "bucket \<Rightarrow> (string \<Rightarrow> PSALevel option) \<Rightarrow> (string \<Rightarrow> PSALevel option) \<Rightarrow> PSADriftEntry set" where
  "specPSAEntries bk B L =
     {\<lparr>de_Namespace = ns, Baseline = levelOrEmpty (B ns), Live = levelOrEmpty (L ns), DriftType = label\<rparr>
        | ns label. specClassifyPSA (B ns) (L ns) = Some (bk, label)}"

definition knownPSALevels :: "PSALevel set" where
  "knownPSALevels = {PSALevelPrivileged, PSALevelBaseline, PSALevelRestricted}"

section \<open>Invariants of snapshots built by AddPermissions\<close>

text \<open>Every map of the snapshot has distinct keys; no subject has an empty permission set; the
  permissions of a subject as a set, empty for a subject the snapshot does not hold.\<close>

definition snapshot_distinct :: "RBACSnapshot \<Rightarrow> bool" where
  "snapshot_distinct s =
     (distinct (map fst (Subjects s)) \<and> (\<forall>kv \<in> set (Subjects s). distinct (map fst (snd kv))))"

definition snapshot_nonempty :: "RBACSnapshot \<Rightarrow> bool" where
  "snapshot_nonempty s = (\<forall>kv \<in> set (Subjects s). snd kv \<noteq> [])"

definition permSetOf :: "RBACSnapshot \<Rightarrow> SubjectKey \<Rightarrow> Permission set" where
  "permSetOf snap subj = fst ` set (permsOf snap subj)"

section \<open>NetworkPolicy snapshots as the data model describes them\<close>

text \<open>A snapshot maps the key namespace/name to the digest of that policy, each key once.\<close>

definition netpolKey :: "string \<Rightarrow> string \<Rightarrow> string" where
  "netpolKey ns name = ns @ ''/'' @ name"

definition wf_netpol :: "NetPolSnapshot \<Rightarrow> bool" where
  "wf_netpol snap =
     (distinct (map fst (Items snap)) \<and>
      (\<forall>kv \<in> set (Items snap). fst kv = netpolKey (d_Namespace (snd kv)) (d_Name (snd kv))))"

definition refKey :: "NetPolRef \<Rightarrow> string" where
  "refKey r = netpolKey (ref_Namespace r) (ref_Name r)"

definition changeKey :: "NetPolChange \<Rightarrow> string" where
  "changeKey c = netpolKey (ch_Namespace c) (ch_Name c)"

text \<open>The bucket of a key as the specification words it, from the digests the two snapshots hold
  for the key.\<close>

datatype netpolBucket = NPMissing | NPExtra | NPChanged

definition specNetPolBucket ::
  "NetPolDigest option \<Rightarrow> NetPolDigest option \<Rightarrow> netpolBucket option" where
  "specNetPolBucket base live =
     (case (base, live) of
        (Some b, None) \<Rightarrow> Some NPMissing
      | (None, Some l) \<Rightarrow> Some NPExtra
      | (Some b, Some l) \<Rightarrow> if SpecHash b \<noteq> SpecHash l then Some NPChanged else None
      | (None, None) \<Rightarrow> None)"

definition refOrder :: "NetPolRef \<Rightarrow> string \<times> string" where
  "refOrder r = (ref_Namespace r, ref_Name r)"

definition changeOrder :: "NetPolChange \<Rightarrow> string \<times> string" where
  "changeOrder c = (ch_Namespace c, ch_Name c)"

definition digestRef :: "NetPolDigest \<Rightarrow> NetPolRef" where
  "digestRef d = \<lparr>ref_Namespace = d_Namespace d, ref_Name = d_Name d\<rparr>"

definition netpolBucketOf :: "NetPolSnapshot \<Rightarrow> NetPolSnapshot \<Rightarrow> string \<Rightarrow> netpolBucket option" where
  "netpolBucketOf baseline live key =
     specNetPolBucket (map_of (Items baseline) key) (map_of (Items live) key)"

section \<open>One snapshot value, two iteration orders\<close>

text \<open>Two RBAC snapshots hold the same value when every subject has the same set of
  permissions in both; the order in which a run visits the subjects and the permissions is
  left open.\<close>

definition same_rbac :: "RBACSnapshot \<Rightarrow> RBACSnapshot \<Rightarrow> bool" where
  "same_rbac s s' = (\<forall>subj. permSetOf s subj = permSetOf s' subj)"

section \<open>Properties\<close>

subsection \<open>sort.Slice\<close>

lemma set_insertSorted: "set (insertSorted lt x ys) = insert x (set ys)"
  by (induction ys) auto

lemma mset_insertSorted: "mset (insertSorted lt x ys) = add_mset x (mset ys)"
  by (induction ys) auto

lemma mset_sortSlice: "mset (sortSlice lt xs) = mset xs"
  by (induction xs) (auto simp: sortSlice_def mset_insertSorted)

lemma set_sortSlice: "set (sortSlice lt xs) = set xs"
  by (rule mset_eq_setD) (rule mset_sortSlice)

lemma sorted_insertSorted:
  fixes key :: "'a \<Rightarrow> 'k::linorder"
  assumes lt: "\<And>a b. lt a b = (key a < key b)"
  shows "sorted (map key ys) \<Longrightarrow> sorted (map key (insertSorted lt x ys))"
  by (induction ys) (auto simp: lt set_insertSorted)

lemma sorted_sortSlice:
  fixes key :: "'a \<Rightarrow> 'k::linorder"
  assumes lt: "\<And>a b. lt a b = (key a < key b)"
  shows "sorted (map key (sortSlice lt xs))"
proof (induction xs)
  case Nil
  show ?case by (simp add: sortSlice_def)
next
  case (Cons x xs)
  have "sortSlice lt (x # xs) = insertSorted lt x (sortSlice lt xs)"
    by (simp add: sortSlice_def)
  with Cons sorted_insertSorted[of lt key, OF lt] show ?case by simp
qed

lemma distinct_map_sortSlice:
  "distinct (map key (sortSlice lt xs)) = distinct (map key xs)"
proof -
  have "mset (map key (sortSlice lt xs)) = mset (map key xs)"
    by (simp add: mset_sortSlice)
  then show ?thesis by (rule mset_eq_imp_distinct_iff)
qed

text \<open>With pairwise distinct keys the sorted permutation is unique.\<close>
lemma sortSlice_unique:
  fixes key :: "'a \<Rightarrow> 'k::linorder"
  assumes lt: "\<And>a b. lt a b = (key a < key b)"
    and d: "distinct (map key xs)" and m: "mset ys = mset xs"
  shows "sortSlice lt ys = sortSlice lt xs"
proof -
  have "mset (map key ys) = mset (map key xs)" using m by simp
  then have dy: "distinct (map key ys)"
    using d mset_eq_imp_distinct_iff by blast
  have s: "set ys = set xs" using m by (rule mset_eq_setD)
  have "map key (sortSlice lt ys) = map key (sortSlice lt xs)"
    by (rule sorted_distinct_set_unique)
      (simp_all add: sorted_sortSlice[of lt key, OF lt] distinct_map_sortSlice d dy set_sortSlice s)
  moreover have "inj_on key (set (sortSlice lt ys) \<union> set (sortSlice lt xs))"
    using d by (simp add: set_sortSlice s distinct_map)
  ultimately show ?thesis by (simp add: inj_on_map_eq_map)
qed

subsection \<open>The bucketed PSA differ\<close>

lemma psaBaselineStep_acc:
  "psaBaselineStep lMap (e, m) kv =
     (e @ fst (psaBaselineStep lMap ([], []) kv), m @ snd (psaBaselineStep lMap ([], []) kv))"
  by (auto simp: psaBaselineStep_def Let_def split: option.splits prod.splits)

lemma foldl_psaBaselineStep:
  "foldl (psaBaselineStep lMap) (e, m) bMap =
     (e @ concat (map (\<lambda>kv. fst (psaBaselineStep lMap ([], []) kv)) bMap),
      m @ concat (map (\<lambda>kv. snd (psaBaselineStep lMap ([], []) kv)) bMap))"
proof (induction bMap arbitrary: e m)
  case Nil
  show ?case by simp
next
  case (Cons kv bMap)
  show ?case
    by (simp only: foldl_Cons psaBaselineStep_acc[of lMap e m kv] Cons.IH)
       simp
qed

lemma psaLiveStep_acc: "psaLiveStep bMap e kv = e @ psaLiveStep bMap [] kv"
  by (auto simp: psaLiveStep_def split: option.splits prod.splits)

lemma foldl_psaLiveStep:
  "foldl (psaLiveStep bMap) e lMap = e @ concat (map (psaLiveStep bMap []) lMap)"
proof (induction lMap arbitrary: e)
  case Nil
  show ?case by simp
next
  case (Cons kv lMap)
  show ?case
    by (simp only: foldl_Cons psaLiveStep_acc[of bMap e kv] Cons.IH) simp
qed

lemma DiffPSA_maps_eq:
  "DiffPSA_maps bMap lMap =
     \<lparr>psa_Extra = sortSlice lessNamespace
        (concat (map (\<lambda>kv. fst (psaBaselineStep lMap ([], []) kv)) bMap) @
         concat (map (psaLiveStep bMap []) lMap)),
      psa_Missing = sortSlice lessNamespace
        (concat (map (\<lambda>kv. snd (psaBaselineStep lMap ([], []) kv)) bMap))\<rparr>"
  by (simp add: DiffPSA_maps_def foldl_psaBaselineStep[of lMap "[]" "[]", simplified]
      foldl_psaLiveStep Let_def)

lemma baseline_extra_set:
  "set (fst (psaBaselineStep lMap ([], []) (ns, b))) =
     {\<lparr>de_Namespace = ns, Baseline = Enforce b,
       Live = levelOrEmpty (map_option Enforce (map_of lMap ns)), DriftType = label\<rparr> | label.
        specClassifyPSA (Some (Enforce b)) (map_option Enforce (map_of lMap ns)) =
          Some (BucketExtra, label)}"
  by (auto simp: psaBaselineStep_def classifyPSADirection_def specClassifyPSA_def
      levelOrEmpty_def Let_def split: option.splits)

lemma baseline_missing_set:
  "set (snd (psaBaselineStep lMap ([], []) (ns, b))) =
     {\<lparr>de_Namespace = ns, Baseline = Enforce b,
       Live = levelOrEmpty (map_option Enforce (map_of lMap ns)), DriftType = label\<rparr> | label.
        specClassifyPSA (Some (Enforce b)) (map_option Enforce (map_of lMap ns)) =
          Some (BucketMissing, label)}"
  by (auto simp: psaBaselineStep_def classifyPSADirection_def specClassifyPSA_def
      levelOrEmpty_def Let_def split: option.splits)

lemma live_extra_set:
  "set (psaLiveStep bMap [] (ns, l)) =
     {\<lparr>de_Namespace = ns, Baseline = [], Live = Enforce l, DriftType = label\<rparr> | label.
        map_of bMap ns = None \<and>
        specClassifyPSA None (Some (Enforce l)) = Some (BucketExtra, label)}"
  by (auto simp: psaLiveStep_def specClassifyPSA_def split: option.splits)

lemma specClassifyPSA_Missing_cases:
  "specClassifyPSA B L = Some (BucketMissing, label) \<Longrightarrow> B \<noteq> None"
  by (auto simp: specClassifyPSA_def split: option.splits if_splits)

lemma specClassifyPSA_Extra_cases:
  "specClassifyPSA B L = Some (BucketExtra, label) \<Longrightarrow> L \<noteq> None"
  by (auto simp: specClassifyPSA_def split: option.splits if_splits)

lemma DiffPSA_maps_Missing_set:
  assumes "distinct (map fst bMap)"
  shows "set (psa_Missing (DiffPSA_maps bMap lMap)) =
     specPSAEntries BucketMissing (\<lambda>ns. map_option Enforce (map_of bMap ns))
       (\<lambda>ns. map_option Enforce (map_of lMap ns))"
proof (rule set_eqI)
  fix e
  have "e \<in> set (psa_Missing (DiffPSA_maps bMap lMap)) \<longleftrightarrow>
        (\<exists>ns b. (ns, b) \<in> set bMap \<and> e \<in> set (snd (psaBaselineStep lMap ([], []) (ns, b))))"
    by (auto simp: DiffPSA_maps_eq set_sortSlice)
  also have "\<dots> \<longleftrightarrow> (\<exists>ns b. map_of bMap ns = Some b \<and>
        e \<in> set (snd (psaBaselineStep lMap ([], []) (ns, b))))"
    using assms by simp
  also have "\<dots> \<longleftrightarrow> e \<in> specPSAEntries BucketMissing (\<lambda>ns. map_option Enforce (map_of bMap ns))
       (\<lambda>ns. map_option Enforce (map_of lMap ns))"
  proof
    assume "\<exists>ns b. map_of bMap ns = Some b \<and>
        e \<in> set (snd (psaBaselineStep lMap ([], []) (ns, b)))"
    then show "e \<in> specPSAEntries BucketMissing (\<lambda>ns. map_option Enforce (map_of bMap ns))
       (\<lambda>ns. map_option Enforce (map_of lMap ns))"
      unfolding baseline_missing_set specPSAEntries_def
      by (auto simp: levelOrEmpty_def)
  next
    assume "e \<in> specPSAEntries BucketMissing (\<lambda>ns. map_option Enforce (map_of bMap ns))
       (\<lambda>ns. map_option Enforce (map_of lMap ns))"
    then obtain ns label where e: "e = \<lparr>de_Namespace = ns,
        Baseline = levelOrEmpty (map_option Enforce (map_of bMap ns)),
        Live = levelOrEmpty (map_option Enforce (map_of lMap ns)), DriftType = label\<rparr>"
      and c: "specClassifyPSA (map_option Enforce (map_of bMap ns))
        (map_option Enforce (map_of lMap ns)) = Some (BucketMissing, label)"
      unfolding specPSAEntries_def by blast
    from c obtain b where b: "map_of bMap ns = Some b"
      using specClassifyPSA_Missing_cases by fastforce
    with e c have "e \<in> set (snd (psaBaselineStep lMap ([], []) (ns, b)))"
      unfolding baseline_missing_set by (simp add: levelOrEmpty_def)
    with b show "\<exists>ns b. map_of bMap ns = Some b \<and>
        e \<in> set (snd (psaBaselineStep lMap ([], []) (ns, b)))" by blast
  qed
  finally show "e \<in> set (psa_Missing (DiffPSA_maps bMap lMap)) \<longleftrightarrow>
     e \<in> specPSAEntries BucketMissing (\<lambda>ns. map_option Enforce (map_of bMap ns))
       (\<lambda>ns. map_option Enforce (map_of lMap ns))" .
qed

lemma DiffPSA_maps_Extra_set:
  assumes "distinct (map fst bMap)" and "distinct (map fst lMap)"
  shows "set (psa_Extra (DiffPSA_maps bMap lMap)) =
     specPSAEntries BucketExtra (\<lambda>ns. map_option Enforce (map_of bMap ns))
       (\<lambda>ns. map_option Enforce (map_of lMap ns))"
proof (rule set_eqI)
  fix e
  let ?R = "specPSAEntries BucketExtra (\<lambda>ns. map_option Enforce (map_of bMap ns))
       (\<lambda>ns. map_option Enforce (map_of lMap ns))"
  have "e \<in> set (psa_Extra (DiffPSA_maps bMap lMap)) \<longleftrightarrow>
        (\<exists>ns b. (ns, b) \<in> set bMap \<and> e \<in> set (fst (psaBaselineStep lMap ([], []) (ns, b)))) \<or>
        (\<exists>ns l. (ns, l) \<in> set lMap \<and> e \<in> set (psaLiveStep bMap [] (ns, l)))"
    by (auto simp: DiffPSA_maps_eq set_sortSlice)
  also have "\<dots> \<longleftrightarrow>
        (\<exists>ns b. map_of bMap ns = Some b \<and> e \<in> set (fst (psaBaselineStep lMap ([], []) (ns, b)))) \<or>
        (\<exists>ns l. map_of lMap ns = Some l \<and> e \<in> set (psaLiveStep bMap [] (ns, l)))"
    using assms by simp
  also have "\<dots> \<longleftrightarrow> e \<in> ?R"
  proof
    assume "(\<exists>ns b. map_of bMap ns = Some b \<and> e \<in> set (fst (psaBaselineStep lMap ([], []) (ns, b)))) \<or>
        (\<exists>ns l. map_of lMap ns = Some l \<and> e \<in> set (psaLiveStep bMap [] (ns, l)))"
    then show "e \<in> ?R"
      unfolding baseline_extra_set live_extra_set specPSAEntries_def
      by (auto simp: levelOrEmpty_def)
  next
    assume "e \<in> ?R"
    then obtain ns label where e: "e = \<lparr>de_Namespace = ns,
        Baseline = levelOrEmpty (map_option Enforce (map_of bMap ns)),
        Live = levelOrEmpty (map_option Enforce (map_of lMap ns)), DriftType = label\<rparr>"
      and c: "specClassifyPSA (map_option Enforce (map_of bMap ns))
        (map_option Enforce (map_of lMap ns)) = Some (BucketExtra, label)"
      unfolding specPSAEntries_def by blast
    from c obtain l where l: "map_of lMap ns = Some l"
      using specClassifyPSA_Extra_cases by fastforce
    show "(\<exists>ns b. map_of bMap ns = Some b \<and> e \<in> set (fst (psaBaselineStep lMap ([], []) (ns, b)))) \<or>
        (\<exists>ns l. map_of lMap ns = Some l \<and> e \<in> set (psaLiveStep bMap [] (ns, l)))"
    proof (cases "map_of bMap ns")
      case None
      with e c l have "e \<in> set (psaLiveStep bMap [] (ns, l))"
        unfolding live_extra_set by (simp add: levelOrEmpty_def)
      with l show ?thesis by blast
    next
      case (Some b)
      with e c l have "e \<in> set (fst (psaBaselineStep lMap ([], []) (ns, b)))"
        unfolding baseline_extra_set by (simp add: levelOrEmpty_def)
      with Some show ?thesis by blast
    qed
  qed
  finally show "e \<in> set (psa_Extra (DiffPSA_maps bMap lMap)) \<longleftrightarrow> e \<in> ?R" .
qed

lemma find_snoc:
  "List.find P (xs @ [y]) =
     (case List.find P xs of None \<Rightarrow> (if P y then Some y else None) | Some x \<Rightarrow> Some x)"
  by (induction xs) simp_all

lemma distinct_foldl_update:
  "distinct (map fst m) \<Longrightarrow> distinct (map fst (foldl (\<lambda>m x. AList.update (k x) (v x) m) m xs))"
  by (induction xs arbitrary: m) (simp_all add: AList.distinct_update)

lemma map_of_foldl_update:
  "map_of (foldl (\<lambda>m x. AList.update (k x) (v x) m) m xs) key =
     (case List.find (\<lambda>x. k x = key) (rev xs) of
        None \<Rightarrow> map_of m key
      | Some x \<Rightarrow> Some (v x))"
proof (induction xs arbitrary: m)
  case Nil
  show ?case by simp
next
  case (Cons x xs)
  show ?case
    by (simp add: Cons.IH find_snoc AList.update_conv' split: option.splits)
qed

lemma distinct_psaIndex: "distinct (map fst (psaIndex xs))"
  unfolding psaIndex_def by (rule distinct_foldl_update) simp

lemma map_of_psaIndex:
  "map_of (psaIndex xs) ns = List.find (\<lambda>x. psa_Namespace x = ns) (rev xs)"
  unfolding psaIndex_def
  by (simp add: map_of_foldl_update[where v = "\<lambda>x. x"] split: option.splits)

lemma enforceIn_psaIndex: "map_option Enforce (map_of (psaIndex xs) ns) = enforceIn xs ns"
  by (simp add: map_of_psaIndex enforceIn_def)

lemma sorted_lessNamespace: "sorted (map de_Namespace (sortSlice lessNamespace xs))"
  by (rule sorted_sortSlice) (simp add: lessNamespace_def)

lemma DiffPSA_Extra_set:
  "set (psa_Extra (DiffPSA baseline live)) =
     specPSAEntries BucketExtra (enforceIn baseline) (enforceIn live)"
  unfolding DiffPSA_def
  by (simp add: DiffPSA_maps_Extra_set distinct_psaIndex enforceIn_psaIndex)

lemma DiffPSA_Missing_set:
  "set (psa_Missing (DiffPSA baseline live)) =
     specPSAEntries BucketMissing (enforceIn baseline) (enforceIn live)"
  unfolding DiffPSA_def
  by (simp add: DiffPSA_maps_Missing_set distinct_psaIndex enforceIn_psaIndex)

text \<open>
  Claim C4. The entries of the Extra bucket of \<open>DiffPSA\<close> are exactly the entries that
  \<open>specClassifyPSA\<close> (weaker and different for a namespace in both collections with differing
  enforce values, by rank; extra for a namespace in live only) sends to Extra, the entries of
  the Missing bucket exactly those it sends to Missing (stronger; missing for a namespace in
  baseline only); a namespace with equal enforce values on both sides has no entry; each entry
  carries its namespace and the two enforce levels, and both lists are sorted by namespace.
\<close>

theorem DiffPSA_classification:
  "set (psa_Extra (DiffPSA baseline live)) =
     specPSAEntries BucketExtra (enforceIn baseline) (enforceIn live) \<and>
   set (psa_Missing (DiffPSA baseline live)) =
     specPSAEntries BucketMissing (enforceIn baseline) (enforceIn live) \<and>
   sorted (map de_Namespace (psa_Extra (DiffPSA baseline live))) \<and>
   sorted (map de_Namespace (psa_Missing (DiffPSA baseline live)))"
proof (intro conjI)
  show "set (psa_Extra (DiffPSA baseline live)) =
     specPSAEntries BucketExtra (enforceIn baseline) (enforceIn live)"
    by (rule DiffPSA_Extra_set)
  show "set (psa_Missing (DiffPSA baseline live)) =
     specPSAEntries BucketMissing (enforceIn baseline) (enforceIn live)"
    by (rule DiffPSA_Missing_set)
  show "sorted (map de_Namespace (psa_Extra (DiffPSA baseline live)))"
    by (simp add: DiffPSA_def DiffPSA_maps_eq sorted_lessNamespace)
  show "sorted (map de_Namespace (psa_Missing (DiffPSA baseline live)))"
    by (simp add: DiffPSA_def DiffPSA_maps_eq sorted_lessNamespace)
qed

subsection \<open>Unknown levels in the two PSA differs\<close>

lemma flat_baseline_entry:
  "map_of lMap ns = Some l \<Longrightarrow> Enforce b \<noteq> Enforce l \<Longrightarrow>
   psaFlatBaselineStep lMap [] (ns, b) =
     [\<lparr>de_Namespace = ns, Baseline = Enforce b, Live = Enforce l,
       DriftType = classifyPSADrift (Enforce b) (Enforce l)\<rparr>]"
  by (simp add: psaFlatBaselineStep_def)

lemma psaFlatBaselineStep_acc:
  "psaFlatBaselineStep lMap e kv = e @ psaFlatBaselineStep lMap [] kv"
  by (auto simp: psaFlatBaselineStep_def split: option.splits prod.splits)

lemma foldl_psaFlatBaselineStep:
  "foldl (psaFlatBaselineStep lMap) e bMap = e @ concat (map (psaFlatBaselineStep lMap []) bMap)"
proof (induction bMap arbitrary: e)
  case Nil
  show ?case by simp
next
  case (Cons kv bMap)
  show ?case
    by (simp only: foldl_Cons psaFlatBaselineStep_acc[of lMap e kv] Cons.IH) simp
qed

lemma DiffPSA_flat_maps_both:
  assumes "map_of bMap ns = Some b" and "map_of lMap ns = Some l" and "Enforce b \<noteq> Enforce l"
  shows "\<lparr>de_Namespace = ns, Baseline = Enforce b, Live = Enforce l,
       DriftType = classifyPSADrift (Enforce b) (Enforce l)\<rparr> \<in> set (DiffPSA_flat_maps bMap lMap)"
proof -
  have "(ns, b) \<in> set bMap" using assms(1) by (rule map_of_SomeD)
  then have "\<exists>kv\<in>set bMap. \<lparr>de_Namespace = ns, Baseline = Enforce b, Live = Enforce l,
       DriftType = classifyPSADrift (Enforce b) (Enforce l)\<rparr> \<in> set (psaFlatBaselineStep lMap [] kv)"
    using flat_baseline_entry[OF assms(2,3)] by (intro bexI[of _ "(ns, b)"]) simp_all
  then show ?thesis
    by (simp add: DiffPSA_flat_maps_def Let_def set_sortSlice foldl_psaFlatBaselineStep
        foldl_psaLiveStep)
qed

lemma psaRank_known: "lv \<in> knownPSALevels \<Longrightarrow> 1 \<le> psaRank lv"
  by (auto simp: knownPSALevels_def psaRank_def PSALevelPrivileged_def PSALevelBaseline_def
      PSALevelRestricted_def)

lemma psaRank_unknown: "lv \<notin> knownPSALevels \<Longrightarrow> psaRank lv = 0"
  by (auto simp: knownPSALevels_def psaRank_def)

lemma psaOrder_known: "lv \<in> knownPSALevels \<Longrightarrow> map_of psaOrder lv = Some (psaRank lv)"
  by (auto simp: knownPSALevels_def psaRank_def psaOrder_def PSALevelPrivileged_def PSALevelBaseline_def
      PSALevelRestricted_def)

lemma psaOrder_unknown: "lv \<notin> knownPSALevels \<Longrightarrow> map_of psaOrder lv = None"
  by (auto simp: knownPSALevels_def psaOrder_def)

text \<open>
  Claim C5, as amended. \<open>psaRank\<close> is total: privileged is 1, baseline 2, restricted 3, and every
  other level, the empty one included, is 0. For a namespace that both collections hold, with a
  known baseline level and an empty or unknown live level, the bucketed differ \<open>DiffPSA\<close>
  reports the entry as weaker, in Extra, and not as different; the flat differ of
  diff/psa\_diff.go reports the same namespace as different.
\<close>

theorem psa_unknown_live_level:
  assumes B: "enforceIn baseline ns = Some b" and L: "enforceIn live ns = Some l"
    and b: "b \<in> knownPSALevels" and l: "l \<notin> knownPSALevels"
  shows "psaRank PSALevelPrivileged = 1 \<and> psaRank PSALevelBaseline = 2 \<and>
         psaRank PSALevelRestricted = 3 \<and> psaRank l = 0 \<and> psaRank l < psaRank b \<and>
         \<lparr>de_Namespace = ns, Baseline = b, Live = l, DriftType = ''weaker''\<rparr>
            \<in> set (psa_Extra (DiffPSA baseline live)) \<and>
         \<lparr>de_Namespace = ns, Baseline = b, Live = l, DriftType = ''different''\<rparr>
            \<notin> set (psa_Extra (DiffPSA baseline live)) \<and>
         \<lparr>de_Namespace = ns, Baseline = b, Live = l, DriftType = ''different''\<rparr>
            \<in> set (DiffPSA_flat baseline live)"
proof -
  have r: "psaRank l = 0" using l by (rule psaRank_unknown)
  have rb: "1 \<le> psaRank b" using b by (rule psaRank_known)
  have ne: "b \<noteq> l" using b l by auto
  have c: "specClassifyPSA (Some b) (Some l) = Some (BucketExtra, ''weaker'')"
    using r rb ne by (simp add: specClassifyPSA_def)
  have ex: "set (psa_Extra (DiffPSA baseline live)) =
     specPSAEntries BucketExtra (enforceIn baseline) (enforceIn live)"
    by (rule DiffPSA_Extra_set)
  have w: "\<lparr>de_Namespace = ns, Baseline = b, Live = l, DriftType = ''weaker''\<rparr>
            \<in> set (psa_Extra (DiffPSA baseline live))"
    unfolding ex specPSAEntries_def using B L c by (auto simp: levelOrEmpty_def)
  have nd: "\<lparr>de_Namespace = ns, Baseline = b, Live = l, DriftType = ''different''\<rparr>
            \<notin> set (psa_Extra (DiffPSA baseline live))"
    unfolding ex specPSAEntries_def using B L c by (auto simp: levelOrEmpty_def)
  obtain bx where bx: "map_of (psaIndex baseline) ns = Some bx" and bxe: "Enforce bx = b"
    using B enforceIn_psaIndex[of baseline ns] by (auto simp: map_option_case split: option.splits)
  obtain lx where lx: "map_of (psaIndex live) ns = Some lx" and lxe: "Enforce lx = l"
    using L enforceIn_psaIndex[of live ns] by (auto simp: map_option_case split: option.splits)
  have cd: "classifyPSADrift b l = ''different''"
    using psaOrder_unknown[OF l] by (simp add: classifyPSADrift_def Let_def)
  have f: "\<lparr>de_Namespace = ns, Baseline = b, Live = l, DriftType = ''different''\<rparr>
            \<in> set (DiffPSA_flat baseline live)"
    using DiffPSA_flat_maps_both[OF bx lx] ne bxe lxe cd by (simp add: DiffPSA_flat_def)
  show ?thesis
    using r rb w nd f
    by (simp add: psaRank_def PSALevelPrivileged_def PSALevelBaseline_def PSALevelRestricted_def)
qed

theorem psa_unknown_live_level_witness:
  "enforceIn [\<lparr>psa_Namespace = ''ns1'', Enforce = ''restricted'', Audit = [], Warn = []\<rparr>] ''ns1''
     = Some ''restricted'' \<and>
   enforceIn [\<lparr>psa_Namespace = ''ns1'', Enforce = [], Audit = [], Warn = []\<rparr>] ''ns1'' = Some [] \<and>
   ''restricted'' \<in> knownPSALevels \<and> [] \<notin> knownPSALevels \<and>
   \<lparr>de_Namespace = ''ns1'', Baseline = ''restricted'', Live = [], DriftType = ''weaker''\<rparr>
     \<in> set (psa_Extra (DiffPSA
         [\<lparr>psa_Namespace = ''ns1'', Enforce = ''restricted'', Audit = [], Warn = []\<rparr>]
         [\<lparr>psa_Namespace = ''ns1'', Enforce = [], Audit = [], Warn = []\<rparr>])) \<and>
   \<lparr>de_Namespace = ''ns1'', Baseline = ''restricted'', Live = [], DriftType = ''different''\<rparr>
     \<in> set (DiffPSA_flat
         [\<lparr>psa_Namespace = ''ns1'', Enforce = ''restricted'', Audit = [], Warn = []\<rparr>]
         [\<lparr>psa_Namespace = ''ns1'', Enforce = [], Audit = [], Warn = []\<rparr>])"
proof -
  have h1: "enforceIn [\<lparr>psa_Namespace = ''ns1'', Enforce = ''restricted'', Audit = [],
      Warn = []\<rparr>] ''ns1'' = Some ''restricted''"
    by (simp add: enforceIn_def)
  have h2: "enforceIn [\<lparr>psa_Namespace = ''ns1'', Enforce = [], Audit = [], Warn = []\<rparr>] ''ns1''
      = Some []"
    by (simp add: enforceIn_def)
  have h3: "''restricted'' \<in> knownPSALevels"
    by (simp add: knownPSALevels_def PSALevelRestricted_def)
  have h4: "[] \<notin> knownPSALevels"
    by (simp add: knownPSALevels_def PSALevelPrivileged_def PSALevelBaseline_def
        PSALevelRestricted_def)
  from psa_unknown_live_level [OF h1 h2 h3 h4] h1 h2 h3 h4 show ?thesis by blast
qed

text \<open>The flat differ at baseline restricted, live without an enforce label: the entry is
  different, not weaker.\<close>

theorem flat_differ_unknown_live_counterexample:
  "\<not> (classifyPSADrift ''restricted'' [] = ''weaker'') \<and>
   DiffPSA_flat
     [\<lparr>psa_Namespace = ''ns1'', Enforce = ''restricted'', Audit = [], Warn = []\<rparr>]
     [\<lparr>psa_Namespace = ''ns1'', Enforce = [], Audit = [], Warn = []\<rparr>] =
     [\<lparr>de_Namespace = ''ns1'', Baseline = ''restricted'', Live = [], DriftType = ''different''\<rparr>]"
  by (simp add: classifyPSADrift_def psaOrder_def PSALevelPrivileged_def PSALevelBaseline_def
      PSALevelRestricted_def DiffPSA_flat_def DiffPSA_flat_maps_def psaIndex_def
      psaFlatBaselineStep_def psaLiveStep_def sortSlice_def)

subsection \<open>The RBAC rule expander\<close>

lemma foldl_append_concat: "foldl (\<lambda>out x. out @ f x) out xs = out @ concat (map f xs)"
  by (induction xs arbitrary: out) simp_all

lemma expandRule_spec:
  "expandRule ns cs out rule = out @ specExpandRule ns cs rule"
  by (simp add: expandRule_def specExpandRule_def Let_def foldl_append_concat)

lemma foldl_expandRule:
  "foldl (expandRule ns cs) out rules = out @ concat (map (specExpandRule ns cs) rules)"
  by (induction rules arbitrary: out) (simp_all add: expandRule_spec)

lemma Expand_concat:
  "ExpandPolicyRulesToPermissions rules ns cs = concat (map (specExpandRule ns cs) rules)"
  by (simp add: ExpandPolicyRulesToPermissions_def foldl_expandRule)

lemma length_concat_const:
  "length (concat (map (\<lambda>x. f x) xs)) = sum_list (map (\<lambda>x. length (f x)) xs)"
  by (simp add: length_concat comp_def)

lemma sum_list_const: "sum_list (map (\<lambda>x. (c::nat)) xs) = length xs * c"
  by (induction xs) simp_all

lemma length_specExpandRule:
  "length (specExpandRule ns cs rule) =
     (if NonResourceURLs rule \<noteq> [] then length (Verbs rule) * length (NonResourceURLs rule)
      else length (Verbs rule) *
           length (if APIGroups rule = [] then [[]] else APIGroups rule) *
           length (if Resources rule = [] then [[]] else Resources rule) *
           length (if ResourceNames rule = [] then [''*''] else ResourceNames rule))"
  by (simp add: specExpandRule_def length_concat_const sum_list_const)

text \<open>
  Claim C2. \<open>ExpandPolicyRulesToPermissions\<close> returns, rule after rule, what \<open>specExpandRule\<close>
  lists: for a rule without non-resource URLs one permission per combination of verb, API group,
  resource and resource name, where an empty list of groups or resources stands for the single
  empty string and an empty list of names for the single name *, scoped * for a cluster-wide
  binding and to the binding's namespace otherwise; for a rule with non-resource URLs one
  permission per verb and URL, scoped *, with no other field set. The number of permissions of a
  rule is the product of the lengths, and a rule without verbs gives none.
\<close>

theorem ExpandPolicyRulesToPermissions_product:
  "ExpandPolicyRulesToPermissions rules ns cs = concat (map (specExpandRule ns cs) rules) \<and>
   length (ExpandPolicyRulesToPermissions [rule] ns cs) =
     (if NonResourceURLs rule \<noteq> [] then length (Verbs rule) * length (NonResourceURLs rule)
      else length (Verbs rule) *
           length (if APIGroups rule = [] then [[]] else APIGroups rule) *
           length (if Resources rule = [] then [[]] else Resources rule) *
           length (if ResourceNames rule = [] then [''*''] else ResourceNames rule)) \<and>
   (Verbs rule0 = [] \<longrightarrow> ExpandPolicyRulesToPermissions [rule0] ns cs = [])"
proof (intro conjI impI)
  show "ExpandPolicyRulesToPermissions rules ns cs = concat (map (specExpandRule ns cs) rules)"
    by (rule Expand_concat)
  show "length (ExpandPolicyRulesToPermissions [rule] ns cs) =
     (if NonResourceURLs rule \<noteq> [] then length (Verbs rule) * length (NonResourceURLs rule)
      else length (Verbs rule) *
           length (if APIGroups rule = [] then [[]] else APIGroups rule) *
           length (if Resources rule = [] then [[]] else Resources rule) *
           length (if ResourceNames rule = [] then [''*''] else ResourceNames rule))"
    by (simp only: Expand_concat list.map concat.simps append_Nil2 length_specExpandRule)
  assume "Verbs rule0 = []"
  then show "ExpandPolicyRulesToPermissions [rule0] ns cs = []"
    by (simp add: Expand_concat specExpandRule_def)
qed

theorem ExpandPolicyRulesToPermissions_product_witness:
  "ExpandPolicyRulesToPermissions
     [\<lparr>Verbs = [''get'', ''list''], APIGroups = [''apps''],
       Resources = [''pods'', ''deployments''], ResourceNames = [''web''], NonResourceURLs = []\<rparr>]
     ''ns1'' False =
     [\<lparr>ScopeNamespace = ''ns1'', APIGroup = ''apps'', Resource = ''pods'', ResourceName = ''web'',
        Verb = ''get'', NonResourceURL = []\<rparr>,
      \<lparr>ScopeNamespace = ''ns1'', APIGroup = ''apps'', Resource = ''deployments'',
        ResourceName = ''web'', Verb = ''get'', NonResourceURL = []\<rparr>,
      \<lparr>ScopeNamespace = ''ns1'', APIGroup = ''apps'', Resource = ''pods'', ResourceName = ''web'',
        Verb = ''list'', NonResourceURL = []\<rparr>,
      \<lparr>ScopeNamespace = ''ns1'', APIGroup = ''apps'', Resource = ''deployments'',
        ResourceName = ''web'', Verb = ''list'', NonResourceURL = []\<rparr>] \<and>
   length (ExpandPolicyRulesToPermissions
     [\<lparr>Verbs = [''get'', ''list''], APIGroups = [''apps''],
       Resources = [''pods'', ''deployments''], ResourceNames = [''web''], NonResourceURLs = []\<rparr>]
     ''ns1'' False) = 4 \<and>
   Verbs \<lparr>Verbs = [], APIGroups = [''apps''], Resources = [''pods''], ResourceNames = [],
          NonResourceURLs = [''/healthz'']\<rparr> = [] \<and>
   ExpandPolicyRulesToPermissions
     [\<lparr>Verbs = [], APIGroups = [''apps''], Resources = [''pods''], ResourceNames = [],
       NonResourceURLs = [''/healthz'']\<rparr>] ''ns1'' False = []"
  using ExpandPolicyRulesToPermissions_product
    [of "[\<lparr>Verbs = [''get'', ''list''], APIGroups = [''apps''],
       Resources = [''pods'', ''deployments''], ResourceNames = [''web''], NonResourceURLs = []\<rparr>]"
      "''ns1''" False
      "\<lparr>Verbs = [''get'', ''list''], APIGroups = [''apps''],
       Resources = [''pods'', ''deployments''], ResourceNames = [''web''], NonResourceURLs = []\<rparr>"
      "\<lparr>Verbs = [], APIGroups = [''apps''], Resources = [''pods''], ResourceNames = [],
       NonResourceURLs = [''/healthz'']\<rparr>"]
  by (simp add: specExpandRule_def)

subsection \<open>AddPermissions\<close>

lemma set_update_subset: "set (AList.update k v al) \<subseteq> insert (k, v) (set al)"
  by (induction al) auto

lemma update_in_set: "(k, v) \<in> set (AList.update k v al)"
  by (induction al) auto

lemma update_unit_present: "k \<in> fst ` set al \<Longrightarrow> AList.update k () al = al"
  by (induction al) auto

lemma keys_update: "fst ` set (AList.update k v al) = insert k (fst ` set al)"
  by (induction al) auto

lemma keys_storeAll:
  "fst ` set (foldl (\<lambda>m p. AList.update p () m) m ps) = fst ` set m \<union> set ps"
proof (induction ps arbitrary: m)
  case Nil
  show ?case by simp
next
  case (Cons p ps)
  show ?case by (simp add: Cons.IH keys_update)
qed

lemma distinct_storeAll:
  "distinct (map fst m) \<Longrightarrow> distinct (map fst (foldl (\<lambda>m p. AList.update p () m) m ps))"
  by (induction ps arbitrary: m) (simp_all add: AList.distinct_update)

lemma storeAll_present:
  "set ps \<subseteq> fst ` set m \<Longrightarrow> foldl (\<lambda>m p. AList.update p () m) m ps = m"
  by (induction ps arbitrary: m) (simp_all add: update_unit_present)

lemma storeAll_idem:
  "foldl (\<lambda>m p. AList.update p () m) (foldl (\<lambda>m p. AList.update p () m) m ps) ps =
   foldl (\<lambda>m p. AList.update p () m) m ps"
  by (rule storeAll_present) (simp add: keys_storeAll)

lemma update_update_same: "AList.update k v (AList.update k w al) = AList.update k v al"
  by (induction al) auto

lemma AddPermissions_idem:
  "AddPermissions subj perms (AddPermissions subj perms s) = AddPermissions subj perms s"
  by (cases "perms = []")
     (simp_all add: AddPermissions_def Let_def AList.update_conv' storeAll_idem update_update_same)

lemma permsOf_AddPermissions_same:
  "permsOf (AddPermissions subj perms s) subj =
     (if perms = [] then permsOf s subj
      else foldl (\<lambda>m p. AList.update p () m) (permsOf s subj) perms)"
  by (simp add: AddPermissions_def permsOf_def Let_def AList.update_conv' split: option.splits)

lemma permsOf_AddPermissions_other:
  "other \<noteq> subj \<Longrightarrow> permsOf (AddPermissions subj perms s) other = permsOf s other"
  by (simp add: AddPermissions_def permsOf_def Let_def AList.update_conv')

lemma permSetOf_AddPermissions:
  "permSetOf (AddPermissions subj perms s) other =
     (if other = subj then permSetOf s subj \<union> set perms else permSetOf s other)"
  by (auto simp: permSetOf_def permsOf_AddPermissions_same permsOf_AddPermissions_other
      keys_storeAll)

lemma permsOf_distinct:
  "snapshot_distinct s \<Longrightarrow> distinct (map fst (permsOf s subj))"
  by (auto simp: snapshot_distinct_def permsOf_def split: option.splits dest!: map_of_SomeD)

lemma snapshot_distinct_AddPermissions:
  assumes "snapshot_distinct s"
  shows "snapshot_distinct (AddPermissions subj perms s)"
proof (cases "perms = []")
  case True
  with assms show ?thesis by (simp add: AddPermissions_def)
next
  case False
  let ?ps = "foldl (\<lambda>m p. AList.update p () m) (permsOf s subj) perms"
  have S: "Subjects (AddPermissions subj perms s) = AList.update subj ?ps (Subjects s)"
    using False by (simp add: AddPermissions_def permsOf_def Let_def)
  have d: "distinct (map fst ?ps)"
    using permsOf_distinct[OF assms] by (rule distinct_storeAll)
  have "\<forall>kv \<in> set (AList.update subj ?ps (Subjects s)). distinct (map fst (snd kv))"
    using set_update_subset[of subj ?ps "Subjects s"] d assms
    by (auto simp: snapshot_distinct_def)
  moreover have "distinct (map fst (AList.update subj ?ps (Subjects s)))"
    using assms by (simp add: snapshot_distinct_def AList.distinct_update)
  ultimately show ?thesis by (simp add: snapshot_distinct_def S)
qed

text \<open>
  Claim C8. Adding the same permissions to a subject a second time changes nothing; after
  \<open>AddPermissions\<close> the subject's permission set is the union of its former set and the added
  permissions; and a snapshot whose maps hold no key twice, as the empty one, stays so, that is,
  no permission occurs twice in a subject's set.
\<close>

theorem AddPermissions_idempotent_union:
  "AddPermissions subj perms (AddPermissions subj perms s) = AddPermissions subj perms s \<and>
   permSetOf (AddPermissions subj perms s) subj = permSetOf s subj \<union> set perms \<and>
   snapshot_distinct \<lparr>Subjects = []\<rparr> \<and>
   (snapshot_distinct s \<longrightarrow> snapshot_distinct (AddPermissions subj perms s))"
  by (simp add: AddPermissions_idem permSetOf_AddPermissions snapshot_distinct_AddPermissions)
     (simp add: snapshot_distinct_def)

theorem AddPermissions_idempotent_union_witness:
  "snapshot_distinct \<lparr>Subjects = [(\<lparr>sk_Kind = ''User'', sk_Name = ''alice'', sk_Namespace = []\<rparr>,
      [(\<lparr>ScopeNamespace = ''*'', APIGroup = [], Resource = ''pods'', ResourceName = ''*'',
         Verb = ''get'', NonResourceURL = []\<rparr>, ())])]\<rparr> \<and>
   snapshot_distinct (AddPermissions \<lparr>sk_Kind = ''User'', sk_Name = ''alice'', sk_Namespace = []\<rparr>
      [\<lparr>ScopeNamespace = ''*'', APIGroup = [], Resource = ''pods'', ResourceName = ''*'',
         Verb = ''get'', NonResourceURL = []\<rparr>,
       \<lparr>ScopeNamespace = ''*'', APIGroup = [], Resource = ''pods'', ResourceName = ''*'',
         Verb = ''list'', NonResourceURL = []\<rparr>,
       \<lparr>ScopeNamespace = ''*'', APIGroup = [], Resource = ''pods'', ResourceName = ''*'',
         Verb = ''list'', NonResourceURL = []\<rparr>]
      \<lparr>Subjects = [(\<lparr>sk_Kind = ''User'', sk_Name = ''alice'', sk_Namespace = []\<rparr>,
      [(\<lparr>ScopeNamespace = ''*'', APIGroup = [], Resource = ''pods'', ResourceName = ''*'',
         Verb = ''get'', NonResourceURL = []\<rparr>, ())])]\<rparr>)"
proof -
  have h: "snapshot_distinct \<lparr>Subjects = [(\<lparr>sk_Kind = ''User'', sk_Name = ''alice'',
      sk_Namespace = []\<rparr>,
      [(\<lparr>ScopeNamespace = ''*'', APIGroup = [], Resource = ''pods'', ResourceName = ''*'',
         Verb = ''get'', NonResourceURL = []\<rparr>, ())])]\<rparr>"
    by (simp add: snapshot_distinct_def)
  from AddPermissions_idempotent_union h show ?thesis by blast
qed

subsection \<open>No subject with an empty permission set\<close>

lemma storeAll_nonempty: "perms \<noteq> [] \<Longrightarrow> foldl (\<lambda>m p. AList.update p () m) m perms \<noteq> []"
proof -
  assume "perms \<noteq> []"
  then have "fst ` set (foldl (\<lambda>m p. AList.update p () m) m perms) \<noteq> {}"
    by (simp add: keys_storeAll)
  then show ?thesis by auto
qed

lemma snapshot_nonempty_AddPermissions:
  assumes "snapshot_nonempty s"
  shows "snapshot_nonempty (AddPermissions subj perms s)"
proof (cases "perms = []")
  case True
  with assms show ?thesis by (simp add: AddPermissions_def)
next
  case False
  let ?ps = "foldl (\<lambda>m p. AList.update p () m) (permsOf s subj) perms"
  have S: "Subjects (AddPermissions subj perms s) = AList.update subj ?ps (Subjects s)"
    using False by (simp add: AddPermissions_def permsOf_def Let_def)
  have "?ps \<noteq> []" using False by (rule storeAll_nonempty)
  then have "\<forall>kv \<in> set (AList.update subj ?ps (Subjects s)). snd kv \<noteq> []"
    using set_update_subset[of subj ?ps "Subjects s"] assms
    by (auto simp: snapshot_nonempty_def)
  then show ?thesis by (simp add: snapshot_nonempty_def S)
qed

lemma snapshot_nonempty_addAll:
  "snapshot_nonempty s \<Longrightarrow>
   snapshot_nonempty (foldl (\<lambda>s subj. AddPermissions (key subj) perms s) s subjects)"
  by (induction subjects arbitrary: s) (simp_all add: snapshot_nonempty_AddPermissions)

lemma snapshot_nonempty_roleBindingStep:
  "snapshot_nonempty s \<Longrightarrow> snapshot_nonempty (roleBindingStep byKey byName s rb)"
  by (simp add: roleBindingStep_def Let_def snapshot_nonempty_addAll split: option.splits)

lemma snapshot_nonempty_clusterRoleBindingStep:
  "snapshot_nonempty s \<Longrightarrow> snapshot_nonempty (clusterRoleBindingStep byName s crb)"
  by (simp add: clusterRoleBindingStep_def Let_def snapshot_nonempty_addAll)

lemma snapshot_nonempty_build:
  "snapshot_nonempty (buildRBACSnapshot roles clusterRoles roleBindings clusterRoleBindings)"
proof -
  have e: "snapshot_nonempty \<lparr>Subjects = []\<rparr>" by (simp add: snapshot_nonempty_def)
  have r: "snapshot_nonempty (foldl (roleBindingStep byKey byName) s rbs)"
    if "snapshot_nonempty s" for byKey byName s rbs
    using that by (induction rbs arbitrary: s) (simp_all add: snapshot_nonempty_roleBindingStep)
  have c: "snapshot_nonempty (foldl (clusterRoleBindingStep byName) s crbs)"
    if "snapshot_nonempty s" for byName s crbs
    using that
    by (induction crbs arbitrary: s) (simp_all add: snapshot_nonempty_clusterRoleBindingStep)
  show ?thesis
    unfolding buildRBACSnapshot_def Let_def by (intro c r e)
qed

text \<open>
  Claim C10. \<open>AddPermissions\<close> with an empty list returns the snapshot unchanged; it keeps the
  property that every subject of the snapshot has a non-empty permission set, which the empty
  snapshot has and which the snapshot returned by \<open>buildRBACSnapshot\<close> therefore has; and a
  binding whose role reference resolves to no rules, or whose rules expand to no permissions,
  leaves the snapshot as it was.
\<close>

theorem RBACSnapshot_subjects_nonempty:
  "AddPermissions subj [] s = s \<and>
   snapshot_nonempty \<lparr>Subjects = []\<rparr> \<and>
   (snapshot_nonempty s \<longrightarrow> snapshot_nonempty (AddPermissions subj perms s)) \<and>
   snapshot_nonempty (buildRBACSnapshot roles clusterRoles roleBindings clusterRoleBindings) \<and>
   ((case resolveRoleRef byKey byName rb of
       None \<Rightarrow> True
     | Some rules \<Rightarrow>
         rules = [] \<or> ExpandPolicyRulesToPermissions rules (rb_Namespace rb) False = [])
     \<longrightarrow> roleBindingStep byKey byName s rb = s) \<and>
   (rulesAt byName (crb_RoleRef_Name crb) = [] \<or>
    ExpandPolicyRulesToPermissions (rulesAt byName (crb_RoleRef_Name crb)) [] True = []
     \<longrightarrow> clusterRoleBindingStep byName s crb = s)"
proof (intro conjI impI)
  show "AddPermissions subj [] s = s" by (simp add: AddPermissions_def)
  show "snapshot_nonempty \<lparr>Subjects = []\<rparr>" by (simp add: snapshot_nonempty_def)
  show "snapshot_nonempty (AddPermissions subj perms s)" if "snapshot_nonempty s"
    using that by (rule snapshot_nonempty_AddPermissions)
  show "snapshot_nonempty (buildRBACSnapshot roles clusterRoles roleBindings clusterRoleBindings)"
    by (rule snapshot_nonempty_build)
  show "roleBindingStep byKey byName s rb = s"
    if "case resolveRoleRef byKey byName rb of
       None \<Rightarrow> True
     | Some rules \<Rightarrow>
         rules = [] \<or> ExpandPolicyRulesToPermissions rules (rb_Namespace rb) False = []"
    using that by (auto simp: roleBindingStep_def Let_def split: option.splits)
  show "clusterRoleBindingStep byName s crb = s"
    if "rulesAt byName (crb_RoleRef_Name crb) = [] \<or>
    ExpandPolicyRulesToPermissions (rulesAt byName (crb_RoleRef_Name crb)) [] True = []"
    using that by (auto simp: clusterRoleBindingStep_def Let_def)
qed

theorem RBACSnapshot_subjects_nonempty_witness:
  "snapshot_nonempty \<lparr>Subjects = [(\<lparr>sk_Kind = ''User'', sk_Name = ''alice'', sk_Namespace = []\<rparr>,
      [(\<lparr>ScopeNamespace = ''*'', APIGroup = [], Resource = ''pods'', ResourceName = ''*'',
         Verb = ''get'', NonResourceURL = []\<rparr>, ())])]\<rparr> \<and>
   snapshot_nonempty (AddPermissions \<lparr>sk_Kind = ''User'', sk_Name = ''bob'', sk_Namespace = []\<rparr>
      [\<lparr>ScopeNamespace = ''*'', APIGroup = [], Resource = ''pods'', ResourceName = ''*'',
         Verb = ''list'', NonResourceURL = []\<rparr>]
      \<lparr>Subjects = [(\<lparr>sk_Kind = ''User'', sk_Name = ''alice'', sk_Namespace = []\<rparr>,
      [(\<lparr>ScopeNamespace = ''*'', APIGroup = [], Resource = ''pods'', ResourceName = ''*'',
         Verb = ''get'', NonResourceURL = []\<rparr>, ())])]\<rparr>) \<and>
   resolveRoleRef [] [] \<lparr>rb_Namespace = ''ns1'', rb_RoleRef_Kind = ''Role'',
       rb_RoleRef_Name = ''gone'', rb_Subjects = [\<lparr>subj_Kind = ''User'', subj_Name = ''bob'',
       subj_Namespace = []\<rparr>]\<rparr> = Some [] \<and>
   roleBindingStep [] [] \<lparr>Subjects = []\<rparr> \<lparr>rb_Namespace = ''ns1'', rb_RoleRef_Kind = ''Role'',
       rb_RoleRef_Name = ''gone'', rb_Subjects = [\<lparr>subj_Kind = ''User'', subj_Name = ''bob'',
       subj_Namespace = []\<rparr>]\<rparr> = \<lparr>Subjects = []\<rparr> \<and>
   ExpandPolicyRulesToPermissions
     (rulesAt [(''none'', [\<lparr>Verbs = [], APIGroups = [], Resources = [''pods''],
        ResourceNames = [], NonResourceURLs = []\<rparr>])] ''none'') [] True = [] \<and>
   clusterRoleBindingStep
     [(''none'', [\<lparr>Verbs = [], APIGroups = [], Resources = [''pods''],
        ResourceNames = [], NonResourceURLs = []\<rparr>])] \<lparr>Subjects = []\<rparr>
     \<lparr>crb_RoleRef_Name = ''none'', crb_Subjects = [\<lparr>subj_Kind = ''User'', subj_Name = ''bob'',
       subj_Namespace = []\<rparr>]\<rparr> = \<lparr>Subjects = []\<rparr>"
proof -
  let ?s = "\<lparr>Subjects = [(\<lparr>sk_Kind = ''User'', sk_Name = ''alice'', sk_Namespace = []\<rparr>,
      [(\<lparr>ScopeNamespace = ''*'', APIGroup = [], Resource = ''pods'', ResourceName = ''*'',
         Verb = ''get'', NonResourceURL = []\<rparr>, ())])]\<rparr>"
  let ?rb = "\<lparr>rb_Namespace = ''ns1'', rb_RoleRef_Kind = ''Role'',
       rb_RoleRef_Name = ''gone'', rb_Subjects = [\<lparr>subj_Kind = ''User'', subj_Name = ''bob'',
       subj_Namespace = []\<rparr>]\<rparr>"
  let ?byName = "[(''none'', [\<lparr>Verbs = [], APIGroups = [], Resources = [''pods''],
        ResourceNames = [], NonResourceURLs = []\<rparr>])]"
  let ?crb = "\<lparr>crb_RoleRef_Name = ''none'', crb_Subjects = [\<lparr>subj_Kind = ''User'',
       subj_Name = ''bob'', subj_Namespace = []\<rparr>]\<rparr>"
  have h1: "snapshot_nonempty ?s" by (simp add: snapshot_nonempty_def)
  have h2: "resolveRoleRef [] [] ?rb = Some []" by (simp add: resolveRoleRef_def rulesAt_def)
  have h3: "ExpandPolicyRulesToPermissions (rulesAt ?byName ''none'') [] True = []"
    by (simp add: rulesAt_def ExpandPolicyRulesToPermissions_def expandRule_def)
  have t1: "snapshot_nonempty (AddPermissions \<lparr>sk_Kind = ''User'', sk_Name = ''bob'',
      sk_Namespace = []\<rparr>
      [\<lparr>ScopeNamespace = ''*'', APIGroup = [], Resource = ''pods'', ResourceName = ''*'',
         Verb = ''list'', NonResourceURL = []\<rparr>] ?s)"
    using RBACSnapshot_subjects_nonempty [where s = ?s] h1 by blast
  have t2: "roleBindingStep [] [] \<lparr>Subjects = []\<rparr> ?rb = \<lparr>Subjects = []\<rparr>"
    using RBACSnapshot_subjects_nonempty
      [where byKey = "[]" and byName = "[]" and rb = ?rb and s = "\<lparr>Subjects = []\<rparr>"] h2
    by simp
  have t3: "clusterRoleBindingStep ?byName \<lparr>Subjects = []\<rparr> ?crb = \<lparr>Subjects = []\<rparr>"
    using RBACSnapshot_subjects_nonempty
      [where byName = ?byName and crb = ?crb and s = "\<lparr>Subjects = []\<rparr>"] h3
    by simp
  from h1 t1 h2 t2 h3 t3 show ?thesis by blast
qed

subsection \<open>The RBAC differ\<close>

lemma foldl_append_filter:
  "foldl (\<lambda>acc p. if P p then acc @ [p] else acc) acc ps = acc @ filter P ps"
  by (induction ps arbitrary: acc) simp_all

lemma notIn_filter: "notIn xs other = filter (\<lambda>p. map_of other p = None) (map fst xs)"
  by (simp add: notIn_def foldl_append_filter)

lemma set_notIn: "set (notIn xs other) = fst ` set xs - fst ` set other"
  by (auto simp: notIn_filter map_of_eq_None_iff)

lemma notIn_Nil_iff: "notIn xs other = [] \<longleftrightarrow> fst ` set xs - fst ` set other = {}"
  using set_notIn[of xs other] by (metis set_empty)

lemma notIn_empty: "notIn [] other = []"
  by (simp add: notIn_filter)

lemma rbac_Extra_diffSubject:
  "rbac_Extra (diffSubject b l r subj) =
     (if notIn (permsOf l subj) (permsOf b subj) \<noteq> []
      then AList.update subj (notIn (permsOf l subj) (permsOf b subj)) (rbac_Extra r)
      else rbac_Extra r)"
  by (cases "permsOf l subj = []") (simp_all add: diffSubject_def Let_def notIn_empty)

lemma rbac_Missing_diffSubject:
  "rbac_Missing (diffSubject b l r subj) =
     (if notIn (permsOf b subj) (permsOf l subj) \<noteq> []
      then AList.update subj (notIn (permsOf b subj) (permsOf l subj)) (rbac_Missing r)
      else rbac_Missing r)"
  by (cases "permsOf b subj = []") (simp_all add: diffSubject_def Let_def notIn_empty)

lemma map_of_Extra_foldl:
  "map_of (rbac_Extra (foldl (diffSubject b l) r subjects)) s =
     (if s \<in> set subjects \<and> notIn (permsOf l s) (permsOf b s) \<noteq> []
      then Some (notIn (permsOf l s) (permsOf b s))
      else map_of (rbac_Extra r) s)"
proof (induction subjects arbitrary: r)
  case Nil
  show ?case by simp
next
  case (Cons x xs)
  show ?case
    by (simp add: Cons.IH rbac_Extra_diffSubject AList.update_conv')
qed

lemma map_of_Missing_foldl:
  "map_of (rbac_Missing (foldl (diffSubject b l) r subjects)) s =
     (if s \<in> set subjects \<and> notIn (permsOf b s) (permsOf l s) \<noteq> []
      then Some (notIn (permsOf b s) (permsOf l s))
      else map_of (rbac_Missing r) s)"
proof (induction subjects arbitrary: r)
  case Nil
  show ?case by simp
next
  case (Cons x xs)
  show ?case
    by (simp add: Cons.IH rbac_Missing_diffSubject AList.update_conv')
qed

lemma permsOf_absent: "s \<notin> fst ` set (Subjects snap) \<Longrightarrow> permsOf snap s = []"
  by (simp add: permsOf_def map_of_eq_None_iff[THEN iffD2])

lemma keys_allSubjects:
  "set (map fst (allSubjects b l)) = fst ` set (Subjects b) \<union> fst ` set (Subjects l)"
  by (simp add: allSubjects_def keys_storeAll)

lemma map_of_Extra_order:
  "map_of (rbac_Extra (DiffRBAC_order ks b l)) s =
     (if s \<in> set ks \<and> notIn (permsOf l s) (permsOf b s) \<noteq> []
      then Some (notIn (permsOf l s) (permsOf b s)) else None)"
  by (simp add: DiffRBAC_order_def map_of_Extra_foldl)

lemma map_of_Missing_order:
  "map_of (rbac_Missing (DiffRBAC_order ks b l)) s =
     (if s \<in> set ks \<and> notIn (permsOf b s) (permsOf l s) \<noteq> []
      then Some (notIn (permsOf b s) (permsOf l s)) else None)"
  by (simp add: DiffRBAC_order_def map_of_Missing_foldl)

lemma notIn_nonempty_key:
  "notIn (permsOf l s) other \<noteq> [] \<Longrightarrow> s \<in> fst ` set (Subjects l)"
  using permsOf_absent[of s l] notIn_empty by fastforce

lemma map_of_Extra_DiffRBAC:
  "map_of (rbac_Extra (DiffRBAC b l)) s =
     (if notIn (permsOf l s) (permsOf b s) \<noteq> []
      then Some (notIn (permsOf l s) (permsOf b s)) else None)"
  using notIn_nonempty_key[of l s "permsOf b s"]
  by (simp add: DiffRBAC_def map_of_Extra_order keys_allSubjects del: set_map)

lemma map_of_Missing_DiffRBAC:
  "map_of (rbac_Missing (DiffRBAC b l)) s =
     (if notIn (permsOf b s) (permsOf l s) \<noteq> []
      then Some (notIn (permsOf b s) (permsOf l s)) else None)"
  using notIn_nonempty_key[of b s "permsOf l s"]
  by (simp add: DiffRBAC_def map_of_Missing_order keys_allSubjects del: set_map)

lemma Extra_set_DiffRBAC:
  "map_option set (map_of (rbac_Extra (DiffRBAC b l)) s) =
     (if permSetOf l s - permSetOf b s = {} then None
      else Some (permSetOf l s - permSetOf b s))"
  by (simp add: map_of_Extra_DiffRBAC notIn_Nil_iff set_notIn permSetOf_def)

lemma Missing_set_DiffRBAC:
  "map_option set (map_of (rbac_Missing (DiffRBAC b l)) s) =
     (if permSetOf b s - permSetOf l s = {} then None
      else Some (permSetOf b s - permSetOf l s))"
  by (simp add: map_of_Missing_DiffRBAC notIn_Nil_iff set_notIn permSetOf_def)

text \<open>
  Claim C1. For every subject, the list \<open>DiffRBAC\<close> holds for it in Extra has, as a set, the
  permissions of live's set for the subject that baseline's set lacks, and the list in Missing
  those of baseline's set that live's lacks; the subject has no entry on a side on which that
  difference is empty, so that no entry is the empty list.
\<close>

theorem DiffRBAC_set_differences:
  "map_option set (map_of (rbac_Extra (DiffRBAC baseline live)) subj) =
     (if permSetOf live subj - permSetOf baseline subj = {} then None
      else Some (permSetOf live subj - permSetOf baseline subj)) \<and>
   map_option set (map_of (rbac_Missing (DiffRBAC baseline live)) subj) =
     (if permSetOf baseline subj - permSetOf live subj = {} then None
      else Some (permSetOf baseline subj - permSetOf live subj)) \<and>
   map_of (rbac_Extra (DiffRBAC baseline live)) subj \<noteq> Some [] \<and>
   map_of (rbac_Missing (DiffRBAC baseline live)) subj \<noteq> Some []"
proof (intro conjI)
  show "map_option set (map_of (rbac_Extra (DiffRBAC baseline live)) subj) =
     (if permSetOf live subj - permSetOf baseline subj = {} then None
      else Some (permSetOf live subj - permSetOf baseline subj))"
    by (rule Extra_set_DiffRBAC)
  show "map_option set (map_of (rbac_Missing (DiffRBAC baseline live)) subj) =
     (if permSetOf baseline subj - permSetOf live subj = {} then None
      else Some (permSetOf baseline subj - permSetOf live subj))"
    by (rule Missing_set_DiffRBAC)
  show "map_of (rbac_Extra (DiffRBAC baseline live)) subj \<noteq> Some []"
    by (simp add: map_of_Extra_DiffRBAC)
  show "map_of (rbac_Missing (DiffRBAC baseline live)) subj \<noteq> Some []"
    by (simp add: map_of_Missing_DiffRBAC)
qed

text \<open>
  Claim C3. For every subject, what \<open>DiffRBAC A B\<close> holds in Extra and what \<open>DiffRBAC B A\<close>
  holds in Missing are the same set of permissions (or absent together), and likewise Missing of
  the first and Extra of the second.
\<close>

theorem DiffRBAC_symmetry:
  "map_option set (map_of (rbac_Extra (DiffRBAC A B)) subj) =
   map_option set (map_of (rbac_Missing (DiffRBAC B A)) subj) \<and>
   map_option set (map_of (rbac_Missing (DiffRBAC A B)) subj) =
   map_option set (map_of (rbac_Extra (DiffRBAC B A)) subj)"
  by (simp only: Extra_set_DiffRBAC Missing_set_DiffRBAC)

subsection \<open>The NetworkPolicy differ\<close>

lemma netpolStep_Missing:
  "np_Missing (netpolStep b l r key) = np_Missing r @
     (case (map_of (Items b) key, map_of (Items l) key) of
        (Some base, None) \<Rightarrow> [\<lparr>ref_Namespace = d_Namespace base, ref_Name = d_Name base\<rparr>]
      | _ \<Rightarrow> [])"
  by (simp add: netpolStep_def split: option.splits)

lemma netpolStep_Extra:
  "np_Extra (netpolStep b l r key) = np_Extra r @
     (case (map_of (Items b) key, map_of (Items l) key) of
        (None, Some liveItem) \<Rightarrow>
          [\<lparr>ref_Namespace = d_Namespace liveItem, ref_Name = d_Name liveItem\<rparr>]
      | _ \<Rightarrow> [])"
  by (simp add: netpolStep_def split: option.splits)

lemma netpolStep_Changed:
  "np_Changed (netpolStep b l r key) = np_Changed r @
     (case (map_of (Items b) key, map_of (Items l) key) of
        (Some base, Some liveItem) \<Rightarrow>
          if SpecHash base \<noteq> SpecHash liveItem
          then [\<lparr>ch_Namespace = d_Namespace base, ch_Name = d_Name base,
                 ch_Baseline = base, ch_Live = liveItem\<rparr>]
          else []
      | _ \<Rightarrow> [])"
  by (simp add: netpolStep_def split: option.splits)

lemma foldl_netpolStep_Missing:
  "np_Missing (foldl (netpolStep b l) r keys) = np_Missing r @
     concat (map (\<lambda>key. case (map_of (Items b) key, map_of (Items l) key) of
        (Some base, None) \<Rightarrow> [\<lparr>ref_Namespace = d_Namespace base, ref_Name = d_Name base\<rparr>]
      | _ \<Rightarrow> []) keys)"
  by (induction keys arbitrary: r) (simp_all add: netpolStep_Missing)

lemma foldl_netpolStep_Extra:
  "np_Extra (foldl (netpolStep b l) r keys) = np_Extra r @
     concat (map (\<lambda>key. case (map_of (Items b) key, map_of (Items l) key) of
        (None, Some liveItem) \<Rightarrow>
          [\<lparr>ref_Namespace = d_Namespace liveItem, ref_Name = d_Name liveItem\<rparr>]
      | _ \<Rightarrow> []) keys)"
  by (induction keys arbitrary: r) (simp_all add: netpolStep_Extra)

lemma foldl_netpolStep_Changed:
  "np_Changed (foldl (netpolStep b l) r keys) = np_Changed r @
     concat (map (\<lambda>key. case (map_of (Items b) key, map_of (Items l) key) of
        (Some base, Some liveItem) \<Rightarrow>
          if SpecHash base \<noteq> SpecHash liveItem
          then [\<lparr>ch_Namespace = d_Namespace base, ch_Name = d_Name base,
                 ch_Baseline = base, ch_Live = liveItem\<rparr>]
          else []
      | _ \<Rightarrow> []) keys)"
  by (induction keys arbitrary: r) (simp_all add: netpolStep_Changed)

lemma map_concat_keyed:
  "(\<And>k. k \<in> set ks \<Longrightarrow> map g (f k) = (if P k then [k] else [])) \<Longrightarrow>
   map g (concat (map f ks)) = filter P ks"
  by (induction ks) simp_all

lemma wf_netpol_key:
  "wf_netpol snap \<Longrightarrow> map_of (Items snap) key = Some d \<Longrightarrow>
   netpolKey (d_Namespace d) (d_Name d) = key"
  by (auto simp: wf_netpol_def dest!: map_of_SomeD)

lemma distinct_netpolKeys: "distinct (map fst (netpolKeys b l))"
  unfolding netpolKeys_def by (intro distinct_storeAll) simp

lemma set_netpolKeys:
  "set (map fst (netpolKeys b l)) = fst ` set (Items b) \<union> fst ` set (Items l)"
  by (simp add: netpolKeys_def keys_storeAll)

lemma in_netpolKeys:
  "key \<in> set (map fst (netpolKeys b l)) \<longleftrightarrow>
   map_of (Items b) key \<noteq> None \<or> map_of (Items l) key \<noteq> None"
  unfolding set_netpolKeys by (simp add: map_of_eq_None_iff)

lemma Missing_keys_order:
  assumes "wf_netpol b"
  shows "map refKey (np_Missing (foldl (netpolStep b l)
           \<lparr>np_Missing = [], np_Extra = [], np_Changed = []\<rparr> keys)) =
         filter (\<lambda>key. specNetPolBucket (map_of (Items b) key) (map_of (Items l) key)
                        = Some NPMissing) keys"
  unfolding foldl_netpolStep_Missing
  using wf_netpol_key[OF assms]
  by (simp, intro map_concat_keyed)
     (auto simp: specNetPolBucket_def refKey_def split: option.splits)

lemma Extra_keys_order:
  assumes "wf_netpol l"
  shows "map refKey (np_Extra (foldl (netpolStep b l)
           \<lparr>np_Missing = [], np_Extra = [], np_Changed = []\<rparr> keys)) =
         filter (\<lambda>key. specNetPolBucket (map_of (Items b) key) (map_of (Items l) key)
                        = Some NPExtra) keys"
  unfolding foldl_netpolStep_Extra
  using wf_netpol_key[OF assms]
  by (simp, intro map_concat_keyed)
     (auto simp: specNetPolBucket_def refKey_def split: option.splits)

lemma Changed_keys_order:
  assumes "wf_netpol b"
  shows "map changeKey (np_Changed (foldl (netpolStep b l)
           \<lparr>np_Missing = [], np_Extra = [], np_Changed = []\<rparr> keys)) =
         filter (\<lambda>key. specNetPolBucket (map_of (Items b) key) (map_of (Items l) key)
                        = Some NPChanged) keys"
  unfolding foldl_netpolStep_Changed
  using wf_netpol_key[OF assms]
  by (simp, intro map_concat_keyed)
     (auto simp: specNetPolBucket_def changeKey_def split: option.splits)

lemma lessRef_order: "lessRef x y = (refOrder x < refOrder y)"
  by (auto simp: lessRef_def refOrder_def)

lemma lessChange_order: "lessChange x y = (changeOrder x < changeOrder y)"
  by (auto simp: lessChange_def changeOrder_def)

lemma set_map_sortSlice: "set (map g (sortSlice lt xs)) = set (map g xs)"
  by (simp add: set_sortSlice)

lemma specNetPolBucket_in_keys:
  "specNetPolBucket (map_of (Items b) key) (map_of (Items l) key) = Some bk \<Longrightarrow>
   key \<in> set (map fst (netpolKeys b l))"
  unfolding in_netpolKeys by (auto simp: specNetPolBucket_def split: option.splits)

lemma Changed_digests_order:
  assumes "wf_netpol b"
  shows "c \<in> set (np_Changed (foldl (netpolStep b l)
           \<lparr>np_Missing = [], np_Extra = [], np_Changed = []\<rparr> keys)) \<Longrightarrow>
         map_of (Items b) (changeKey c) = Some (ch_Baseline c) \<and>
         map_of (Items l) (changeKey c) = Some (ch_Live c) \<and>
         SpecHash (ch_Baseline c) \<noteq> SpecHash (ch_Live c)"
  unfolding foldl_netpolStep_Changed
  using wf_netpol_key[OF assms]
  by (auto simp: changeKey_def split: option.splits if_splits)

lemma Missing_refs_order:
  assumes r: "r \<in> set (np_Missing (foldl (netpolStep b l)
           \<lparr>np_Missing = [], np_Extra = [], np_Changed = []\<rparr> keys))"
    and wf: "wf_netpol b"
  shows "map_option digestRef (map_of (Items b) (refKey r)) = Some r"
proof -
  from r obtain key where
    rk: "r \<in> set (case (map_of (Items b) key, map_of (Items l) key) of
        (Some base, None) \<Rightarrow> [\<lparr>ref_Namespace = d_Namespace base, ref_Name = d_Name base\<rparr>]
      | _ \<Rightarrow> [])"
    unfolding foldl_netpolStep_Missing by auto
  then obtain base where base: "map_of (Items b) key = Some base" and re: "r = digestRef base"
    by (cases "map_of (Items b) key"; cases "map_of (Items l) key")
       (auto simp: digestRef_def)
  have "refKey r = key"
    using wf_netpol_key[OF wf base] re by (simp add: refKey_def digestRef_def)
  with base re show ?thesis by simp
qed

lemma Extra_refs_order:
  assumes r: "r \<in> set (np_Extra (foldl (netpolStep b l)
           \<lparr>np_Missing = [], np_Extra = [], np_Changed = []\<rparr> keys))"
    and wf: "wf_netpol l"
  shows "map_option digestRef (map_of (Items l) (refKey r)) = Some r"
proof -
  from r obtain key where
    rk: "r \<in> set (case (map_of (Items b) key, map_of (Items l) key) of
        (None, Some liveItem) \<Rightarrow>
          [\<lparr>ref_Namespace = d_Namespace liveItem, ref_Name = d_Name liveItem\<rparr>]
      | _ \<Rightarrow> [])"
    unfolding foldl_netpolStep_Extra by auto
  then obtain d where d: "map_of (Items l) key = Some d" and re: "r = digestRef d"
    by (cases "map_of (Items b) key"; cases "map_of (Items l) key")
       (auto simp: digestRef_def)
  have "refKey r = key"
    using wf_netpol_key[OF wf d] re by (simp add: refKey_def digestRef_def)
  with d re show ?thesis by simp
qed

lemma Changed_names_order:
  "c \<in> set (np_Changed (foldl (netpolStep b l)
           \<lparr>np_Missing = [], np_Extra = [], np_Changed = []\<rparr> keys)) \<Longrightarrow>
   ch_Namespace c = d_Namespace (ch_Baseline c) \<and> ch_Name c = d_Name (ch_Baseline c)"
  unfolding foldl_netpolStep_Changed
  by (auto split: option.splits if_splits)

lemma np_Missing_order:
  "np_Missing (DiffNetworkPolicies_order ks b l) =
     sortSlice lessRef (np_Missing (foldl (netpolStep b l)
        \<lparr>np_Missing = [], np_Extra = [], np_Changed = []\<rparr> ks))"
  by (simp add: DiffNetworkPolicies_order_def Let_def)

lemma np_Extra_order:
  "np_Extra (DiffNetworkPolicies_order ks b l) =
     sortSlice lessRef (np_Extra (foldl (netpolStep b l)
        \<lparr>np_Missing = [], np_Extra = [], np_Changed = []\<rparr> ks))"
  by (simp add: DiffNetworkPolicies_order_def Let_def)

lemma np_Changed_order:
  "np_Changed (DiffNetworkPolicies_order ks b l) =
     sortSlice lessChange (np_Changed (foldl (netpolStep b l)
        \<lparr>np_Missing = [], np_Extra = [], np_Changed = []\<rparr> ks))"
  by (simp add: DiffNetworkPolicies_order_def Let_def)

lemma bucket_in_keys:
  "netpolBucketOf b l key = Some bk \<Longrightarrow> key \<in> set (map fst (netpolKeys b l))"
  unfolding netpolBucketOf_def by (rule specNetPolBucket_in_keys)

lemma Missing_keys:
  assumes "wf_netpol b"
  shows "refKey ` set (np_Missing (DiffNetworkPolicies b l)) =
         {key. netpolBucketOf b l key = Some NPMissing}"
proof -
  have "refKey ` set (np_Missing (DiffNetworkPolicies b l)) =
        set (filter (\<lambda>key. netpolBucketOf b l key = Some NPMissing) (map fst (netpolKeys b l)))"
    unfolding DiffNetworkPolicies_def np_Missing_order netpolBucketOf_def
      Missing_keys_order[OF assms, symmetric]
    by (simp add: set_sortSlice)
  also have "\<dots> = {key. netpolBucketOf b l key = Some NPMissing}"
    using bucket_in_keys[of b l] by auto
  finally show ?thesis .
qed

lemma Extra_keys:
  assumes "wf_netpol l"
  shows "refKey ` set (np_Extra (DiffNetworkPolicies b l)) =
         {key. netpolBucketOf b l key = Some NPExtra}"
proof -
  have "refKey ` set (np_Extra (DiffNetworkPolicies b l)) =
        set (filter (\<lambda>key. netpolBucketOf b l key = Some NPExtra) (map fst (netpolKeys b l)))"
    unfolding DiffNetworkPolicies_def np_Extra_order netpolBucketOf_def
      Extra_keys_order[OF assms, symmetric]
    by (simp add: set_sortSlice)
  also have "\<dots> = {key. netpolBucketOf b l key = Some NPExtra}"
    using bucket_in_keys[of b l] by auto
  finally show ?thesis .
qed

lemma Changed_keys:
  assumes "wf_netpol b"
  shows "changeKey ` set (np_Changed (DiffNetworkPolicies b l)) =
         {key. netpolBucketOf b l key = Some NPChanged}"
proof -
  have "changeKey ` set (np_Changed (DiffNetworkPolicies b l)) =
        set (filter (\<lambda>key. netpolBucketOf b l key = Some NPChanged) (map fst (netpolKeys b l)))"
    unfolding DiffNetworkPolicies_def np_Changed_order netpolBucketOf_def
      Changed_keys_order[OF assms, symmetric]
    by (simp add: set_sortSlice)
  also have "\<dots> = {key. netpolBucketOf b l key = Some NPChanged}"
    using bucket_in_keys[of b l] by auto
  finally show ?thesis .
qed

lemma Missing_distinct:
  assumes "wf_netpol b"
  shows "distinct (map refKey (np_Missing (DiffNetworkPolicies b l)))"
  unfolding DiffNetworkPolicies_def np_Missing_order distinct_map_sortSlice
    Missing_keys_order[OF assms]
  by (rule distinct_filter) (rule distinct_netpolKeys)

lemma Extra_distinct:
  assumes "wf_netpol l"
  shows "distinct (map refKey (np_Extra (DiffNetworkPolicies b l)))"
  unfolding DiffNetworkPolicies_def np_Extra_order distinct_map_sortSlice
    Extra_keys_order[OF assms]
  by (rule distinct_filter) (rule distinct_netpolKeys)

lemma Changed_distinct:
  assumes "wf_netpol b"
  shows "distinct (map changeKey (np_Changed (DiffNetworkPolicies b l)))"
  unfolding DiffNetworkPolicies_def np_Changed_order distinct_map_sortSlice
    Changed_keys_order[OF assms]
  by (rule distinct_filter) (rule distinct_netpolKeys)

lemma Missing_sorted: "sorted (map refOrder (np_Missing (DiffNetworkPolicies b l)))"
  unfolding DiffNetworkPolicies_def np_Missing_order
  by (rule sorted_sortSlice) (rule lessRef_order)

lemma Extra_sorted: "sorted (map refOrder (np_Extra (DiffNetworkPolicies b l)))"
  unfolding DiffNetworkPolicies_def np_Extra_order
  by (rule sorted_sortSlice) (rule lessRef_order)

lemma Changed_sorted: "sorted (map changeOrder (np_Changed (DiffNetworkPolicies b l)))"
  unfolding DiffNetworkPolicies_def np_Changed_order
  by (rule sorted_sortSlice) (rule lessChange_order)

lemma Missing_refs:
  "wf_netpol b \<Longrightarrow> r \<in> set (np_Missing (DiffNetworkPolicies b l)) \<Longrightarrow>
   map_option digestRef (map_of (Items b) (refKey r)) = Some r"
  unfolding DiffNetworkPolicies_def np_Missing_order set_sortSlice
  using Missing_refs_order by blast

lemma Extra_refs:
  "wf_netpol l \<Longrightarrow> r \<in> set (np_Extra (DiffNetworkPolicies b l)) \<Longrightarrow>
   map_option digestRef (map_of (Items l) (refKey r)) = Some r"
  unfolding DiffNetworkPolicies_def np_Extra_order set_sortSlice
  using Extra_refs_order by blast

lemma Changed_digests:
  "wf_netpol b \<Longrightarrow> c \<in> set (np_Changed (DiffNetworkPolicies b l)) \<Longrightarrow>
   map_of (Items b) (changeKey c) = Some (ch_Baseline c) \<and>
   map_of (Items l) (changeKey c) = Some (ch_Live c) \<and>
   SpecHash (ch_Baseline c) \<noteq> SpecHash (ch_Live c) \<and>
   ch_Namespace c = d_Namespace (ch_Baseline c) \<and> ch_Name c = d_Name (ch_Baseline c)"
  unfolding DiffNetworkPolicies_def np_Changed_order set_sortSlice
  using Changed_digests_order Changed_names_order by blast

text \<open>
  Claim C6. For snapshots keyed by namespace/name, the keys of the entries of Missing are
  exactly the keys that only baseline holds, those of Extra the keys that only live holds, those
  of Changed the keys both hold with differing specHash; a key both hold with equal specHash,
  having no bucket, is in none of the lists. An entry names the policy of its key, a Changed
  entry carries the two digests, no key occurs twice in a list or in two lists, and each list
  is sorted by namespace, then name.
\<close>

theorem DiffNetworkPolicies_buckets:
  assumes b: "wf_netpol baseline" and l: "wf_netpol live"
  shows "refKey ` set (np_Missing (DiffNetworkPolicies baseline live)) =
           {key. netpolBucketOf baseline live key = Some NPMissing} \<and>
         refKey ` set (np_Extra (DiffNetworkPolicies baseline live)) =
           {key. netpolBucketOf baseline live key = Some NPExtra} \<and>
         changeKey ` set (np_Changed (DiffNetworkPolicies baseline live)) =
           {key. netpolBucketOf baseline live key = Some NPChanged} \<and>
         (\<forall>r \<in> set (np_Missing (DiffNetworkPolicies baseline live)).
            map_option digestRef (map_of (Items baseline) (refKey r)) = Some r) \<and>
         (\<forall>r \<in> set (np_Extra (DiffNetworkPolicies baseline live)).
            map_option digestRef (map_of (Items live) (refKey r)) = Some r) \<and>
         (\<forall>c \<in> set (np_Changed (DiffNetworkPolicies baseline live)).
            map_of (Items baseline) (changeKey c) = Some (ch_Baseline c) \<and>
            map_of (Items live) (changeKey c) = Some (ch_Live c) \<and>
            SpecHash (ch_Baseline c) \<noteq> SpecHash (ch_Live c) \<and>
            ch_Namespace c = d_Namespace (ch_Baseline c) \<and>
            ch_Name c = d_Name (ch_Baseline c)) \<and>
         distinct (map refKey (np_Missing (DiffNetworkPolicies baseline live))) \<and>
         distinct (map refKey (np_Extra (DiffNetworkPolicies baseline live))) \<and>
         distinct (map changeKey (np_Changed (DiffNetworkPolicies baseline live))) \<and>
         refKey ` set (np_Missing (DiffNetworkPolicies baseline live)) \<inter>
           refKey ` set (np_Extra (DiffNetworkPolicies baseline live)) = {} \<and>
         refKey ` set (np_Missing (DiffNetworkPolicies baseline live)) \<inter>
           changeKey ` set (np_Changed (DiffNetworkPolicies baseline live)) = {} \<and>
         refKey ` set (np_Extra (DiffNetworkPolicies baseline live)) \<inter>
           changeKey ` set (np_Changed (DiffNetworkPolicies baseline live)) = {} \<and>
         sorted (map refOrder (np_Missing (DiffNetworkPolicies baseline live))) \<and>
         sorted (map refOrder (np_Extra (DiffNetworkPolicies baseline live))) \<and>
         sorted (map changeOrder (np_Changed (DiffNetworkPolicies baseline live)))"
proof -
  let ?R = "DiffNetworkPolicies baseline live"
  have k1: "refKey ` set (np_Missing ?R) = {key. netpolBucketOf baseline live key = Some NPMissing}"
    by (rule Missing_keys[OF b])
  have k2: "refKey ` set (np_Extra ?R) = {key. netpolBucketOf baseline live key = Some NPExtra}"
    by (rule Extra_keys[OF l])
  have k3: "changeKey ` set (np_Changed ?R) =
      {key. netpolBucketOf baseline live key = Some NPChanged}"
    by (rule Changed_keys[OF b])
  have r1: "\<forall>r \<in> set (np_Missing ?R).
      map_option digestRef (map_of (Items baseline) (refKey r)) = Some r"
    using Missing_refs[OF b] by blast
  have r2: "\<forall>r \<in> set (np_Extra ?R).
      map_option digestRef (map_of (Items live) (refKey r)) = Some r"
    using Extra_refs[OF l] by blast
  have r3: "\<forall>c \<in> set (np_Changed ?R).
      map_of (Items baseline) (changeKey c) = Some (ch_Baseline c) \<and>
      map_of (Items live) (changeKey c) = Some (ch_Live c) \<and>
      SpecHash (ch_Baseline c) \<noteq> SpecHash (ch_Live c) \<and>
      ch_Namespace c = d_Namespace (ch_Baseline c) \<and>
      ch_Name c = d_Name (ch_Baseline c)"
    using Changed_digests[OF b] by blast
  have d1: "distinct (map refKey (np_Missing ?R))" by (rule Missing_distinct[OF b])
  have d2: "distinct (map refKey (np_Extra ?R))" by (rule Extra_distinct[OF l])
  have d3: "distinct (map changeKey (np_Changed ?R))" by (rule Changed_distinct[OF b])
  have i1: "refKey ` set (np_Missing ?R) \<inter> refKey ` set (np_Extra ?R) = {}"
    unfolding k1 k2 by auto
  have i2: "refKey ` set (np_Missing ?R) \<inter> changeKey ` set (np_Changed ?R) = {}"
    unfolding k1 k3 by auto
  have i3: "refKey ` set (np_Extra ?R) \<inter> changeKey ` set (np_Changed ?R) = {}"
    unfolding k2 k3 by auto
  have s1: "sorted (map refOrder (np_Missing ?R))" by (rule Missing_sorted)
  have s2: "sorted (map refOrder (np_Extra ?R))" by (rule Extra_sorted)
  have s3: "sorted (map changeOrder (np_Changed ?R))" by (rule Changed_sorted)
  from k1 k2 k3 r1 r2 r3 d1 d2 d3 i1 i2 i3 s1 s2 s3 show ?thesis
    by (intro conjI)
qed

theorem DiffNetworkPolicies_buckets_witness:
  "wf_netpol \<lparr>Items = [(''ns1/allow-dns'', \<lparr>d_Namespace = ''ns1'', d_Name = ''allow-dns'',
      SpecHash = ''aa'', PolicyTypes = [], IngressCount = 1, EgressCount = 0\<rparr>)]\<rparr> \<and>
   wf_netpol \<lparr>Items = [(''ns1/web'', \<lparr>d_Namespace = ''ns1'', d_Name = ''web'',
      SpecHash = ''bb'', PolicyTypes = [], IngressCount = 1, EgressCount = 0\<rparr>)]\<rparr> \<and>
   refKey ` set (np_Missing (DiffNetworkPolicies
      \<lparr>Items = [(''ns1/allow-dns'', \<lparr>d_Namespace = ''ns1'', d_Name = ''allow-dns'',
         SpecHash = ''aa'', PolicyTypes = [], IngressCount = 1, EgressCount = 0\<rparr>)]\<rparr>
      \<lparr>Items = [(''ns1/web'', \<lparr>d_Namespace = ''ns1'', d_Name = ''web'',
         SpecHash = ''bb'', PolicyTypes = [], IngressCount = 1, EgressCount = 0\<rparr>)]\<rparr>)) =
     {key. netpolBucketOf
        \<lparr>Items = [(''ns1/allow-dns'', \<lparr>d_Namespace = ''ns1'', d_Name = ''allow-dns'',
           SpecHash = ''aa'', PolicyTypes = [], IngressCount = 1, EgressCount = 0\<rparr>)]\<rparr>
        \<lparr>Items = [(''ns1/web'', \<lparr>d_Namespace = ''ns1'', d_Name = ''web'',
           SpecHash = ''bb'', PolicyTypes = [], IngressCount = 1, EgressCount = 0\<rparr>)]\<rparr> key
        = Some NPMissing} \<and>
   DiffNetworkPolicies
      \<lparr>Items = [(''ns1/allow-dns'', \<lparr>d_Namespace = ''ns1'', d_Name = ''allow-dns'',
         SpecHash = ''aa'', PolicyTypes = [], IngressCount = 1, EgressCount = 0\<rparr>)]\<rparr>
      \<lparr>Items = [(''ns1/web'', \<lparr>d_Namespace = ''ns1'', d_Name = ''web'',
         SpecHash = ''bb'', PolicyTypes = [], IngressCount = 1, EgressCount = 0\<rparr>)]\<rparr> =
     \<lparr>np_Missing = [\<lparr>ref_Namespace = ''ns1'', ref_Name = ''allow-dns''\<rparr>],
      np_Extra = [\<lparr>ref_Namespace = ''ns1'', ref_Name = ''web''\<rparr>],
      np_Changed = []\<rparr>"
proof -
  let ?B = "\<lparr>Items = [(''ns1/allow-dns'', \<lparr>d_Namespace = ''ns1'', d_Name = ''allow-dns'',
      SpecHash = ''aa'', PolicyTypes = [], IngressCount = 1, EgressCount = 0\<rparr>)]\<rparr>"
  let ?L = "\<lparr>Items = [(''ns1/web'', \<lparr>d_Namespace = ''ns1'', d_Name = ''web'',
      SpecHash = ''bb'', PolicyTypes = [], IngressCount = 1, EgressCount = 0\<rparr>)]\<rparr>"
  have h1: "wf_netpol ?B" by (simp add: wf_netpol_def netpolKey_def)
  have h2: "wf_netpol ?L" by (simp add: wf_netpol_def netpolKey_def)
  have e: "DiffNetworkPolicies ?B ?L =
     \<lparr>np_Missing = [\<lparr>ref_Namespace = ''ns1'', ref_Name = ''allow-dns''\<rparr>],
      np_Extra = [\<lparr>ref_Namespace = ''ns1'', ref_Name = ''web''\<rparr>],
      np_Changed = []\<rparr>"
    by (simp add: DiffNetworkPolicies_def DiffNetworkPolicies_order_def netpolKeys_def
        netpolStep_def sortSlice_def)
  from DiffNetworkPolicies_buckets [OF h1 h2] h1 h2 e show ?thesis by (intro conjI) (simp_all only:)
qed

subsection \<open>NetworkPolicy digests\<close>

lemma NewNetPolDigest_Inl:
  "NewNetPolDigest marshal sum256 np = Inl err \<longleftrightarrow>
     (\<exists>e. marshal (np_Spec np) = Inl e \<and> err = MarshalSpecError e)"
  by (auto simp: NewNetPolDigest_def Let_def split: sum.splits)

lemma NewNetPolDigest_Inr:
  "marshal (np_Spec np) = Inr specBytes \<Longrightarrow>
   NewNetPolDigest marshal sum256 np =
     Inr \<lparr>d_Namespace = np_Namespace np, d_Name = np_Name np,
          SpecHash = EncodeToString (sum256 specBytes),
          PolicyTypes = spec_PolicyTypes (np_Spec np),
          IngressCount = int (length (spec_Ingress (np_Spec np))),
          EgressCount = int (length (spec_Egress (np_Spec np)))\<rparr>"
  by (simp add: NewNetPolDigest_def Let_def)

lemma buildNetPolItems_Inl:
  "buildNetPolItems marshal sum256 netpols items = Inl err \<longleftrightarrow>
     (\<exists>pre np post e. netpols = pre @ np # post \<and>
        (\<forall>p \<in> set pre. \<exists>bs. marshal (np_Spec p) = Inr bs) \<and>
        marshal (np_Spec np) = Inl e \<and> err = MarshalSpecError e)"
proof (induction netpols arbitrary: items)
  case Nil
  show ?case by simp
next
  case (Cons p ps)
  show ?case
  proof (cases "marshal (np_Spec p)")
    case (Inl e)
    then have a: "buildNetPolItems marshal sum256 (p # ps) items = Inl (MarshalSpecError e)"
      by (simp add: NewNetPolDigest_def)
    show ?thesis
    proof
      assume "buildNetPolItems marshal sum256 (p # ps) items = Inl err"
      with a have "err = MarshalSpecError e" by simp
      with Inl have "p # ps = [] @ p # ps \<and> (\<forall>q \<in> set []. \<exists>bs. marshal (np_Spec q) = Inr bs) \<and>
          marshal (np_Spec p) = Inl e \<and> err = MarshalSpecError e" by simp
      then show "\<exists>pre np post e. p # ps = pre @ np # post \<and>
        (\<forall>p \<in> set pre. \<exists>bs. marshal (np_Spec p) = Inr bs) \<and>
        marshal (np_Spec np) = Inl e \<and> err = MarshalSpecError e" by blast
    next
      assume "\<exists>pre np post e. p # ps = pre @ np # post \<and>
        (\<forall>p \<in> set pre. \<exists>bs. marshal (np_Spec p) = Inr bs) \<and>
        marshal (np_Spec np) = Inl e \<and> err = MarshalSpecError e"
      then obtain pre np post e' where s: "p # ps = pre @ np # post"
        and pre: "\<forall>p \<in> set pre. \<exists>bs. marshal (np_Spec p) = Inr bs"
        and f: "marshal (np_Spec np) = Inl e'" and err: "err = MarshalSpecError e'"
        by blast
      have "pre = []"
      proof (cases pre)
        case Nil
        then show ?thesis .
      next
        case (Cons q qs)
        with s have "q = p" by simp
        with Cons pre Inl show ?thesis by auto
      qed
      with s f Inl have "e' = e" by simp
      with a err show "buildNetPolItems marshal sum256 (p # ps) items = Inl err" by simp
    qed
  next
    case (Inr bs)
    then obtain d where d: "NewNetPolDigest marshal sum256 p = Inr d"
      by (simp add: NewNetPolDigest_def Let_def)
    then have a: "buildNetPolItems marshal sum256 (p # ps) items =
        buildNetPolItems marshal sum256 ps
          (AList.update (np_Namespace p @ ''/'' @ np_Name p) d items)"
      by simp
    show ?thesis
    proof
      assume "buildNetPolItems marshal sum256 (p # ps) items = Inl err"
      with a Cons.IH obtain pre np post e where s: "ps = pre @ np # post"
        and pre: "\<forall>p \<in> set pre. \<exists>bs. marshal (np_Spec p) = Inr bs"
        and f: "marshal (np_Spec np) = Inl e" and err: "err = MarshalSpecError e"
        by auto
      from s pre Inr have "p # ps = (p # pre) @ np # post \<and>
          (\<forall>q \<in> set (p # pre). \<exists>bs. marshal (np_Spec q) = Inr bs)" by simp
      with f err show "\<exists>pre np post e. p # ps = pre @ np # post \<and>
        (\<forall>p \<in> set pre. \<exists>bs. marshal (np_Spec p) = Inr bs) \<and>
        marshal (np_Spec np) = Inl e \<and> err = MarshalSpecError e" by blast
    next
      assume "\<exists>pre np post e. p # ps = pre @ np # post \<and>
        (\<forall>p \<in> set pre. \<exists>bs. marshal (np_Spec p) = Inr bs) \<and>
        marshal (np_Spec np) = Inl e \<and> err = MarshalSpecError e"
      then obtain pre np post e where s: "p # ps = pre @ np # post"
        and pre: "\<forall>p \<in> set pre. \<exists>bs. marshal (np_Spec p) = Inr bs"
        and f: "marshal (np_Spec np) = Inl e" and err: "err = MarshalSpecError e"
        by blast
      from s f Inr obtain pre' where p': "pre = p # pre'" by (cases pre) auto
      with s pre have "ps = pre' @ np # post \<and>
          (\<forall>q \<in> set pre'. \<exists>bs. marshal (np_Spec q) = Inr bs)" by simp
      with f err Cons.IH have "buildNetPolItems marshal sum256 ps
          (AList.update (np_Namespace p @ ''/'' @ np_Name p) d items) = Inl err" by blast
      with a show "buildNetPolItems marshal sum256 (p # ps) items = Inl err" by simp
    qed
  qed
qed

lemma buildNetPolSnapshot_Inl:
  "buildNetPolSnapshot marshal sum256 netpols = Inl err \<longleftrightarrow>
     (\<exists>pre np post e. netpols = pre @ np # post \<and>
        (\<forall>p \<in> set pre. \<exists>bs. marshal (np_Spec p) = Inr bs) \<and>
        marshal (np_Spec np) = Inl e \<and> err = MarshalSpecError e)"
  unfolding buildNetPolItems_Inl[of marshal sum256 netpols "[]" err, symmetric]
  by (simp add: buildNetPolSnapshot_def split: sum.splits)

lemma buildNetPolSnapshot_fails_iff:
  "(\<exists>err. buildNetPolSnapshot marshal sum256 netpols = Inl err) \<longleftrightarrow>
   (\<exists>p \<in> set netpols. \<exists>e. marshal (np_Spec p) = Inl e)"
proof
  assume "\<exists>err. buildNetPolSnapshot marshal sum256 netpols = Inl err"
  then obtain pre np post e where "netpols = pre @ np # post" and "marshal (np_Spec np) = Inl e"
    unfolding buildNetPolSnapshot_Inl by blast
  then have "np \<in> set netpols \<and> marshal (np_Spec np) = Inl e" by simp
  then show "\<exists>p \<in> set netpols. \<exists>e. marshal (np_Spec p) = Inl e" by blast
next
  assume "\<exists>p \<in> set netpols. \<exists>e. marshal (np_Spec p) = Inl e"
  then obtain p0 e0 where "p0 \<in> set netpols" and "marshal (np_Spec p0) = Inl e0" by blast
  then have "p0 \<in> set netpols \<and> isl (marshal (np_Spec p0))" by simp
  then have "\<exists>p \<in> set netpols. isl (marshal (np_Spec p))" by blast
  then obtain pre np post where s: "netpols = pre @ np # post"
    and f: "isl (marshal (np_Spec np))" and pre: "\<forall>p \<in> set pre. \<not> isl (marshal (np_Spec p))"
    using split_list_first_prop[of netpols "\<lambda>p. isl (marshal (np_Spec p))"] by blast
  from f obtain e where e: "marshal (np_Spec np) = Inl e" by (cases "marshal (np_Spec np)") auto
  have "\<forall>p \<in> set pre. \<exists>bs. marshal (np_Spec p) = Inr bs"
  proof
    fix p assume "p \<in> set pre"
    with pre have "\<not> isl (marshal (np_Spec p))" by blast
    then show "\<exists>bs. marshal (np_Spec p) = Inr bs" by (cases "marshal (np_Spec p)") auto
  qed
  with s e have "buildNetPolSnapshot marshal sum256 netpols = Inl (MarshalSpecError e)"
    unfolding buildNetPolSnapshot_Inl by blast
  then show "\<exists>err. buildNetPolSnapshot marshal sum256 netpols = Inl err" by blast
qed

text \<open>
  Claim C7. \<open>NewNetPolDigest\<close> returns an error exactly when the serializer fails on the
  policy's spec. When the serializer succeeds, the digest's specHash is the hexadecimal form of
  the hash of the serialized spec, so that two policies with the same spec have the same
  specHash whatever their metadata. \<open>buildNetPolSnapshot\<close> returns an error exactly when the
  serializer fails on the spec of one of the policies, and the error is that failure, wrapped.
\<close>

theorem NewNetPolDigest_error_and_hash:
  "((\<exists>err. NewNetPolDigest marshal sum256 np = Inl err) \<longleftrightarrow>
      (\<exists>e. marshal (np_Spec np) = Inl e)) \<and>
   (marshal (np_Spec np) = Inr specBytes \<longrightarrow>
      (\<exists>d. NewNetPolDigest marshal sum256 np = Inr d \<and>
           SpecHash d = EncodeToString (sum256 specBytes))) \<and>
   (np_Spec np = np_Spec np' \<longrightarrow>
      map_sum id SpecHash (NewNetPolDigest marshal sum256 np) =
      map_sum id SpecHash (NewNetPolDigest marshal sum256 np')) \<and>
   ((\<exists>err. buildNetPolSnapshot marshal sum256 netpols = Inl err) \<longleftrightarrow>
      (\<exists>p \<in> set netpols. \<exists>e. marshal (np_Spec p) = Inl e)) \<and>
   (buildNetPolSnapshot marshal sum256 netpols = Inl err \<longrightarrow>
      (\<exists>p \<in> set netpols. \<exists>e. marshal (np_Spec p) = Inl e \<and> err = MarshalSpecError e))"
proof (intro conjI impI)
  show "(\<exists>err. NewNetPolDigest marshal sum256 np = Inl err) \<longleftrightarrow>
      (\<exists>e. marshal (np_Spec np) = Inl e)"
    by (simp add: NewNetPolDigest_Inl)
  show "\<exists>d. NewNetPolDigest marshal sum256 np = Inr d \<and>
           SpecHash d = EncodeToString (sum256 specBytes)"
    if "marshal (np_Spec np) = Inr specBytes"
    using that by (simp add: NewNetPolDigest_def Let_def)
  show "map_sum id SpecHash (NewNetPolDigest marshal sum256 np) =
      map_sum id SpecHash (NewNetPolDigest marshal sum256 np')"
    if "np_Spec np = np_Spec np'"
    using that by (simp add: NewNetPolDigest_def Let_def split: sum.splits)
  show "(\<exists>err. buildNetPolSnapshot marshal sum256 netpols = Inl err) \<longleftrightarrow>
      (\<exists>p \<in> set netpols. \<exists>e. marshal (np_Spec p) = Inl e)"
    by (rule buildNetPolSnapshot_fails_iff)
  show "\<exists>p \<in> set netpols. \<exists>e. marshal (np_Spec p) = Inl e \<and> err = MarshalSpecError e"
    if "buildNetPolSnapshot marshal sum256 netpols = Inl err"
  proof -
    from that obtain pre np post e where "netpols = pre @ np # post"
      and "marshal (np_Spec np) = Inl e" and "err = MarshalSpecError e"
      unfolding buildNetPolSnapshot_Inl by blast
    then have "np \<in> set netpols \<and> marshal (np_Spec np) = Inl e \<and> err = MarshalSpecError e"
      by simp
    then show ?thesis by blast
  qed
qed

lemma EncodeToString_example: "EncodeToString [0xAB, 0x01, 0xF0] = ''ab01f0''"
  by (simp add: EncodeToString_def hextable_def)

theorem NewNetPolDigest_error_and_hash_witness:
  "np_Spec \<lparr>np_Namespace = ''ns1'', np_Name = ''web'', np_ResourceVersion = ''41'',
      np_Labels = [(''team'', ''a'')],
      np_Spec = \<lparr>spec_PodSelector = ''app=web'', spec_Ingress = [''from-ns1''],
        spec_Egress = [], spec_PolicyTypes = [''Ingress'']\<rparr>\<rparr> = np_Spec \<lparr>np_Namespace = ''ns1'', np_Name = ''web'', np_ResourceVersion = ''97'',
      np_Labels = [(''team'', ''b''), (''tier'', ''front'')],
      np_Spec = \<lparr>spec_PodSelector = ''app=web'', spec_Ingress = [''from-ns1''],
        spec_Egress = [], spec_PolicyTypes = [''Ingress'']\<rparr>\<rparr> \<and>
   map_sum id SpecHash (NewNetPolDigest (\<lambda>s. if spec_PolicyTypes s = [''Bogus''] then Inl ''json: error'' else Inr [0x7B, 0x7D :: 8 word]) (map (\<lambda>b. b + 1)) \<lparr>np_Namespace = ''ns1'', np_Name = ''web'', np_ResourceVersion = ''41'',
      np_Labels = [(''team'', ''a'')],
      np_Spec = \<lparr>spec_PodSelector = ''app=web'', spec_Ingress = [''from-ns1''],
        spec_Egress = [], spec_PolicyTypes = [''Ingress'']\<rparr>\<rparr>) = map_sum id SpecHash (NewNetPolDigest (\<lambda>s. if spec_PolicyTypes s = [''Bogus''] then Inl ''json: error'' else Inr [0x7B, 0x7D :: 8 word]) (map (\<lambda>b. b + 1)) \<lparr>np_Namespace = ''ns1'', np_Name = ''web'', np_ResourceVersion = ''97'',
      np_Labels = [(''team'', ''b''), (''tier'', ''front'')],
      np_Spec = \<lparr>spec_PodSelector = ''app=web'', spec_Ingress = [''from-ns1''],
        spec_Egress = [], spec_PolicyTypes = [''Ingress'']\<rparr>\<rparr>) \<and>
   (\<lambda>s. if spec_PolicyTypes s = [''Bogus''] then Inl ''json: error'' else Inr [0x7B, 0x7D :: 8 word]) (np_Spec \<lparr>np_Namespace = ''ns1'', np_Name = ''web'', np_ResourceVersion = ''41'',
      np_Labels = [(''team'', ''a'')],
      np_Spec = \<lparr>spec_PodSelector = ''app=web'', spec_Ingress = [''from-ns1''],
        spec_Egress = [], spec_PolicyTypes = [''Ingress'']\<rparr>\<rparr>) = Inr [0x7B, 0x7D :: 8 word] \<and>
   (\<exists>d. NewNetPolDigest (\<lambda>s. if spec_PolicyTypes s = [''Bogus''] then Inl ''json: error'' else Inr [0x7B, 0x7D :: 8 word]) (map (\<lambda>b. b + 1)) \<lparr>np_Namespace = ''ns1'', np_Name = ''web'', np_ResourceVersion = ''41'',
      np_Labels = [(''team'', ''a'')],
      np_Spec = \<lparr>spec_PodSelector = ''app=web'', spec_Ingress = [''from-ns1''],
        spec_Egress = [], spec_PolicyTypes = [''Ingress'']\<rparr>\<rparr> = Inr d \<and> SpecHash d = ''7c7e'') \<and>
   buildNetPolSnapshot (\<lambda>s. if spec_PolicyTypes s = [''Bogus''] then Inl ''json: error'' else Inr [0x7B, 0x7D :: 8 word]) (map (\<lambda>b. b + 1)) [\<lparr>np_Namespace = ''ns1'', np_Name = ''web'', np_ResourceVersion = ''41'',
      np_Labels = [(''team'', ''a'')],
      np_Spec = \<lparr>spec_PodSelector = ''app=web'', spec_Ingress = [''from-ns1''],
        spec_Egress = [], spec_PolicyTypes = [''Ingress'']\<rparr>\<rparr>, \<lparr>np_Namespace = ''ns1'', np_Name = ''bad'', np_ResourceVersion = ''5'',
      np_Labels = [],
      np_Spec = \<lparr>spec_PodSelector = ''app=web'', spec_Ingress = [''from-ns1''],
        spec_Egress = [], spec_PolicyTypes = [''Bogus'']\<rparr>\<rparr>] = Inl (MarshalSpecError ''json: error'') \<and>
   (\<exists>p \<in> set [\<lparr>np_Namespace = ''ns1'', np_Name = ''web'', np_ResourceVersion = ''41'',
      np_Labels = [(''team'', ''a'')],
      np_Spec = \<lparr>spec_PodSelector = ''app=web'', spec_Ingress = [''from-ns1''],
        spec_Egress = [], spec_PolicyTypes = [''Ingress'']\<rparr>\<rparr>, \<lparr>np_Namespace = ''ns1'', np_Name = ''bad'', np_ResourceVersion = ''5'',
      np_Labels = [],
      np_Spec = \<lparr>spec_PodSelector = ''app=web'', spec_Ingress = [''from-ns1''],
        spec_Egress = [], spec_PolicyTypes = [''Bogus'']\<rparr>\<rparr>]. \<exists>e. (\<lambda>s. if spec_PolicyTypes s = [''Bogus''] then Inl ''json: error'' else Inr [0x7B, 0x7D :: 8 word]) (np_Spec p) = Inl e \<and>
      MarshalSpecError ''json: error'' = MarshalSpecError e)"
proof -
  let ?M = "(\<lambda>s. if spec_PolicyTypes s = [''Bogus''] then Inl ''json: error'' else Inr [0x7B, 0x7D :: 8 word]) :: string NetworkPolicySpec \<Rightarrow> string + 8 word list"
  let ?H = "(map (\<lambda>b. b + 1)) :: 8 word list \<Rightarrow> 8 word list"
  let ?A = "\<lparr>np_Namespace = ''ns1'', np_Name = ''web'', np_ResourceVersion = ''41'',
      np_Labels = [(''team'', ''a'')],
      np_Spec = \<lparr>spec_PodSelector = ''app=web'', spec_Ingress = [''from-ns1''],
        spec_Egress = [], spec_PolicyTypes = [''Ingress'']\<rparr>\<rparr>"
  let ?B = "\<lparr>np_Namespace = ''ns1'', np_Name = ''web'', np_ResourceVersion = ''97'',
      np_Labels = [(''team'', ''b''), (''tier'', ''front'')],
      np_Spec = \<lparr>spec_PodSelector = ''app=web'', spec_Ingress = [''from-ns1''],
        spec_Egress = [], spec_PolicyTypes = [''Ingress'']\<rparr>\<rparr>"
  let ?C = "\<lparr>np_Namespace = ''ns1'', np_Name = ''bad'', np_ResourceVersion = ''5'',
      np_Labels = [],
      np_Spec = \<lparr>spec_PodSelector = ''app=web'', spec_Ingress = [''from-ns1''],
        spec_Egress = [], spec_PolicyTypes = [''Bogus'']\<rparr>\<rparr>"
  have h1: "np_Spec ?A = np_Spec ?B" by simp
  have h2: "?M (np_Spec ?A) = Inr [0x7B, 0x7D]" by simp
  have h3: "buildNetPolSnapshot ?M ?H [?A, ?C] = Inl (MarshalSpecError ''json: error'')"
    by (simp add: buildNetPolSnapshot_def NewNetPolDigest_def)
  have hx: "EncodeToString (?H [0x7B, 0x7D]) = ''7c7e''"
    by (simp add: EncodeToString_def hextable_def)
  note t = NewNetPolDigest_error_and_hash
    [where marshal = ?M and ?sum256.0 = ?H and np = ?A and np' = ?B
       and specBytes = "[0x7B, 0x7D]" and netpols = "[?A, ?C]"
       and err = "MarshalSpecError ''json: error''"]
  from t h1 have c1: "map_sum id SpecHash (NewNetPolDigest ?M ?H ?A) =
      map_sum id SpecHash (NewNetPolDigest ?M ?H ?B)" by blast
  from t h2 have "\<exists>d. NewNetPolDigest ?M ?H ?A = Inr d \<and>
      SpecHash d = EncodeToString (?H [0x7B, 0x7D])" by blast
  then have c2: "\<exists>d. NewNetPolDigest ?M ?H ?A = Inr d \<and> SpecHash d = ''7c7e''"
    unfolding hx .
  from t h3 have c3: "\<exists>p \<in> set [?A, ?C]. \<exists>e. ?M (np_Spec p) = Inl e \<and>
      MarshalSpecError ''json: error'' = MarshalSpecError e" by blast
  show ?thesis
    by (rule conjI[OF h1 conjI[OF c1 conjI[OF h2 conjI[OF c2 conjI[OF h3 c3]]]]])
qed

subsection \<open>Independence of the iteration order\<close>

lemma map_of_mset_eq:
  assumes d: "distinct (map fst xs)" and m: "mset ys = mset xs"
  shows "map_of ys = map_of xs"
proof -
  have "mset (map fst ys) = mset (map fst xs)" using m by simp
  then have dy: "distinct (map fst ys)" using d mset_eq_imp_distinct_iff by blast
  have "set ys = set xs" using m by (rule mset_eq_setD)
  with d dy show ?thesis by (simp add: map_of_inject_set)
qed

lemma mset_concat_map:
  "mset (concat (map f xs)) = (\<Sum>x\<in>#mset xs. mset (f x))"
  by (induction xs) simp_all

lemma mset_concat_map_cong:
  "mset xs = mset ys \<Longrightarrow> mset (concat (map f xs)) = mset (concat (map f ys))"
  by (simp add: mset_concat_map)

lemma keys_concat_singletons:
  assumes "\<And>k. k \<in> set ks \<Longrightarrow> f k = [] \<or> (\<exists>e. f k = [e] \<and> g e = h k)"
  shows "map g (concat (map f ks)) = map h (filter (\<lambda>k. f k \<noteq> []) ks)"
  using assms
proof (induction ks)
  case Nil
  show ?case by simp
next
  case (Cons k ks)
  have IH: "map g (concat (map f ks)) = map h (filter (\<lambda>k. f k \<noteq> []) ks)"
    using Cons by simp
  have "f k = [] \<or> (\<exists>e. f k = [e] \<and> g e = h k)" using Cons.prems by simp
  then show ?case
  proof
    assume "f k = []"
    with IH show ?thesis by simp
  next
    assume "\<exists>e. f k = [e] \<and> g e = h k"
    then obtain e where e: "f k = [e]" "g e = h k" by blast
    with IH show ?thesis by simp
  qed
qed

lemma distinct_map_comp: "distinct (map (\<lambda>x. f (g x)) xs) \<Longrightarrow> distinct (map g xs)"
  by (induction xs) auto

lemma psaBaselineStep_cong:
  "map_of lMap' = map_of lMap \<Longrightarrow> psaBaselineStep lMap' = psaBaselineStep lMap"
  by (intro ext) (simp add: psaBaselineStep_def)

lemma psaLiveStep_cong:
  "map_of bMap' = map_of bMap \<Longrightarrow> psaLiveStep bMap' = psaLiveStep bMap"
  by (intro ext) (simp add: psaLiveStep_def)

lemma baseline_extra_shape:
  "fst (psaBaselineStep lMap ([], []) kv) = [] \<or>
   (\<exists>e. fst (psaBaselineStep lMap ([], []) kv) = [e] \<and> de_Namespace e = fst kv)"
  by (cases kv) (auto simp: psaBaselineStep_def Let_def split: option.splits prod.splits)

lemma baseline_missing_shape:
  "snd (psaBaselineStep lMap ([], []) kv) = [] \<or>
   (\<exists>e. snd (psaBaselineStep lMap ([], []) kv) = [e] \<and> de_Namespace e = fst kv)"
  by (cases kv) (auto simp: psaBaselineStep_def Let_def split: option.splits prod.splits)

lemma live_extra_shape:
  "psaLiveStep bMap [] kv = [] \<or>
   (\<exists>e. psaLiveStep bMap [] kv = [e] \<and> de_Namespace e = fst kv)"
  by (cases kv) (auto simp: psaLiveStep_def split: option.splits)

lemma live_extra_absent:
  "psaLiveStep bMap [] kv \<noteq> [] \<Longrightarrow> fst kv \<notin> fst ` set bMap"
  by (cases kv) (auto simp: psaLiveStep_def map_of_eq_None_iff split: option.splits)

lemma psa_extra_distinct:
  assumes b: "distinct (map fst bMap)" and l: "distinct (map fst lMap)"
  shows "distinct (map de_Namespace
           (concat (map (\<lambda>kv. fst (psaBaselineStep lMap ([], []) kv)) bMap) @
            concat (map (psaLiveStep bMap []) lMap)))"
proof -
  let ?A = "concat (map (\<lambda>kv. fst (psaBaselineStep lMap ([], []) kv)) bMap)"
  let ?B = "concat (map (psaLiveStep bMap []) lMap)"
  have A: "map de_Namespace ?A =
      map fst (filter (\<lambda>kv. fst (psaBaselineStep lMap ([], []) kv) \<noteq> []) bMap)"
    by (rule keys_concat_singletons) (rule baseline_extra_shape)
  have B: "map de_Namespace ?B = map fst (filter (\<lambda>kv. psaLiveStep bMap [] kv \<noteq> []) lMap)"
    by (rule keys_concat_singletons) (rule live_extra_shape)
  have dA: "distinct (map de_Namespace ?A)" unfolding A using b by (rule distinct_map_filter)
  have dB: "distinct (map de_Namespace ?B)" unfolding B using l by (rule distinct_map_filter)
  have sA: "set (map de_Namespace ?A) \<subseteq> fst ` set bMap" unfolding A by auto
  have sB: "set (map de_Namespace ?B) \<inter> fst ` set bMap = {}"
    unfolding B using live_extra_absent[of bMap] by auto
  have "set (map de_Namespace ?A) \<inter> set (map de_Namespace ?B) = {}" using sA sB by blast
  with dA dB show ?thesis by (simp only: map_append distinct_append)
qed

lemma psa_missing_distinct:
  assumes b: "distinct (map fst bMap)"
  shows "distinct (map de_Namespace
           (concat (map (\<lambda>kv. snd (psaBaselineStep lMap ([], []) kv)) bMap)))"
proof -
  have "map de_Namespace (concat (map (\<lambda>kv. snd (psaBaselineStep lMap ([], []) kv)) bMap)) =
      map fst (filter (\<lambda>kv. snd (psaBaselineStep lMap ([], []) kv) \<noteq> []) bMap)"
    by (rule keys_concat_singletons) (rule baseline_missing_shape)
  then show ?thesis using b by (simp only: distinct_map_filter)
qed

lemma DiffPSA_maps_order_independent:
  assumes b: "distinct (map fst bMap)" and l: "distinct (map fst lMap)"
    and b': "mset bMap' = mset bMap" and l': "mset lMap' = mset lMap"
  shows "DiffPSA_maps bMap' lMap' = DiffPSA_maps bMap lMap"
proof -
  have mb: "map_of bMap' = map_of bMap" using b b' by (rule map_of_mset_eq)
  have ml: "map_of lMap' = map_of lMap" using l l' by (rule map_of_mset_eq)
  have sb: "psaBaselineStep lMap' = psaBaselineStep lMap" using ml by (rule psaBaselineStep_cong)
  have sl: "psaLiveStep bMap' = psaLiveStep bMap" using mb by (rule psaLiveStep_cong)
  let ?A = "\<lambda>m. concat (map (\<lambda>kv. fst (psaBaselineStep lMap ([], []) kv)) m)"
  let ?B = "\<lambda>m. concat (map (psaLiveStep bMap []) m)"
  let ?M = "\<lambda>m. concat (map (\<lambda>kv. snd (psaBaselineStep lMap ([], []) kv)) m)"
  have e: "sortSlice lessNamespace (?A bMap' @ ?B lMap') =
           sortSlice lessNamespace (?A bMap @ ?B lMap)"
  proof (rule sortSlice_unique[where key = de_Namespace])
    show "lessNamespace x y = (de_Namespace x < de_Namespace y)" for x y
      by (simp add: lessNamespace_def)
    show "distinct (map de_Namespace (?A bMap @ ?B lMap))"
      using psa_extra_distinct[OF b l] .
    show "mset (?A bMap' @ ?B lMap') = mset (?A bMap @ ?B lMap)"
      using mset_concat_map_cong[OF b', of "\<lambda>kv. fst (psaBaselineStep lMap ([], []) kv)"]
        mset_concat_map_cong[OF l', of "psaLiveStep bMap []"]
      by (simp only: mset_append)
  qed
  have m: "sortSlice lessNamespace (?M bMap') = sortSlice lessNamespace (?M bMap)"
  proof (rule sortSlice_unique[where key = de_Namespace])
    show "lessNamespace x y = (de_Namespace x < de_Namespace y)" for x y
      by (simp add: lessNamespace_def)
    show "distinct (map de_Namespace (?M bMap))"
      using psa_missing_distinct[OF b] .
    show "mset (?M bMap') = mset (?M bMap)"
      using mset_concat_map_cong[OF b', of "\<lambda>kv. snd (psaBaselineStep lMap ([], []) kv)"] .
  qed
  show ?thesis
    unfolding DiffPSA_maps_eq sb sl by (simp only: e m)
qed

lemma netpolStep_cong:
  "map_of (Items b') = map_of (Items b) \<Longrightarrow> map_of (Items l') = map_of (Items l) \<Longrightarrow>
   netpolStep b' l' = netpolStep b l"
  by (intro ext) (simp add: netpolStep_def)

lemma refKey_refOrder: "refKey x = case_prod netpolKey (refOrder x)"
  by (simp add: refKey_def refOrder_def)

lemma changeKey_changeOrder: "changeKey x = case_prod netpolKey (changeOrder x)"
  by (simp add: changeKey_def changeOrder_def)

lemma distinct_refOrder: "distinct (map refKey xs) \<Longrightarrow> distinct (map refOrder xs)"
  unfolding refKey_refOrder by (rule distinct_map_comp)

lemma distinct_changeOrder: "distinct (map changeKey xs) \<Longrightarrow> distinct (map changeOrder xs)"
  unfolding changeKey_changeOrder by (rule distinct_map_comp)

lemma DiffNetworkPolicies_order_independent:
  assumes b: "wf_netpol b" and l: "wf_netpol l"
    and b': "mset (Items b') = mset (Items b)" and l': "mset (Items l') = mset (Items l)"
    and ks: "mset ks = mset (map fst (netpolKeys b l))"
  shows "DiffNetworkPolicies_order ks b' l' = DiffNetworkPolicies b l"
proof -
  let ?K = "map fst (netpolKeys b l)"
  let ?r0 = "\<lparr>np_Missing = [], np_Extra = [], np_Changed = []\<rparr>"
  have db: "distinct (map fst (Items b))" using b by (simp add: wf_netpol_def)
  have dl: "distinct (map fst (Items l))" using l by (simp add: wf_netpol_def)
  have mb: "map_of (Items b') = map_of (Items b)" using db b' by (rule map_of_mset_eq)
  have ml: "map_of (Items l') = map_of (Items l)" using dl l' by (rule map_of_mset_eq)
  have st: "netpolStep b' l' = netpolStep b l" using mb ml by (rule netpolStep_cong)
  have dK: "distinct ?K" by (rule distinct_netpolKeys)
  have M: "sortSlice lessRef (np_Missing (foldl (netpolStep b l) ?r0 ks)) =
           sortSlice lessRef (np_Missing (foldl (netpolStep b l) ?r0 ?K))"
  proof (rule sortSlice_unique[where key = refOrder])
    show "lessRef x y = (refOrder x < refOrder y)" for x y by (rule lessRef_order)
    have "distinct (map refKey (np_Missing (foldl (netpolStep b l) ?r0 ?K)))"
      unfolding Missing_keys_order[OF b] using dK by (rule distinct_filter)
    then show "distinct (map refOrder (np_Missing (foldl (netpolStep b l) ?r0 ?K)))"
      by (rule distinct_refOrder)
    show "mset (np_Missing (foldl (netpolStep b l) ?r0 ks)) =
          mset (np_Missing (foldl (netpolStep b l) ?r0 ?K))"
      unfolding foldl_netpolStep_Missing
      by (simp only: mset_append mset_concat_map_cong[OF ks])
  qed
  have E: "sortSlice lessRef (np_Extra (foldl (netpolStep b l) ?r0 ks)) =
           sortSlice lessRef (np_Extra (foldl (netpolStep b l) ?r0 ?K))"
  proof (rule sortSlice_unique[where key = refOrder])
    show "lessRef x y = (refOrder x < refOrder y)" for x y by (rule lessRef_order)
    have "distinct (map refKey (np_Extra (foldl (netpolStep b l) ?r0 ?K)))"
      unfolding Extra_keys_order[OF l] using dK by (rule distinct_filter)
    then show "distinct (map refOrder (np_Extra (foldl (netpolStep b l) ?r0 ?K)))"
      by (rule distinct_refOrder)
    show "mset (np_Extra (foldl (netpolStep b l) ?r0 ks)) =
          mset (np_Extra (foldl (netpolStep b l) ?r0 ?K))"
      unfolding foldl_netpolStep_Extra
      by (simp only: mset_append mset_concat_map_cong[OF ks])
  qed
  have C: "sortSlice lessChange (np_Changed (foldl (netpolStep b l) ?r0 ks)) =
           sortSlice lessChange (np_Changed (foldl (netpolStep b l) ?r0 ?K))"
  proof (rule sortSlice_unique[where key = changeOrder])
    show "lessChange x y = (changeOrder x < changeOrder y)" for x y by (rule lessChange_order)
    have "distinct (map changeKey (np_Changed (foldl (netpolStep b l) ?r0 ?K)))"
      unfolding Changed_keys_order[OF b] using dK by (rule distinct_filter)
    then show "distinct (map changeOrder (np_Changed (foldl (netpolStep b l) ?r0 ?K)))"
      by (rule distinct_changeOrder)
    show "mset (np_Changed (foldl (netpolStep b l) ?r0 ks)) =
          mset (np_Changed (foldl (netpolStep b l) ?r0 ?K))"
      unfolding foldl_netpolStep_Changed
      by (simp only: mset_append mset_concat_map_cong[OF ks])
  qed
  show ?thesis
    unfolding DiffNetworkPolicies_def DiffNetworkPolicies_order_def Let_def st
    by (simp only: M E C)
qed

lemma permSetOf_nonempty_key:
  "permSetOf snap s \<noteq> {} \<Longrightarrow> s \<in> fst ` set (Subjects snap)"
  using permsOf_absent[of s snap] by (auto simp: permSetOf_def)

lemma Extra_set_order:
  assumes "set ks = fst ` set (Subjects b) \<union> fst ` set (Subjects l)"
    and "same_rbac b b'" and "same_rbac l l'"
  shows "map_option set (map_of (rbac_Extra (DiffRBAC_order ks b' l')) s) =
     (if permSetOf l s - permSetOf b s = {} then None
      else Some (permSetOf l s - permSetOf b s))"
proof -
  have pb: "permSetOf b' s = permSetOf b s" using assms(2) by (simp add: same_rbac_def)
  have pl: "permSetOf l' s = permSetOf l s" using assms(3) by (simp add: same_rbac_def)
  have "permSetOf l s - permSetOf b s \<noteq> {} \<Longrightarrow> s \<in> set ks"
    using permSetOf_nonempty_key[of l s] assms(1) by auto
  then show ?thesis
    using pb pl
    by (auto simp: map_of_Extra_order notIn_Nil_iff set_notIn permSetOf_def)
qed

lemma Missing_set_order:
  assumes "set ks = fst ` set (Subjects b) \<union> fst ` set (Subjects l)"
    and "same_rbac b b'" and "same_rbac l l'"
  shows "map_option set (map_of (rbac_Missing (DiffRBAC_order ks b' l')) s) =
     (if permSetOf b s - permSetOf l s = {} then None
      else Some (permSetOf b s - permSetOf l s))"
proof -
  have pb: "permSetOf b' s = permSetOf b s" using assms(2) by (simp add: same_rbac_def)
  have pl: "permSetOf l' s = permSetOf l s" using assms(3) by (simp add: same_rbac_def)
  have "permSetOf b s - permSetOf l s \<noteq> {} \<Longrightarrow> s \<in> set ks"
    using permSetOf_nonempty_key[of b s] assms(1) by auto
  then show ?thesis
    using pb pl
    by (auto simp: map_of_Missing_order notIn_Nil_iff set_notIn permSetOf_def)
qed

text \<open>
  Claim C9, as amended. The PSA differ returns the same output, the order of the entries
  included, in whatever order a run visits its two index maps; so does the NetworkPolicy
  differ, on snapshots keyed by namespace/name, in whatever order a run visits the snapshots
  and the union of their keys. The RBAC differ returns for every subject the same set of extra
  and the same set of missing permissions in whatever order a run visits the subjects and the
  permission sets; the order of the permissions within a subject's list is that in which the
  run visits the permission set, and \<open>DiffRBAC\<close> does not fix it.
\<close>

theorem differs_order_independent:
  "(mset bMap = mset (psaIndex baseline) \<and> mset lMap = mset (psaIndex live) \<longrightarrow>
      DiffPSA_maps bMap lMap = DiffPSA baseline live) \<and>
   (wf_netpol nb \<and> wf_netpol nl \<and> mset (Items nb') = mset (Items nb) \<and>
    mset (Items nl') = mset (Items nl) \<and> mset ks = mset (map fst (netpolKeys nb nl)) \<longrightarrow>
      DiffNetworkPolicies_order ks nb' nl' = DiffNetworkPolicies nb nl) \<and>
   (same_rbac rb rb' \<and> same_rbac rl rl' \<and>
    set subjects = set (map fst (allSubjects rb rl)) \<longrightarrow>
      map_option set (map_of (rbac_Extra (DiffRBAC_order subjects rb' rl')) subj) =
      map_option set (map_of (rbac_Extra (DiffRBAC rb rl)) subj) \<and>
      map_option set (map_of (rbac_Missing (DiffRBAC_order subjects rb' rl')) subj) =
      map_option set (map_of (rbac_Missing (DiffRBAC rb rl)) subj))"
proof (intro conjI impI)
  assume "mset bMap = mset (psaIndex baseline) \<and> mset lMap = mset (psaIndex live)"
  then show "DiffPSA_maps bMap lMap = DiffPSA baseline live"
    unfolding DiffPSA_def
    by (intro DiffPSA_maps_order_independent distinct_psaIndex) simp_all
next
  assume "wf_netpol nb \<and> wf_netpol nl \<and> mset (Items nb') = mset (Items nb) \<and>
    mset (Items nl') = mset (Items nl) \<and> mset ks = mset (map fst (netpolKeys nb nl))"
  then show "DiffNetworkPolicies_order ks nb' nl' = DiffNetworkPolicies nb nl"
    by (intro DiffNetworkPolicies_order_independent) simp_all
next
  assume a: "same_rbac rb rb' \<and> same_rbac rl rl' \<and>
    set subjects = set (map fst (allSubjects rb rl))"
  then have k: "set subjects = fst ` set (Subjects rb) \<union> fst ` set (Subjects rl)"
    by (simp only: keys_allSubjects)
  from a show "map_option set (map_of (rbac_Extra (DiffRBAC_order subjects rb' rl')) subj) =
      map_option set (map_of (rbac_Extra (DiffRBAC rb rl)) subj)"
    by (simp only: Extra_set_order[OF k] Extra_set_DiffRBAC)
  from a show "map_option set (map_of (rbac_Missing (DiffRBAC_order subjects rb' rl')) subj) =
      map_option set (map_of (rbac_Missing (DiffRBAC rb rl)) subj)"
    by (simp only: Missing_set_order[OF k] Missing_set_DiffRBAC)
qed

theorem differs_order_independent_witness:
  "mset [(''b'', \<lparr>psa_Namespace = ''b'', Enforce = ''baseline'', Audit = [], Warn = []\<rparr>), (''a'', \<lparr>psa_Namespace = ''a'', Enforce = ''restricted'', Audit = [], Warn = []\<rparr>)] = mset (psaIndex [\<lparr>psa_Namespace = ''a'', Enforce = ''restricted'', Audit = [], Warn = []\<rparr>, \<lparr>psa_Namespace = ''b'', Enforce = ''baseline'', Audit = [], Warn = []\<rparr>]) \<and>
   mset [(''c'', \<lparr>psa_Namespace = ''c'', Enforce = ''baseline'', Audit = [], Warn = []\<rparr>), (''a'', \<lparr>psa_Namespace = ''a'', Enforce = ''baseline'', Audit = [], Warn = []\<rparr>)] = mset (psaIndex [\<lparr>psa_Namespace = ''a'', Enforce = ''baseline'', Audit = [], Warn = []\<rparr>, \<lparr>psa_Namespace = ''c'', Enforce = ''baseline'', Audit = [], Warn = []\<rparr>]) \<and>
   DiffPSA_maps [(''b'', \<lparr>psa_Namespace = ''b'', Enforce = ''baseline'', Audit = [], Warn = []\<rparr>), (''a'', \<lparr>psa_Namespace = ''a'', Enforce = ''restricted'', Audit = [], Warn = []\<rparr>)] [(''c'', \<lparr>psa_Namespace = ''c'', Enforce = ''baseline'', Audit = [], Warn = []\<rparr>), (''a'', \<lparr>psa_Namespace = ''a'', Enforce = ''baseline'', Audit = [], Warn = []\<rparr>)] = DiffPSA [\<lparr>psa_Namespace = ''a'', Enforce = ''restricted'', Audit = [], Warn = []\<rparr>, \<lparr>psa_Namespace = ''b'', Enforce = ''baseline'', Audit = [], Warn = []\<rparr>] [\<lparr>psa_Namespace = ''a'', Enforce = ''baseline'', Audit = [], Warn = []\<rparr>, \<lparr>psa_Namespace = ''c'', Enforce = ''baseline'', Audit = [], Warn = []\<rparr>] \<and>
   wf_netpol \<lparr>Items = [(''ns1/dns'', \<lparr>d_Namespace = ''ns1'', d_Name = ''dns'', SpecHash = ''aa'', PolicyTypes = [], IngressCount = 1, EgressCount = 0\<rparr>), (''ns1/web'', \<lparr>d_Namespace = ''ns1'', d_Name = ''web'', SpecHash = ''bb'', PolicyTypes = [], IngressCount = 1, EgressCount = 0\<rparr>)]\<rparr> \<and>
   wf_netpol \<lparr>Items = [(''ns1/web'', \<lparr>d_Namespace = ''ns1'', d_Name = ''web'', SpecHash = ''cc'', PolicyTypes = [], IngressCount = 1, EgressCount = 0\<rparr>), (''ns2/db'', \<lparr>d_Namespace = ''ns2'', d_Name = ''db'', SpecHash = ''dd'', PolicyTypes = [], IngressCount = 1, EgressCount = 0\<rparr>)]\<rparr> \<and>
   mset (Items \<lparr>Items = [(''ns1/web'', \<lparr>d_Namespace = ''ns1'', d_Name = ''web'', SpecHash = ''bb'', PolicyTypes = [], IngressCount = 1, EgressCount = 0\<rparr>), (''ns1/dns'', \<lparr>d_Namespace = ''ns1'', d_Name = ''dns'', SpecHash = ''aa'', PolicyTypes = [], IngressCount = 1, EgressCount = 0\<rparr>)]\<rparr>) = mset (Items \<lparr>Items = [(''ns1/dns'', \<lparr>d_Namespace = ''ns1'', d_Name = ''dns'', SpecHash = ''aa'', PolicyTypes = [], IngressCount = 1, EgressCount = 0\<rparr>), (''ns1/web'', \<lparr>d_Namespace = ''ns1'', d_Name = ''web'', SpecHash = ''bb'', PolicyTypes = [], IngressCount = 1, EgressCount = 0\<rparr>)]\<rparr>) \<and>
   mset (Items \<lparr>Items = [(''ns2/db'', \<lparr>d_Namespace = ''ns2'', d_Name = ''db'', SpecHash = ''dd'', PolicyTypes = [], IngressCount = 1, EgressCount = 0\<rparr>), (''ns1/web'', \<lparr>d_Namespace = ''ns1'', d_Name = ''web'', SpecHash = ''cc'', PolicyTypes = [], IngressCount = 1, EgressCount = 0\<rparr>)]\<rparr>) = mset (Items \<lparr>Items = [(''ns1/web'', \<lparr>d_Namespace = ''ns1'', d_Name = ''web'', SpecHash = ''cc'', PolicyTypes = [], IngressCount = 1, EgressCount = 0\<rparr>), (''ns2/db'', \<lparr>d_Namespace = ''ns2'', d_Name = ''db'', SpecHash = ''dd'', PolicyTypes = [], IngressCount = 1, EgressCount = 0\<rparr>)]\<rparr>) \<and>
   mset [''ns2/db'', ''ns1/dns'', ''ns1/web''] = mset (map fst (netpolKeys \<lparr>Items = [(''ns1/dns'', \<lparr>d_Namespace = ''ns1'', d_Name = ''dns'', SpecHash = ''aa'', PolicyTypes = [], IngressCount = 1, EgressCount = 0\<rparr>), (''ns1/web'', \<lparr>d_Namespace = ''ns1'', d_Name = ''web'', SpecHash = ''bb'', PolicyTypes = [], IngressCount = 1, EgressCount = 0\<rparr>)]\<rparr> \<lparr>Items = [(''ns1/web'', \<lparr>d_Namespace = ''ns1'', d_Name = ''web'', SpecHash = ''cc'', PolicyTypes = [], IngressCount = 1, EgressCount = 0\<rparr>), (''ns2/db'', \<lparr>d_Namespace = ''ns2'', d_Name = ''db'', SpecHash = ''dd'', PolicyTypes = [], IngressCount = 1, EgressCount = 0\<rparr>)]\<rparr>)) \<and>
   DiffNetworkPolicies_order [''ns2/db'', ''ns1/dns'', ''ns1/web''] \<lparr>Items = [(''ns1/web'', \<lparr>d_Namespace = ''ns1'', d_Name = ''web'', SpecHash = ''bb'', PolicyTypes = [], IngressCount = 1, EgressCount = 0\<rparr>), (''ns1/dns'', \<lparr>d_Namespace = ''ns1'', d_Name = ''dns'', SpecHash = ''aa'', PolicyTypes = [], IngressCount = 1, EgressCount = 0\<rparr>)]\<rparr> \<lparr>Items = [(''ns2/db'', \<lparr>d_Namespace = ''ns2'', d_Name = ''db'', SpecHash = ''dd'', PolicyTypes = [], IngressCount = 1, EgressCount = 0\<rparr>), (''ns1/web'', \<lparr>d_Namespace = ''ns1'', d_Name = ''web'', SpecHash = ''cc'', PolicyTypes = [], IngressCount = 1, EgressCount = 0\<rparr>)]\<rparr> = DiffNetworkPolicies \<lparr>Items = [(''ns1/dns'', \<lparr>d_Namespace = ''ns1'', d_Name = ''dns'', SpecHash = ''aa'', PolicyTypes = [], IngressCount = 1, EgressCount = 0\<rparr>), (''ns1/web'', \<lparr>d_Namespace = ''ns1'', d_Name = ''web'', SpecHash = ''bb'', PolicyTypes = [], IngressCount = 1, EgressCount = 0\<rparr>)]\<rparr> \<lparr>Items = [(''ns1/web'', \<lparr>d_Namespace = ''ns1'', d_Name = ''web'', SpecHash = ''cc'', PolicyTypes = [], IngressCount = 1, EgressCount = 0\<rparr>), (''ns2/db'', \<lparr>d_Namespace = ''ns2'', d_Name = ''db'', SpecHash = ''dd'', PolicyTypes = [], IngressCount = 1, EgressCount = 0\<rparr>)]\<rparr> \<and>
   same_rbac \<lparr>Subjects = [(\<lparr>sk_Kind = ''User'', sk_Name = ''alice'', sk_Namespace = []\<rparr>, [(\<lparr>ScopeNamespace = ''*'', APIGroup = [], Resource = ''pods'', ResourceName = ''*'', Verb = ''get'', NonResourceURL = []\<rparr>, ())])]\<rparr> \<lparr>Subjects = [(\<lparr>sk_Kind = ''User'', sk_Name = ''alice'', sk_Namespace = []\<rparr>, [(\<lparr>ScopeNamespace = ''*'', APIGroup = [], Resource = ''pods'', ResourceName = ''*'', Verb = ''get'', NonResourceURL = []\<rparr>, ())])]\<rparr> \<and>
   same_rbac \<lparr>Subjects = [(\<lparr>sk_Kind = ''User'', sk_Name = ''alice'', sk_Namespace = []\<rparr>, [(\<lparr>ScopeNamespace = ''*'', APIGroup = [], Resource = ''pods'', ResourceName = ''*'', Verb = ''list'', NonResourceURL = []\<rparr>, ()), (\<lparr>ScopeNamespace = ''*'', APIGroup = [], Resource = ''pods'', ResourceName = ''*'', Verb = ''watch'', NonResourceURL = []\<rparr>, ())])]\<rparr> \<lparr>Subjects = [(\<lparr>sk_Kind = ''User'', sk_Name = ''alice'', sk_Namespace = []\<rparr>, [(\<lparr>ScopeNamespace = ''*'', APIGroup = [], Resource = ''pods'', ResourceName = ''*'', Verb = ''watch'', NonResourceURL = []\<rparr>, ()), (\<lparr>ScopeNamespace = ''*'', APIGroup = [], Resource = ''pods'', ResourceName = ''*'', Verb = ''list'', NonResourceURL = []\<rparr>, ())])]\<rparr> \<and>
   set [\<lparr>sk_Kind = ''User'', sk_Name = ''alice'', sk_Namespace = []\<rparr>] = set (map fst (allSubjects \<lparr>Subjects = [(\<lparr>sk_Kind = ''User'', sk_Name = ''alice'', sk_Namespace = []\<rparr>, [(\<lparr>ScopeNamespace = ''*'', APIGroup = [], Resource = ''pods'', ResourceName = ''*'', Verb = ''get'', NonResourceURL = []\<rparr>, ())])]\<rparr> \<lparr>Subjects = [(\<lparr>sk_Kind = ''User'', sk_Name = ''alice'', sk_Namespace = []\<rparr>, [(\<lparr>ScopeNamespace = ''*'', APIGroup = [], Resource = ''pods'', ResourceName = ''*'', Verb = ''list'', NonResourceURL = []\<rparr>, ()), (\<lparr>ScopeNamespace = ''*'', APIGroup = [], Resource = ''pods'', ResourceName = ''*'', Verb = ''watch'', NonResourceURL = []\<rparr>, ())])]\<rparr>)) \<and>
   map_option set (map_of (rbac_Extra (DiffRBAC_order [\<lparr>sk_Kind = ''User'', sk_Name = ''alice'', sk_Namespace = []\<rparr>] \<lparr>Subjects = [(\<lparr>sk_Kind = ''User'', sk_Name = ''alice'', sk_Namespace = []\<rparr>, [(\<lparr>ScopeNamespace = ''*'', APIGroup = [], Resource = ''pods'', ResourceName = ''*'', Verb = ''get'', NonResourceURL = []\<rparr>, ())])]\<rparr> \<lparr>Subjects = [(\<lparr>sk_Kind = ''User'', sk_Name = ''alice'', sk_Namespace = []\<rparr>, [(\<lparr>ScopeNamespace = ''*'', APIGroup = [], Resource = ''pods'', ResourceName = ''*'', Verb = ''watch'', NonResourceURL = []\<rparr>, ()), (\<lparr>ScopeNamespace = ''*'', APIGroup = [], Resource = ''pods'', ResourceName = ''*'', Verb = ''list'', NonResourceURL = []\<rparr>, ())])]\<rparr>)) \<lparr>sk_Kind = ''User'', sk_Name = ''alice'', sk_Namespace = []\<rparr>) =
   map_option set (map_of (rbac_Extra (DiffRBAC \<lparr>Subjects = [(\<lparr>sk_Kind = ''User'', sk_Name = ''alice'', sk_Namespace = []\<rparr>, [(\<lparr>ScopeNamespace = ''*'', APIGroup = [], Resource = ''pods'', ResourceName = ''*'', Verb = ''get'', NonResourceURL = []\<rparr>, ())])]\<rparr> \<lparr>Subjects = [(\<lparr>sk_Kind = ''User'', sk_Name = ''alice'', sk_Namespace = []\<rparr>, [(\<lparr>ScopeNamespace = ''*'', APIGroup = [], Resource = ''pods'', ResourceName = ''*'', Verb = ''list'', NonResourceURL = []\<rparr>, ()), (\<lparr>ScopeNamespace = ''*'', APIGroup = [], Resource = ''pods'', ResourceName = ''*'', Verb = ''watch'', NonResourceURL = []\<rparr>, ())])]\<rparr>)) \<lparr>sk_Kind = ''User'', sk_Name = ''alice'', sk_Namespace = []\<rparr>)"
proof -
  have p1: "mset [(''b'', \<lparr>psa_Namespace = ''b'', Enforce = ''baseline'', Audit = [], Warn = []\<rparr>), (''a'', \<lparr>psa_Namespace = ''a'', Enforce = ''restricted'', Audit = [], Warn = []\<rparr>)] = mset (psaIndex [\<lparr>psa_Namespace = ''a'', Enforce = ''restricted'', Audit = [], Warn = []\<rparr>, \<lparr>psa_Namespace = ''b'', Enforce = ''baseline'', Audit = [], Warn = []\<rparr>])"
    by (simp add: psaIndex_def)
  have p2: "mset [(''c'', \<lparr>psa_Namespace = ''c'', Enforce = ''baseline'', Audit = [], Warn = []\<rparr>), (''a'', \<lparr>psa_Namespace = ''a'', Enforce = ''baseline'', Audit = [], Warn = []\<rparr>)] = mset (psaIndex [\<lparr>psa_Namespace = ''a'', Enforce = ''baseline'', Audit = [], Warn = []\<rparr>, \<lparr>psa_Namespace = ''c'', Enforce = ''baseline'', Audit = [], Warn = []\<rparr>])"
    by (simp add: psaIndex_def)
  have n1: "wf_netpol \<lparr>Items = [(''ns1/dns'', \<lparr>d_Namespace = ''ns1'', d_Name = ''dns'', SpecHash = ''aa'', PolicyTypes = [], IngressCount = 1, EgressCount = 0\<rparr>), (''ns1/web'', \<lparr>d_Namespace = ''ns1'', d_Name = ''web'', SpecHash = ''bb'', PolicyTypes = [], IngressCount = 1, EgressCount = 0\<rparr>)]\<rparr>" by (simp add: wf_netpol_def netpolKey_def)
  have n2: "wf_netpol \<lparr>Items = [(''ns1/web'', \<lparr>d_Namespace = ''ns1'', d_Name = ''web'', SpecHash = ''cc'', PolicyTypes = [], IngressCount = 1, EgressCount = 0\<rparr>), (''ns2/db'', \<lparr>d_Namespace = ''ns2'', d_Name = ''db'', SpecHash = ''dd'', PolicyTypes = [], IngressCount = 1, EgressCount = 0\<rparr>)]\<rparr>" by (simp add: wf_netpol_def netpolKey_def)
  have n3: "mset (Items \<lparr>Items = [(''ns1/web'', \<lparr>d_Namespace = ''ns1'', d_Name = ''web'', SpecHash = ''bb'', PolicyTypes = [], IngressCount = 1, EgressCount = 0\<rparr>), (''ns1/dns'', \<lparr>d_Namespace = ''ns1'', d_Name = ''dns'', SpecHash = ''aa'', PolicyTypes = [], IngressCount = 1, EgressCount = 0\<rparr>)]\<rparr>) = mset (Items \<lparr>Items = [(''ns1/dns'', \<lparr>d_Namespace = ''ns1'', d_Name = ''dns'', SpecHash = ''aa'', PolicyTypes = [], IngressCount = 1, EgressCount = 0\<rparr>), (''ns1/web'', \<lparr>d_Namespace = ''ns1'', d_Name = ''web'', SpecHash = ''bb'', PolicyTypes = [], IngressCount = 1, EgressCount = 0\<rparr>)]\<rparr>)" by simp
  have n4: "mset (Items \<lparr>Items = [(''ns2/db'', \<lparr>d_Namespace = ''ns2'', d_Name = ''db'', SpecHash = ''dd'', PolicyTypes = [], IngressCount = 1, EgressCount = 0\<rparr>), (''ns1/web'', \<lparr>d_Namespace = ''ns1'', d_Name = ''web'', SpecHash = ''cc'', PolicyTypes = [], IngressCount = 1, EgressCount = 0\<rparr>)]\<rparr>) = mset (Items \<lparr>Items = [(''ns1/web'', \<lparr>d_Namespace = ''ns1'', d_Name = ''web'', SpecHash = ''cc'', PolicyTypes = [], IngressCount = 1, EgressCount = 0\<rparr>), (''ns2/db'', \<lparr>d_Namespace = ''ns2'', d_Name = ''db'', SpecHash = ''dd'', PolicyTypes = [], IngressCount = 1, EgressCount = 0\<rparr>)]\<rparr>)" by simp
  have n5: "mset [''ns2/db'', ''ns1/dns'', ''ns1/web''] = mset (map fst (netpolKeys \<lparr>Items = [(''ns1/dns'', \<lparr>d_Namespace = ''ns1'', d_Name = ''dns'', SpecHash = ''aa'', PolicyTypes = [], IngressCount = 1, EgressCount = 0\<rparr>), (''ns1/web'', \<lparr>d_Namespace = ''ns1'', d_Name = ''web'', SpecHash = ''bb'', PolicyTypes = [], IngressCount = 1, EgressCount = 0\<rparr>)]\<rparr> \<lparr>Items = [(''ns1/web'', \<lparr>d_Namespace = ''ns1'', d_Name = ''web'', SpecHash = ''cc'', PolicyTypes = [], IngressCount = 1, EgressCount = 0\<rparr>), (''ns2/db'', \<lparr>d_Namespace = ''ns2'', d_Name = ''db'', SpecHash = ''dd'', PolicyTypes = [], IngressCount = 1, EgressCount = 0\<rparr>)]\<rparr>))"
    by (simp add: netpolKeys_def)
  have r1: "same_rbac \<lparr>Subjects = [(\<lparr>sk_Kind = ''User'', sk_Name = ''alice'', sk_Namespace = []\<rparr>, [(\<lparr>ScopeNamespace = ''*'', APIGroup = [], Resource = ''pods'', ResourceName = ''*'', Verb = ''get'', NonResourceURL = []\<rparr>, ())])]\<rparr> \<lparr>Subjects = [(\<lparr>sk_Kind = ''User'', sk_Name = ''alice'', sk_Namespace = []\<rparr>, [(\<lparr>ScopeNamespace = ''*'', APIGroup = [], Resource = ''pods'', ResourceName = ''*'', Verb = ''get'', NonResourceURL = []\<rparr>, ())])]\<rparr>" by (simp add: same_rbac_def)
  have r2: "same_rbac \<lparr>Subjects = [(\<lparr>sk_Kind = ''User'', sk_Name = ''alice'', sk_Namespace = []\<rparr>, [(\<lparr>ScopeNamespace = ''*'', APIGroup = [], Resource = ''pods'', ResourceName = ''*'', Verb = ''list'', NonResourceURL = []\<rparr>, ()), (\<lparr>ScopeNamespace = ''*'', APIGroup = [], Resource = ''pods'', ResourceName = ''*'', Verb = ''watch'', NonResourceURL = []\<rparr>, ())])]\<rparr> \<lparr>Subjects = [(\<lparr>sk_Kind = ''User'', sk_Name = ''alice'', sk_Namespace = []\<rparr>, [(\<lparr>ScopeNamespace = ''*'', APIGroup = [], Resource = ''pods'', ResourceName = ''*'', Verb = ''watch'', NonResourceURL = []\<rparr>, ()), (\<lparr>ScopeNamespace = ''*'', APIGroup = [], Resource = ''pods'', ResourceName = ''*'', Verb = ''list'', NonResourceURL = []\<rparr>, ())])]\<rparr>"
    by (auto simp: same_rbac_def permSetOf_def permsOf_def)
  have r3: "set [\<lparr>sk_Kind = ''User'', sk_Name = ''alice'', sk_Namespace = []\<rparr>] = set (map fst (allSubjects \<lparr>Subjects = [(\<lparr>sk_Kind = ''User'', sk_Name = ''alice'', sk_Namespace = []\<rparr>, [(\<lparr>ScopeNamespace = ''*'', APIGroup = [], Resource = ''pods'', ResourceName = ''*'', Verb = ''get'', NonResourceURL = []\<rparr>, ())])]\<rparr> \<lparr>Subjects = [(\<lparr>sk_Kind = ''User'', sk_Name = ''alice'', sk_Namespace = []\<rparr>, [(\<lparr>ScopeNamespace = ''*'', APIGroup = [], Resource = ''pods'', ResourceName = ''*'', Verb = ''list'', NonResourceURL = []\<rparr>, ()), (\<lparr>ScopeNamespace = ''*'', APIGroup = [], Resource = ''pods'', ResourceName = ''*'', Verb = ''watch'', NonResourceURL = []\<rparr>, ())])]\<rparr>))"
    by (simp add: allSubjects_def)
  note t = differs_order_independent
    [where bMap = "[(''b'', \<lparr>psa_Namespace = ''b'', Enforce = ''baseline'', Audit = [], Warn = []\<rparr>), (''a'', \<lparr>psa_Namespace = ''a'', Enforce = ''restricted'', Audit = [], Warn = []\<rparr>)]" and lMap = "[(''c'', \<lparr>psa_Namespace = ''c'', Enforce = ''baseline'', Audit = [], Warn = []\<rparr>), (''a'', \<lparr>psa_Namespace = ''a'', Enforce = ''baseline'', Audit = [], Warn = []\<rparr>)]" and baseline = "[\<lparr>psa_Namespace = ''a'', Enforce = ''restricted'', Audit = [], Warn = []\<rparr>, \<lparr>psa_Namespace = ''b'', Enforce = ''baseline'', Audit = [], Warn = []\<rparr>]" and live = "[\<lparr>psa_Namespace = ''a'', Enforce = ''baseline'', Audit = [], Warn = []\<rparr>, \<lparr>psa_Namespace = ''c'', Enforce = ''baseline'', Audit = [], Warn = []\<rparr>]"
       and nb = "\<lparr>Items = [(''ns1/dns'', \<lparr>d_Namespace = ''ns1'', d_Name = ''dns'', SpecHash = ''aa'', PolicyTypes = [], IngressCount = 1, EgressCount = 0\<rparr>), (''ns1/web'', \<lparr>d_Namespace = ''ns1'', d_Name = ''web'', SpecHash = ''bb'', PolicyTypes = [], IngressCount = 1, EgressCount = 0\<rparr>)]\<rparr>" and nl = "\<lparr>Items = [(''ns1/web'', \<lparr>d_Namespace = ''ns1'', d_Name = ''web'', SpecHash = ''cc'', PolicyTypes = [], IngressCount = 1, EgressCount = 0\<rparr>), (''ns2/db'', \<lparr>d_Namespace = ''ns2'', d_Name = ''db'', SpecHash = ''dd'', PolicyTypes = [], IngressCount = 1, EgressCount = 0\<rparr>)]\<rparr>" and nb' = "\<lparr>Items = [(''ns1/web'', \<lparr>d_Namespace = ''ns1'', d_Name = ''web'', SpecHash = ''bb'', PolicyTypes = [], IngressCount = 1, EgressCount = 0\<rparr>), (''ns1/dns'', \<lparr>d_Namespace = ''ns1'', d_Name = ''dns'', SpecHash = ''aa'', PolicyTypes = [], IngressCount = 1, EgressCount = 0\<rparr>)]\<rparr>" and nl' = "\<lparr>Items = [(''ns2/db'', \<lparr>d_Namespace = ''ns2'', d_Name = ''db'', SpecHash = ''dd'', PolicyTypes = [], IngressCount = 1, EgressCount = 0\<rparr>), (''ns1/web'', \<lparr>d_Namespace = ''ns1'', d_Name = ''web'', SpecHash = ''cc'', PolicyTypes = [], IngressCount = 1, EgressCount = 0\<rparr>)]\<rparr>" and ks = "[''ns2/db'', ''ns1/dns'', ''ns1/web'']"
       and rb = "\<lparr>Subjects = [(\<lparr>sk_Kind = ''User'', sk_Name = ''alice'', sk_Namespace = []\<rparr>, [(\<lparr>ScopeNamespace = ''*'', APIGroup = [], Resource = ''pods'', ResourceName = ''*'', Verb = ''get'', NonResourceURL = []\<rparr>, ())])]\<rparr>" and rb' = "\<lparr>Subjects = [(\<lparr>sk_Kind = ''User'', sk_Name = ''alice'', sk_Namespace = []\<rparr>, [(\<lparr>ScopeNamespace = ''*'', APIGroup = [], Resource = ''pods'', ResourceName = ''*'', Verb = ''get'', NonResourceURL = []\<rparr>, ())])]\<rparr>" and rl = "\<lparr>Subjects = [(\<lparr>sk_Kind = ''User'', sk_Name = ''alice'', sk_Namespace = []\<rparr>, [(\<lparr>ScopeNamespace = ''*'', APIGroup = [], Resource = ''pods'', ResourceName = ''*'', Verb = ''list'', NonResourceURL = []\<rparr>, ()), (\<lparr>ScopeNamespace = ''*'', APIGroup = [], Resource = ''pods'', ResourceName = ''*'', Verb = ''watch'', NonResourceURL = []\<rparr>, ())])]\<rparr>" and rl' = "\<lparr>Subjects = [(\<lparr>sk_Kind = ''User'', sk_Name = ''alice'', sk_Namespace = []\<rparr>, [(\<lparr>ScopeNamespace = ''*'', APIGroup = [], Resource = ''pods'', ResourceName = ''*'', Verb = ''watch'', NonResourceURL = []\<rparr>, ()), (\<lparr>ScopeNamespace = ''*'', APIGroup = [], Resource = ''pods'', ResourceName = ''*'', Verb = ''list'', NonResourceURL = []\<rparr>, ())])]\<rparr>"
       and subjects = "[\<lparr>sk_Kind = ''User'', sk_Name = ''alice'', sk_Namespace = []\<rparr>]" and subj = "\<lparr>sk_Kind = ''User'', sk_Name = ''alice'', sk_Namespace = []\<rparr>"]
  from t p1 p2 have c1: "DiffPSA_maps [(''b'', \<lparr>psa_Namespace = ''b'', Enforce = ''baseline'', Audit = [], Warn = []\<rparr>), (''a'', \<lparr>psa_Namespace = ''a'', Enforce = ''restricted'', Audit = [], Warn = []\<rparr>)] [(''c'', \<lparr>psa_Namespace = ''c'', Enforce = ''baseline'', Audit = [], Warn = []\<rparr>), (''a'', \<lparr>psa_Namespace = ''a'', Enforce = ''baseline'', Audit = [], Warn = []\<rparr>)] = DiffPSA [\<lparr>psa_Namespace = ''a'', Enforce = ''restricted'', Audit = [], Warn = []\<rparr>, \<lparr>psa_Namespace = ''b'', Enforce = ''baseline'', Audit = [], Warn = []\<rparr>] [\<lparr>psa_Namespace = ''a'', Enforce = ''baseline'', Audit = [], Warn = []\<rparr>, \<lparr>psa_Namespace = ''c'', Enforce = ''baseline'', Audit = [], Warn = []\<rparr>]" by blast
  from t n1 n2 n3 n4 n5 have c2:
    "DiffNetworkPolicies_order [''ns2/db'', ''ns1/dns'', ''ns1/web''] \<lparr>Items = [(''ns1/web'', \<lparr>d_Namespace = ''ns1'', d_Name = ''web'', SpecHash = ''bb'', PolicyTypes = [], IngressCount = 1, EgressCount = 0\<rparr>), (''ns1/dns'', \<lparr>d_Namespace = ''ns1'', d_Name = ''dns'', SpecHash = ''aa'', PolicyTypes = [], IngressCount = 1, EgressCount = 0\<rparr>)]\<rparr> \<lparr>Items = [(''ns2/db'', \<lparr>d_Namespace = ''ns2'', d_Name = ''db'', SpecHash = ''dd'', PolicyTypes = [], IngressCount = 1, EgressCount = 0\<rparr>), (''ns1/web'', \<lparr>d_Namespace = ''ns1'', d_Name = ''web'', SpecHash = ''cc'', PolicyTypes = [], IngressCount = 1, EgressCount = 0\<rparr>)]\<rparr> = DiffNetworkPolicies \<lparr>Items = [(''ns1/dns'', \<lparr>d_Namespace = ''ns1'', d_Name = ''dns'', SpecHash = ''aa'', PolicyTypes = [], IngressCount = 1, EgressCount = 0\<rparr>), (''ns1/web'', \<lparr>d_Namespace = ''ns1'', d_Name = ''web'', SpecHash = ''bb'', PolicyTypes = [], IngressCount = 1, EgressCount = 0\<rparr>)]\<rparr> \<lparr>Items = [(''ns1/web'', \<lparr>d_Namespace = ''ns1'', d_Name = ''web'', SpecHash = ''cc'', PolicyTypes = [], IngressCount = 1, EgressCount = 0\<rparr>), (''ns2/db'', \<lparr>d_Namespace = ''ns2'', d_Name = ''db'', SpecHash = ''dd'', PolicyTypes = [], IngressCount = 1, EgressCount = 0\<rparr>)]\<rparr>" by blast
  from t r1 r2 r3 have c3:
    "map_option set (map_of (rbac_Extra (DiffRBAC_order [\<lparr>sk_Kind = ''User'', sk_Name = ''alice'', sk_Namespace = []\<rparr>] \<lparr>Subjects = [(\<lparr>sk_Kind = ''User'', sk_Name = ''alice'', sk_Namespace = []\<rparr>, [(\<lparr>ScopeNamespace = ''*'', APIGroup = [], Resource = ''pods'', ResourceName = ''*'', Verb = ''get'', NonResourceURL = []\<rparr>, ())])]\<rparr> \<lparr>Subjects = [(\<lparr>sk_Kind = ''User'', sk_Name = ''alice'', sk_Namespace = []\<rparr>, [(\<lparr>ScopeNamespace = ''*'', APIGroup = [], Resource = ''pods'', ResourceName = ''*'', Verb = ''watch'', NonResourceURL = []\<rparr>, ()), (\<lparr>ScopeNamespace = ''*'', APIGroup = [], Resource = ''pods'', ResourceName = ''*'', Verb = ''list'', NonResourceURL = []\<rparr>, ())])]\<rparr>)) \<lparr>sk_Kind = ''User'', sk_Name = ''alice'', sk_Namespace = []\<rparr>) =
     map_option set (map_of (rbac_Extra (DiffRBAC \<lparr>Subjects = [(\<lparr>sk_Kind = ''User'', sk_Name = ''alice'', sk_Namespace = []\<rparr>, [(\<lparr>ScopeNamespace = ''*'', APIGroup = [], Resource = ''pods'', ResourceName = ''*'', Verb = ''get'', NonResourceURL = []\<rparr>, ())])]\<rparr> \<lparr>Subjects = [(\<lparr>sk_Kind = ''User'', sk_Name = ''alice'', sk_Namespace = []\<rparr>, [(\<lparr>ScopeNamespace = ''*'', APIGroup = [], Resource = ''pods'', ResourceName = ''*'', Verb = ''list'', NonResourceURL = []\<rparr>, ()), (\<lparr>ScopeNamespace = ''*'', APIGroup = [], Resource = ''pods'', ResourceName = ''*'', Verb = ''watch'', NonResourceURL = []\<rparr>, ())])]\<rparr>)) \<lparr>sk_Kind = ''User'', sk_Name = ''alice'', sk_Namespace = []\<rparr>)" by blast
  show ?thesis
    by (rule conjI[OF p1 conjI[OF p2 conjI[OF c1 conjI[OF n1 conjI[OF n2 conjI[OF n3
          conjI[OF n4 conjI[OF n5 conjI[OF c2 conjI[OF r1 conjI[OF r2 conjI[OF r3 c3]]]]]]]]]]]])
qed

text \<open>One live snapshot, its two permissions visited in the two possible orders, against the
  empty baseline: the two runs of \<open>DiffRBAC\<close> differ in the order of the subject's list.\<close>

theorem DiffRBAC_order_counterexample:
  "same_rbac \<lparr>Subjects = [(\<lparr>sk_Kind = ''User'', sk_Name = ''alice'', sk_Namespace = []\<rparr>, [(\<lparr>ScopeNamespace = ''*'', APIGroup = [], Resource = ''pods'', ResourceName = ''*'', Verb = ''list'', NonResourceURL = []\<rparr>, ()), (\<lparr>ScopeNamespace = ''*'', APIGroup = [], Resource = ''pods'', ResourceName = ''*'', Verb = ''watch'', NonResourceURL = []\<rparr>, ())])]\<rparr> \<lparr>Subjects = [(\<lparr>sk_Kind = ''User'', sk_Name = ''alice'', sk_Namespace = []\<rparr>, [(\<lparr>ScopeNamespace = ''*'', APIGroup = [], Resource = ''pods'', ResourceName = ''*'', Verb = ''watch'', NonResourceURL = []\<rparr>, ()), (\<lparr>ScopeNamespace = ''*'', APIGroup = [], Resource = ''pods'', ResourceName = ''*'', Verb = ''list'', NonResourceURL = []\<rparr>, ())])]\<rparr> \<and>
   map fst (Subjects \<lparr>Subjects = [(\<lparr>sk_Kind = ''User'', sk_Name = ''alice'', sk_Namespace = []\<rparr>, [(\<lparr>ScopeNamespace = ''*'', APIGroup = [], Resource = ''pods'', ResourceName = ''*'', Verb = ''list'', NonResourceURL = []\<rparr>, ()), (\<lparr>ScopeNamespace = ''*'', APIGroup = [], Resource = ''pods'', ResourceName = ''*'', Verb = ''watch'', NonResourceURL = []\<rparr>, ())])]\<rparr>) = map fst (Subjects \<lparr>Subjects = [(\<lparr>sk_Kind = ''User'', sk_Name = ''alice'', sk_Namespace = []\<rparr>, [(\<lparr>ScopeNamespace = ''*'', APIGroup = [], Resource = ''pods'', ResourceName = ''*'', Verb = ''watch'', NonResourceURL = []\<rparr>, ()), (\<lparr>ScopeNamespace = ''*'', APIGroup = [], Resource = ''pods'', ResourceName = ''*'', Verb = ''list'', NonResourceURL = []\<rparr>, ())])]\<rparr>) \<and>
   map_of (rbac_Extra (DiffRBAC \<lparr>Subjects = []\<rparr> \<lparr>Subjects = [(\<lparr>sk_Kind = ''User'', sk_Name = ''alice'', sk_Namespace = []\<rparr>, [(\<lparr>ScopeNamespace = ''*'', APIGroup = [], Resource = ''pods'', ResourceName = ''*'', Verb = ''list'', NonResourceURL = []\<rparr>, ()), (\<lparr>ScopeNamespace = ''*'', APIGroup = [], Resource = ''pods'', ResourceName = ''*'', Verb = ''watch'', NonResourceURL = []\<rparr>, ())])]\<rparr>)) \<lparr>sk_Kind = ''User'', sk_Name = ''alice'', sk_Namespace = []\<rparr> = Some [\<lparr>ScopeNamespace = ''*'', APIGroup = [], Resource = ''pods'', ResourceName = ''*'', Verb = ''list'', NonResourceURL = []\<rparr>, \<lparr>ScopeNamespace = ''*'', APIGroup = [], Resource = ''pods'', ResourceName = ''*'', Verb = ''watch'', NonResourceURL = []\<rparr>] \<and>
   map_of (rbac_Extra (DiffRBAC \<lparr>Subjects = []\<rparr> \<lparr>Subjects = [(\<lparr>sk_Kind = ''User'', sk_Name = ''alice'', sk_Namespace = []\<rparr>, [(\<lparr>ScopeNamespace = ''*'', APIGroup = [], Resource = ''pods'', ResourceName = ''*'', Verb = ''watch'', NonResourceURL = []\<rparr>, ()), (\<lparr>ScopeNamespace = ''*'', APIGroup = [], Resource = ''pods'', ResourceName = ''*'', Verb = ''list'', NonResourceURL = []\<rparr>, ())])]\<rparr>)) \<lparr>sk_Kind = ''User'', sk_Name = ''alice'', sk_Namespace = []\<rparr> = Some [\<lparr>ScopeNamespace = ''*'', APIGroup = [], Resource = ''pods'', ResourceName = ''*'', Verb = ''watch'', NonResourceURL = []\<rparr>, \<lparr>ScopeNamespace = ''*'', APIGroup = [], Resource = ''pods'', ResourceName = ''*'', Verb = ''list'', NonResourceURL = []\<rparr>] \<and>
   DiffRBAC \<lparr>Subjects = []\<rparr> \<lparr>Subjects = [(\<lparr>sk_Kind = ''User'', sk_Name = ''alice'', sk_Namespace = []\<rparr>, [(\<lparr>ScopeNamespace = ''*'', APIGroup = [], Resource = ''pods'', ResourceName = ''*'', Verb = ''list'', NonResourceURL = []\<rparr>, ()), (\<lparr>ScopeNamespace = ''*'', APIGroup = [], Resource = ''pods'', ResourceName = ''*'', Verb = ''watch'', NonResourceURL = []\<rparr>, ())])]\<rparr> \<noteq> DiffRBAC \<lparr>Subjects = []\<rparr> \<lparr>Subjects = [(\<lparr>sk_Kind = ''User'', sk_Name = ''alice'', sk_Namespace = []\<rparr>, [(\<lparr>ScopeNamespace = ''*'', APIGroup = [], Resource = ''pods'', ResourceName = ''*'', Verb = ''watch'', NonResourceURL = []\<rparr>, ()), (\<lparr>ScopeNamespace = ''*'', APIGroup = [], Resource = ''pods'', ResourceName = ''*'', Verb = ''list'', NonResourceURL = []\<rparr>, ())])]\<rparr>"
proof -
  have r2: "same_rbac \<lparr>Subjects = [(\<lparr>sk_Kind = ''User'', sk_Name = ''alice'', sk_Namespace = []\<rparr>, [(\<lparr>ScopeNamespace = ''*'', APIGroup = [], Resource = ''pods'', ResourceName = ''*'', Verb = ''list'', NonResourceURL = []\<rparr>, ()), (\<lparr>ScopeNamespace = ''*'', APIGroup = [], Resource = ''pods'', ResourceName = ''*'', Verb = ''watch'', NonResourceURL = []\<rparr>, ())])]\<rparr> \<lparr>Subjects = [(\<lparr>sk_Kind = ''User'', sk_Name = ''alice'', sk_Namespace = []\<rparr>, [(\<lparr>ScopeNamespace = ''*'', APIGroup = [], Resource = ''pods'', ResourceName = ''*'', Verb = ''watch'', NonResourceURL = []\<rparr>, ()), (\<lparr>ScopeNamespace = ''*'', APIGroup = [], Resource = ''pods'', ResourceName = ''*'', Verb = ''list'', NonResourceURL = []\<rparr>, ())])]\<rparr>"
    by (auto simp: same_rbac_def permSetOf_def permsOf_def)
  have e1: "DiffRBAC \<lparr>Subjects = []\<rparr> \<lparr>Subjects = [(\<lparr>sk_Kind = ''User'', sk_Name = ''alice'', sk_Namespace = []\<rparr>, [(\<lparr>ScopeNamespace = ''*'', APIGroup = [], Resource = ''pods'', ResourceName = ''*'', Verb = ''list'', NonResourceURL = []\<rparr>, ()), (\<lparr>ScopeNamespace = ''*'', APIGroup = [], Resource = ''pods'', ResourceName = ''*'', Verb = ''watch'', NonResourceURL = []\<rparr>, ())])]\<rparr> = \<lparr>rbac_Extra = [(\<lparr>sk_Kind = ''User'', sk_Name = ''alice'', sk_Namespace = []\<rparr>, [\<lparr>ScopeNamespace = ''*'', APIGroup = [], Resource = ''pods'', ResourceName = ''*'', Verb = ''list'', NonResourceURL = []\<rparr>, \<lparr>ScopeNamespace = ''*'', APIGroup = [], Resource = ''pods'', ResourceName = ''*'', Verb = ''watch'', NonResourceURL = []\<rparr>])], rbac_Missing = []\<rparr>"
    by (simp add: DiffRBAC_def DiffRBAC_order_def allSubjects_def diffSubject_def permsOf_def
        notIn_def)
  have e2: "DiffRBAC \<lparr>Subjects = []\<rparr> \<lparr>Subjects = [(\<lparr>sk_Kind = ''User'', sk_Name = ''alice'', sk_Namespace = []\<rparr>, [(\<lparr>ScopeNamespace = ''*'', APIGroup = [], Resource = ''pods'', ResourceName = ''*'', Verb = ''watch'', NonResourceURL = []\<rparr>, ()), (\<lparr>ScopeNamespace = ''*'', APIGroup = [], Resource = ''pods'', ResourceName = ''*'', Verb = ''list'', NonResourceURL = []\<rparr>, ())])]\<rparr> = \<lparr>rbac_Extra = [(\<lparr>sk_Kind = ''User'', sk_Name = ''alice'', sk_Namespace = []\<rparr>, [\<lparr>ScopeNamespace = ''*'', APIGroup = [], Resource = ''pods'', ResourceName = ''*'', Verb = ''watch'', NonResourceURL = []\<rparr>, \<lparr>ScopeNamespace = ''*'', APIGroup = [], Resource = ''pods'', ResourceName = ''*'', Verb = ''list'', NonResourceURL = []\<rparr>])], rbac_Missing = []\<rparr>"
    by (simp add: DiffRBAC_def DiffRBAC_order_def allSubjects_def diffSubject_def permsOf_def
        notIn_def)
  show ?thesis unfolding e1 e2 using r2 by simp
qed

subsection \<open>The snapshot builders establish the invariants\<close>

lemma NewNetPolDigest_names:
  "NewNetPolDigest marshal sum256 np = Inr d \<Longrightarrow>
   d_Namespace d = np_Namespace np \<and> d_Name d = np_Name np"
  by (auto simp: NewNetPolDigest_def Let_def split: sum.splits)

lemma buildNetPolItems_wf:
  assumes "buildNetPolItems marshal sum256 netpols items = Inr items'"
    and "wf_netpol \<lparr>Items = items\<rparr>"
  shows "wf_netpol \<lparr>Items = items'\<rparr>"
  using assms
proof (induction netpols arbitrary: items)
  case Nil
  then show ?case by simp
next
  case (Cons np rest)
  from Cons.prems(1) obtain d where d: "NewNetPolDigest marshal sum256 np = Inr d"
    and r: "buildNetPolItems marshal sum256 rest
              (AList.update (np_Namespace np @ ''/'' @ np_Name np) d items) = Inr items'"
    by (auto split: sum.splits)
  have k: "np_Namespace np @ ''/'' @ np_Name np = netpolKey (d_Namespace d) (d_Name d)"
    using NewNetPolDigest_names[OF d] by (simp add: netpolKey_def)
  have "wf_netpol \<lparr>Items = AList.update (np_Namespace np @ ''/'' @ np_Name np) d items\<rparr>"
    using Cons.prems(2) k
      set_update_subset[of "np_Namespace np @ ''/'' @ np_Name np" d items]
    by (auto simp: wf_netpol_def AList.distinct_update)
  with r show ?case by (rule Cons.IH)
qed

lemma buildNetPolSnapshot_wf:
  "buildNetPolSnapshot marshal sum256 netpols = Inr snap \<Longrightarrow> wf_netpol snap"
proof -
  assume a: "buildNetPolSnapshot marshal sum256 netpols = Inr snap"
  then obtain items where i: "buildNetPolItems marshal sum256 netpols [] = Inr items"
    and s: "snap = \<lparr>Items = items\<rparr>"
    by (auto simp: buildNetPolSnapshot_def split: sum.splits)
  have "wf_netpol \<lparr>Items = []\<rparr>" by (simp add: wf_netpol_def)
  with i have "wf_netpol \<lparr>Items = items\<rparr>" by (rule buildNetPolItems_wf)
  with s show ?thesis by simp
qed

lemma snapshot_distinct_addAll:
  "snapshot_distinct s \<Longrightarrow>
   snapshot_distinct (foldl (\<lambda>s subj. AddPermissions (key subj) perms s) s subjects)"
  by (induction subjects arbitrary: s) (simp_all add: snapshot_distinct_AddPermissions)

lemma snapshot_distinct_roleBindingStep:
  "snapshot_distinct s \<Longrightarrow> snapshot_distinct (roleBindingStep byKey byName s rb)"
  by (simp add: roleBindingStep_def Let_def snapshot_distinct_addAll split: option.splits)

lemma snapshot_distinct_clusterRoleBindingStep:
  "snapshot_distinct s \<Longrightarrow> snapshot_distinct (clusterRoleBindingStep byName s crb)"
  by (simp add: clusterRoleBindingStep_def Let_def snapshot_distinct_addAll)

lemma snapshot_distinct_build:
  "snapshot_distinct (buildRBACSnapshot roles clusterRoles roleBindings clusterRoleBindings)"
proof -
  have e: "snapshot_distinct \<lparr>Subjects = []\<rparr>" by (simp add: snapshot_distinct_def)
  have r: "snapshot_distinct (foldl (roleBindingStep byKey byName) s rbs)"
    if "snapshot_distinct s" for byKey byName s rbs
    using that by (induction rbs arbitrary: s) (simp_all add: snapshot_distinct_roleBindingStep)
  have c: "snapshot_distinct (foldl (clusterRoleBindingStep byName) s crbs)"
    if "snapshot_distinct s" for byName s crbs
    using that
    by (induction crbs arbitrary: s) (simp_all add: snapshot_distinct_clusterRoleBindingStep)
  show ?thesis
    unfolding buildRBACSnapshot_def Let_def by (intro c r e)
qed

text \<open>Whatever \<^verbatim>\<open>sort.Slice\<close> does inside, on a list with pairwise distinct sort keys its result
  is the list \<open>sortSlice\<close> returns.\<close>

lemma sorted_permutation_unique:
  fixes key :: "'a \<Rightarrow> 'k::linorder"
  assumes lt: "\<And>a b. lt a b = (key a < key b)"
    and d: "distinct (map key xs)" and m: "mset ys = mset xs" and s: "sorted (map key ys)"
  shows "ys = sortSlice lt xs"
proof -
  have "mset (map key ys) = mset (map key xs)" using m by simp
  then have dy: "distinct (map key ys)" using d mset_eq_imp_distinct_iff by blast
  have e: "set ys = set xs" using m by (rule mset_eq_setD)
  have "map key ys = map key (sortSlice lt xs)"
    by (rule sorted_distinct_set_unique)
       (simp_all add: sorted_sortSlice[of lt key, OF lt] distinct_map_sortSlice d dy
          set_sortSlice e s)
  moreover have "inj_on key (set ys \<union> set (sortSlice lt xs))"
    using d by (simp add: set_sortSlice e distinct_map)
  ultimately show ?thesis by (simp add: inj_on_map_eq_map)
qed

end
